(* ===== verification/SysTime_Prelude.thy ===== *)
theory SysTime_Prelude
  imports Main
begin

text \<open>
  Shared vocabulary of the development: programs that read and change a state and may stop
  with a fault, their total-correctness triples and frame conditions, reachable states of a
  transition system, and the interfaces (locales) that several components implement: an
  invariant of a transition system, a simulation between two of them, and a first-in
  first-out queue. Everything here is generic; nothing in it depends on the daemon.
\<close>

section \<open>Collections of facts\<close>

named_theorems prog_simps \<open>unfolding one step of a program\<close>
named_theorems keeps_intros \<open>frame conditions of programs\<close>
named_theorems safe_intros \<open>total-correctness rules of programs\<close>

section \<open>Programs with state and faults\<close>

text \<open>
  A program maps a state to an outcome, either a fault or a result, and the state it leaves
  behind. The state survives a fault, so that a handler that catches an exception sees what
  was done before it was thrown.
\<close>

type_synonym ('f, 's, 'a) prog = "'s \<Rightarrow> ('f + 'a) \<times> 's"

definition ret :: "'a \<Rightarrow> ('f, 's, 'a) prog" where
  "ret x = (\<lambda>s. (Inr x, s))"

definition throwM :: "'f \<Rightarrow> ('f, 's, 'a) prog" where
  "throwM e = (\<lambda>s. (Inl e, s))"

definition getM :: "('s \<Rightarrow> 'a) \<Rightarrow> ('f, 's, 'a) prog" where
  "getM f = (\<lambda>s. (Inr (f s), s))"

definition modM :: "('s \<Rightarrow> 's) \<Rightarrow> ('f, 's, unit) prog" where
  "modM f = (\<lambda>s. (Inr (), f s))"

definition bindM :: "('f, 's, 'a) prog \<Rightarrow> ('a \<Rightarrow> ('f, 's, 'b) prog) \<Rightarrow> ('f, 's, 'b) prog" where
  "bindM m f = (\<lambda>s. case m s of (Inl e, t) \<Rightarrow> (Inl e, t) | (Inr x, t) \<Rightarrow> f x t)"

definition catchM :: "('f, 's, 'a) prog \<Rightarrow> ('f \<Rightarrow> ('f, 's, 'a) prog) \<Rightarrow> ('f, 's, 'a) prog" where
  "catchM m h = (\<lambda>s. case m s of (Inl e, t) \<Rightarrow> h e t | (Inr x, t) \<Rightarrow> (Inr x, t))"

text \<open>A block of statements, and a loop over a list whose body may replace each element.\<close>

primrec seqM :: "('f, 's, unit) prog list \<Rightarrow> ('f, 's, unit) prog" where
  "seqM [] = ret ()"
| "seqM (m # ms) = bindM m (\<lambda>_. seqM ms)"

primrec mapM :: "('a \<Rightarrow> ('f, 's, 'b) prog) \<Rightarrow> 'a list \<Rightarrow> ('f, 's, 'b list) prog" where
  "mapM f [] = ret []"
| "mapM f (x # xs) = bindM (f x) (\<lambda>y. bindM (mapM f xs) (\<lambda>ys. ret (y # ys)))"

text \<open>A loop that threads local variables \<open>a\<close> through its iterations.\<close>

primrec foldM :: "('v \<Rightarrow> 'a \<Rightarrow> ('f, 's, 'v) prog) \<Rightarrow> 'v \<Rightarrow> 'a list \<Rightarrow> ('f, 's, 'v) prog" where
  "foldM f v [] = ret v"
| "foldM f v (x # xs) = bindM (f v x) (\<lambda>w. foldM f w xs)"

definition whenM :: "bool \<Rightarrow> ('f, 's, unit) prog \<Rightarrow> ('f, 's, unit) prog" where
  "whenM b m = (if b then m else ret ())"

lemma ret_run [prog_simps]: "ret x s = (Inr x, s)"
  by (simp add: ret_def)

lemma throwM_run [prog_simps]: "throwM e s = (Inl e, s)"
  by (simp add: throwM_def)

lemma getM_run [prog_simps]: "getM f s = (Inr (f s), s)"
  by (simp add: getM_def)

lemma modM_run [prog_simps]: "modM f s = (Inr (), f s)"
  by (simp add: modM_def)

lemma bindM_run [prog_simps]:
  "bindM m f s = (case m s of (Inl e, t) \<Rightarrow> (Inl e, t) | (Inr x, t) \<Rightarrow> f x t)"
  by (simp add: bindM_def)

lemma catchM_run [prog_simps]:
  "catchM m h s = (case m s of (Inl e, t) \<Rightarrow> h e t | (Inr x, t) \<Rightarrow> (Inr x, t))"
  by (simp add: catchM_def)

lemma whenM_run [prog_simps]: "whenM b m s = (if b then m s else (Inr (), s))"
  by (simp add: whenM_def ret_def)

text \<open>The laws that let blocks be regrouped.\<close>

lemma bindM_ret_left [simp]: "bindM (ret x) f = f x"
  by (simp add: bindM_def ret_def fun_eq_iff)

lemma bindM_ret_right [simp]: "bindM m ret = m"
  by (auto simp: bindM_def ret_def fun_eq_iff split: prod.splits sum.splits)

lemma bindM_assoc: "bindM (bindM m f) g = bindM m (\<lambda>x. bindM (f x) g)"
  by (auto simp: bindM_def fun_eq_iff split: prod.splits sum.splits)

lemma bindM_throwM [simp]: "bindM (throwM e) f = throwM e"
  by (simp add: bindM_def throwM_def fun_eq_iff)

lemma seqM_append: "seqM (ms @ ns) = bindM (seqM ms) (\<lambda>_. seqM ns)"
  by (induction ms) (simp_all add: bindM_assoc)

section \<open>Total-correctness triples\<close>

text \<open>
  \<open>safe P m Q\<close>: from every state with \<open>P\<close> the program returns (no fault) and its result and
  final state satisfy \<open>Q\<close>.
\<close>

definition safe :: "('s \<Rightarrow> bool) \<Rightarrow> ('f, 's, 'a) prog \<Rightarrow> ('a \<Rightarrow> 's \<Rightarrow> bool) \<Rightarrow> bool" where
  "safe P m Q \<longleftrightarrow> (\<forall>s. P s \<longrightarrow> (\<exists>x t. m s = (Inr x, t) \<and> Q x t))"

lemma safeI: "(\<And>s. P s \<Longrightarrow> \<exists>x t. m s = (Inr x, t) \<and> Q x t) \<Longrightarrow> safe P m Q"
  by (simp add: safe_def)

lemma safeD: "safe P m Q \<Longrightarrow> P s \<Longrightarrow> \<exists>x t. m s = (Inr x, t) \<and> Q x t"
  by (simp add: safe_def)

lemma safe_ret [safe_intros]: "(\<And>s. P s \<Longrightarrow> Q x s) \<Longrightarrow> safe P (ret x) Q"
  by (simp add: safe_def ret_def)

lemma safe_getM [safe_intros]: "(\<And>s. P s \<Longrightarrow> Q (f s) s) \<Longrightarrow> safe P (getM f) Q"
  by (simp add: safe_def getM_def)

lemma safe_modM [safe_intros]: "(\<And>s. P s \<Longrightarrow> Q () (f s)) \<Longrightarrow> safe P (modM f) Q"
  by (simp add: safe_def modM_def)

lemma safe_bindM:
  assumes "safe P m R" and "\<And>x. safe (R x) (f x) Q"
  shows "safe P (bindM m f) Q"
proof (rule safeI)
  fix s assume "P s"
  with assms(1) obtain x t where m: "m s = (Inr x, t)" and "R x t"
    by (blast dest: safeD)
  with assms(2) obtain y u where "f x t = (Inr y, u)" and "Q y u"
    by (blast dest: safeD)
  with m show "\<exists>x t. bindM m f s = (Inr x, t) \<and> Q x t"
    by (simp add: bindM_def)
qed

lemma safe_whenM [safe_intros]:
  "(b \<Longrightarrow> safe P m Q) \<Longrightarrow> (\<And>s. \<not> b \<Longrightarrow> P s \<Longrightarrow> Q () s) \<Longrightarrow> safe P (whenM b m) Q"
  by (auto simp: whenM_def intro: safe_ret)

lemma safe_strengthen: "safe P m Q \<Longrightarrow> (\<And>s. P' s \<Longrightarrow> P s) \<Longrightarrow> safe P' m Q"
  by (auto simp: safe_def)

lemma safe_weaken: "safe P m Q \<Longrightarrow> (\<And>x s. Q x s \<Longrightarrow> Q' x s) \<Longrightarrow> safe P m Q'"
  unfolding safe_def by blast

text \<open>A loop keeps its invariant when its body does.\<close>

lemma safe_mapM:
  assumes "\<And>x. x \<in> set xs \<Longrightarrow> safe I (f x) (\<lambda>y s. I s \<and> R x y)"
  shows "safe I (mapM f xs) (\<lambda>ys s. I s \<and> list_all2 R xs ys)"
  using assms
proof (induction xs)
  case Nil
  then show ?case by (simp add: safe_ret)
next
  case (Cons x xs)
  have tail: "safe I (mapM f xs) (\<lambda>ys s. I s \<and> list_all2 R xs ys)"
    using Cons by simp
  have "safe (\<lambda>s. I s \<and> R x y) (bindM (mapM f xs) (\<lambda>ys. ret (y # ys)))
          (\<lambda>ys s. I s \<and> list_all2 R (x # xs) ys)" for y
  proof (rule safe_bindM)
    show "safe (\<lambda>s. I s \<and> R x y) (mapM f xs) (\<lambda>ys s. (I s \<and> list_all2 R xs ys) \<and> R x y)"
      using tail unfolding safe_def by blast
  qed (auto intro: safe_ret)
  moreover have "safe I (f x) (\<lambda>y s. I s \<and> R x y)"
    using Cons.prems by simp
  ultimately show ?case
    unfolding mapM.simps by (rule safe_bindM [rotated])
qed

lemma safe_foldM:
  assumes "\<And>v x. x \<in> set xs \<Longrightarrow> safe (I v) (f v x) I"
  shows "safe (I v) (foldM f v xs) I"
  using assms
proof (induction xs arbitrary: v)
  case Nil
  then show ?case by (simp add: safe_ret)
next
  case (Cons x xs)
  have "safe (I v) (f v x) I" and "\<And>w. safe (I w) (foldM f w xs) I"
    using Cons by simp_all
  then show ?case
    by (auto intro: safe_bindM)
qed

section \<open>Frame conditions\<close>

text \<open>\<open>keeps p m\<close>: the program leaves the part \<open>p\<close> of the state as it was, faults included.\<close>

definition keeps :: "('s \<Rightarrow> 'p) \<Rightarrow> ('f, 's, 'a) prog \<Rightarrow> bool" where
  "keeps p m \<longleftrightarrow> (\<forall>s. p (snd (m s)) = p s)"

lemma keepsD: "keeps p m \<Longrightarrow> m s = (r, t) \<Longrightarrow> p t = p s"
  unfolding keeps_def by (metis snd_conv)

lemma keeps_ret [keeps_intros]: "keeps p (ret x)"
  by (simp add: keeps_def ret_def)

lemma keeps_throwM [keeps_intros]: "keeps p (throwM e)"
  by (simp add: keeps_def throwM_def)

lemma keeps_getM [keeps_intros]: "keeps p (getM f)"
  by (simp add: keeps_def getM_def)

lemma keeps_modM [keeps_intros]: "(\<And>s. p (f s) = p s) \<Longrightarrow> keeps p (modM f)"
  by (simp add: keeps_def modM_def)

lemma keeps_bindM [keeps_intros]:
  "keeps p m \<Longrightarrow> (\<And>x. keeps p (f x)) \<Longrightarrow> keeps p (bindM m f)"
  by (auto simp: keeps_def bindM_def split: prod.splits sum.splits) (metis snd_conv)+

lemma keeps_catchM [keeps_intros]:
  "keeps p m \<Longrightarrow> (\<And>e. keeps p (h e)) \<Longrightarrow> keeps p (catchM m h)"
  by (auto simp: keeps_def catchM_def split: prod.splits sum.splits) (metis snd_conv)+

lemma keeps_whenM [keeps_intros]: "(b \<Longrightarrow> keeps p m) \<Longrightarrow> keeps p (whenM b m)"
  by (simp add: whenM_def keeps_ret)

lemma keeps_if [keeps_intros]:
  "(b \<Longrightarrow> keeps p m) \<Longrightarrow> (\<not> b \<Longrightarrow> keeps p n) \<Longrightarrow> keeps p (if b then m else n)"
  by simp

lemma keeps_seqM [keeps_intros]: "(\<And>m. m \<in> set ms \<Longrightarrow> keeps p m) \<Longrightarrow> keeps p (seqM ms)"
  by (induction ms) (simp_all add: keeps_intros)

lemma keeps_mapM [keeps_intros]: "(\<And>x. keeps p (f x)) \<Longrightarrow> keeps p (mapM f xs)"
  by (induction xs) (simp_all add: keeps_intros)

lemma keeps_foldM [keeps_intros]: "(\<And>v x. keeps p (f v x)) \<Longrightarrow> keeps p (foldM f v xs)"
  by (induction xs arbitrary: v) (simp_all add: keeps_intros)

lemma keeps_option [keeps_intros]:
  "(x = None \<Longrightarrow> keeps p m) \<Longrightarrow> (\<And>y. x = Some y \<Longrightarrow> keeps p (f y)) \<Longrightarrow>
   keeps p (case x of None \<Rightarrow> m | Some y \<Rightarrow> f y)"
  by (cases x) simp_all

lemma keeps_prod [keeps_intros]:
  "(\<And>x y. keeps p (f x y)) \<Longrightarrow> keeps p (case z of (x, y) \<Rightarrow> f x y)"
  by (cases z) simp

lemma keeps_prod_app [keeps_intros]:
  "(\<And>x y. keeps p (f x y a)) \<Longrightarrow> keeps p ((case z of (x, y) \<Rightarrow> f x y) a)"
  by (cases z) simp

text \<open>A frame condition may be added to a triple.\<close>

lemma safe_keeps:
  assumes "safe P m Q" and "keeps p m"
  shows "safe (\<lambda>s. P s \<and> p s = v) m (\<lambda>x t. Q x t \<and> p t = v)"
  using assms unfolding safe_def by (metis keepsD)

section \<open>Transition systems\<close>

inductive reach :: "('s \<Rightarrow> bool) \<Rightarrow> ('s \<Rightarrow> 'l \<Rightarrow> 's \<Rightarrow> bool) \<Rightarrow> 's \<Rightarrow> bool"
  for init :: "'s \<Rightarrow> bool" and step :: "'s \<Rightarrow> 'l \<Rightarrow> 's \<Rightarrow> bool" where
  reach_init: "init s \<Longrightarrow> reach init step s"
| reach_step: "reach init step s \<Longrightarrow> step s l t \<Longrightarrow> reach init step t"

inductive run :: "('s \<Rightarrow> 'l \<Rightarrow> 's \<Rightarrow> bool) \<Rightarrow> 's \<Rightarrow> 'l list \<Rightarrow> 's \<Rightarrow> bool"
  for step :: "'s \<Rightarrow> 'l \<Rightarrow> 's \<Rightarrow> bool" where
  run_nil: "run step s [] s"
| run_cons: "step s l t \<Longrightarrow> run step t ls u \<Longrightarrow> run step s (l # ls) u"

inductive_cases run_nilE [elim!]: "run step s [] t"
inductive_cases run_consE: "run step s (l # ls) t"

lemma run_append: "run step s ks t \<Longrightarrow> run step t ls u \<Longrightarrow> run step s (ks @ ls) u"
  by (induction rule: run.induct) (auto intro: run.intros)

lemma run_reach: "run step s ls t \<Longrightarrow> reach init step s \<Longrightarrow> reach init step t"
  by (induction rule: run.induct) (auto intro: reach.intros)

locale invariant_system =
  fixes init :: "'s \<Rightarrow> bool"
    and step :: "'s \<Rightarrow> 'l \<Rightarrow> 's \<Rightarrow> bool"
    and inv :: "'s \<Rightarrow> bool"
  assumes init_inv: "init s \<Longrightarrow> inv s"
    and step_inv: "inv s \<Longrightarrow> step s l t \<Longrightarrow> inv t"
begin

lemma reach_inv: "reach init step s \<Longrightarrow> inv s"
  by (induction rule: reach.induct) (auto intro: init_inv step_inv)

lemma run_inv: "run step s ls t \<Longrightarrow> inv s \<Longrightarrow> inv t"
  by (induction rule: run.induct) (auto intro: step_inv)

end

text \<open>
  A functional simulation: every concrete step from a state with the invariant is matched by
  the abstract step function on the abstracted state.
\<close>

locale simulation = invariant_system init step inv
  for init :: "'s \<Rightarrow> bool" and step :: "'s \<Rightarrow> 'l \<Rightarrow> 's \<Rightarrow> bool" and inv :: "'s \<Rightarrow> bool" +
  fixes abs :: "'s \<Rightarrow> 'a"
    and astep :: "'l \<Rightarrow> 'a \<Rightarrow> 'a"
  assumes step_abs: "inv s \<Longrightarrow> step s l t \<Longrightarrow> abs t = astep l (abs s)"
begin

lemma run_abs: "run step s ls t \<Longrightarrow> inv s \<Longrightarrow> abs t = fold astep ls (abs s)"
  by (induction rule: run.induct) (auto simp: step_abs intro: step_inv)

end

section \<open>First-in first-out queues\<close>

locale fifo =
  fixes enq :: "'a \<Rightarrow> 's \<Rightarrow> 's"
    and deq :: "'s \<Rightarrow> ('a \<times> 's) option"
    and pending :: "'s \<Rightarrow> 'a list"
  assumes pending_enq: "pending (enq x s) = pending s @ [x]"
    and deq_None: "deq s = None \<longleftrightarrow> pending s = []"
    and deq_Some: "deq s = Some (x, t) \<Longrightarrow> pending s = x # pending t"
begin

lemma pending_enqs: "pending (fold enq xs s) = pending s @ xs"
  by (induction xs arbitrary: s) (simp_all add: pending_enq)

lemma deq_oldest: "pending s = x # xs \<Longrightarrow> \<exists>t. deq s = Some (x, t) \<and> pending t = xs"
  using deq_None [of s] deq_Some [of s] by (cases "deq s") auto

primrec drain :: "nat \<Rightarrow> 's \<Rightarrow> 'a list \<times> 's" where
  "drain 0 s = ([], s)"
| "drain (Suc n) s =
     (case deq s of None \<Rightarrow> ([], s)
      | Some (x, t) \<Rightarrow> (let (xs, u) = drain n t in (x # xs, u)))"

lemma drain_in_order: "length (pending s) \<le> n \<Longrightarrow> fst (drain n s) = pending s"
proof (induction n arbitrary: s)
  case 0
  then show ?case by simp
next
  case (Suc n)
  show ?case
  proof (cases "deq s")
    case None
    then have "pending s = []" by (rule deq_None [THEN iffD1])
    with None show ?thesis by simp
  next
    case (Some p)
    obtain x t where p: "p = (x, t)" by (cases p)
    with Some have "pending s = x # pending t" by (simp add: deq_Some)
    with Suc have "fst (drain n t) = pending t" by simp
    with Some p \<open>pending s = x # pending t\<close> show ?thesis
      by (simp add: split_beta)
  qed
qed

end

end
