(* ===== verification/Cxx_Map.thy ===== *)
theory Cxx_Map
  imports SysTime_Prelude "HOL-Library.List_Lexorder" "HOL-Library.Char_ord"
begin

text \<open>
  The ordered associative container the daemon keeps its state machine, its path-to-event
  table and the tokens of the version file in. A container is the list of its entries in key
  order, so that iteration visits the keys in ascending order as the library's iterators do.
  \<open>smap_insert\<close> is \<open>insert\<close>/\<open>emplace\<close> (an existing entry stays), \<open>smap_assign\<close> is assignment
  through the index operator (an existing entry is replaced), \<open>smap_find\<close> is \<open>find\<close>.
\<close>

type_synonym ('k, 'v) smap = "('k \<times> 'v) list"

fun smap_insert :: "'k::linorder \<Rightarrow> 'v \<Rightarrow> ('k, 'v) smap \<Rightarrow> ('k, 'v) smap" where
  "smap_insert k v [] = [(k, v)]"
| "smap_insert k v ((k', v') # m) =
     (if k < k' then (k, v) # (k', v') # m
      else if k = k' then (k', v') # m
      else (k', v') # smap_insert k v m)"

fun smap_assign :: "'k::linorder \<Rightarrow> 'v \<Rightarrow> ('k, 'v) smap \<Rightarrow> ('k, 'v) smap" where
  "smap_assign k v [] = [(k, v)]"
| "smap_assign k v ((k', v') # m) =
     (if k < k' then (k, v) # (k', v') # m
      else if k = k' then (k, v) # m
      else (k', v') # smap_assign k v m)"

definition smap_find :: "('k, 'v) smap \<Rightarrow> 'k \<Rightarrow> 'v option" where
  "smap_find m k = map_of m k"

text \<open>Reading through the index operator gives the value type's default for a missing key.\<close>

definition smap_index :: "'v \<Rightarrow> ('k, 'v) smap \<Rightarrow> 'k \<Rightarrow> 'v" where
  "smap_index d m k = (case smap_find m k of None \<Rightarrow> d | Some v \<Rightarrow> v)"

definition smap_wf :: "('k::linorder, 'v) smap \<Rightarrow> bool" where
  "smap_wf m \<longleftrightarrow> sorted_wrt (<) (map fst m)"

locale ordered_map =
  fixes ins :: "'k::linorder \<Rightarrow> 'v \<Rightarrow> 'm \<Rightarrow> 'm"
    and asn :: "'k \<Rightarrow> 'v \<Rightarrow> 'm \<Rightarrow> 'm"
    and look :: "'m \<Rightarrow> 'k \<Rightarrow> 'v option"
    and empty :: "'m"
    and wf :: "'m \<Rightarrow> bool"
  assumes wf_empty: "wf empty"
    and wf_ins: "wf m \<Longrightarrow> wf (ins k v m)"
    and wf_asn: "wf m \<Longrightarrow> wf (asn k v m)"
    and look_empty: "look empty k = None"
    and look_ins: "wf m \<Longrightarrow> look (ins k v m) k' =
          (if k' = k \<and> look m k = None then Some v else look m k')"
    and look_asn: "wf m \<Longrightarrow> look (asn k v m) k' = (if k' = k then Some v else look m k')"
begin

lemma ins_list:
  "wf m \<Longrightarrow> wf (fold (\<lambda>(k, v). ins k v) kvs m) \<and>
     look (fold (\<lambda>(k, v). ins k v) kvs m) k =
       (case look m k of None \<Rightarrow> map_of kvs k | Some v \<Rightarrow> Some v)"
proof (induction kvs arbitrary: m)
  case Nil
  then show ?case by (simp split: option.splits)
next
  case (Cons kv kvs)
  obtain a b where kv: "kv = (a, b)" by (cases kv)
  have "wf (ins a b m)" using Cons.prems by (rule wf_ins)
  from Cons.IH [OF this] Cons.prems kv show ?case
    by (auto simp: look_ins split: option.splits)
qed

lemma first_wins: "look (fold (\<lambda>(k, v). ins k v) kvs empty) k = map_of kvs k"
  using ins_list [OF wf_empty] by (simp add: look_empty)

lemma asn_list:
  "wf m \<Longrightarrow> wf (fold (\<lambda>(k, v). asn k v) kvs m) \<and>
     look (fold (\<lambda>(k, v). asn k v) kvs m) k =
       (case map_of (rev kvs) k of None \<Rightarrow> look m k | Some v \<Rightarrow> Some v)"
proof (induction kvs arbitrary: m)
  case Nil
  then show ?case by simp
next
  case (Cons kv kvs)
  obtain a b where kv: "kv = (a, b)" by (cases kv)
  have "wf (asn a b m)" using Cons.prems by (rule wf_asn)
  from Cons.IH [OF this] Cons.prems kv show ?case
    by (auto simp: look_asn map_add_def split: option.splits)
qed

lemma last_wins: "look (fold (\<lambda>(k, v). asn k v) kvs empty) k = map_of (rev kvs) k"
  using asn_list [OF wf_empty] by (simp add: look_empty split: option.splits)

end

lemma smap_wf_Nil [simp]: "smap_wf []"
  by (simp add: smap_wf_def)

lemma smap_wf_step [simp]: "smap_wf (p # m) \<longleftrightarrow> (\<forall>k \<in> fst ` set m. fst p < k) \<and> smap_wf m"
  by (auto simp: smap_wf_def)

lemma smap_insert_keys: "fst ` set (smap_insert k v m) = insert k (fst ` set m)"
  by (induction k v m rule: smap_insert.induct) auto

lemma smap_assign_keys: "fst ` set (smap_assign k v m) = insert k (fst ` set m)"
  by (induction k v m rule: smap_assign.induct) auto

lemma smap_wf_insert: "smap_wf m \<Longrightarrow> smap_wf (smap_insert k v m)"
proof (induction k v m rule: smap_insert.induct)
  case (2 k v a b m)
  then show ?case
    by (cases k a rule: linorder_cases) (auto simp: smap_insert_keys)
qed simp

lemma smap_wf_assign: "smap_wf m \<Longrightarrow> smap_wf (smap_assign k v m)"
proof (induction k v m rule: smap_assign.induct)
  case (2 k v a b m)
  then show ?case
    by (cases k a rule: linorder_cases) (auto simp: smap_assign_keys)
qed simp

lemma smap_wf_Cons: "smap_wf (p # m) \<Longrightarrow> k \<le> fst p \<Longrightarrow> map_of m k = None"
  by (auto simp: map_of_eq_None_iff)

lemma smap_find_insert:
  "smap_wf m \<Longrightarrow> smap_find (smap_insert k v m) k' =
     (if k' = k \<and> smap_find m k = None then Some v else smap_find m k')"
proof (induction k v m rule: smap_insert.induct)
  case (1 k v)
  then show ?case by (simp add: smap_find_def)
next
  case (2 k v a b m)
  have "smap_wf m" using "2.prems" by simp
  with "2.IH" "2.prems" show ?case
    using smap_wf_Cons [of "(a, b)" m k] by (auto simp: smap_find_def)
qed

lemma smap_find_assign:
  "smap_wf m \<Longrightarrow> smap_find (smap_assign k v m) k' = (if k' = k then Some v else smap_find m k')"
proof (induction k v m rule: smap_assign.induct)
  case (1 k v)
  then show ?case by (simp add: smap_find_def)
next
  case (2 k v a b m)
  have "smap_wf m" using "2.prems" by simp
  with "2.IH" "2.prems" show ?case by (auto simp: smap_find_def)
qed

interpretation smap: ordered_map smap_insert smap_assign smap_find "[]" smap_wf
proof unfold_locales
  show "smap_wf ([] :: ('a, 'b) smap)" by simp
  show "smap_find [] k = None" for k :: 'a by (simp add: smap_find_def)
qed (auto simp: smap_wf_insert smap_wf_assign smap_find_insert smap_find_assign)

end
