(* ===== verification/Cxx_Text.thy ===== *)
theory Cxx_Text
  imports SysTime_Prelude "HOL-Library.Monad_Syntax"
begin

text \<open>
  What the daemon uses of the text facilities of its language and C library: decimal output
  and input of \<open>long long\<close> (\<open>operator<<\<close>, \<open>operator>>\<close>, \<open>stoll\<close>, \<open>to_string\<close>), searching and
  slicing of \<open>std::string\<close>, formatted output into a fixed character array (\<open>snprintf\<close> with
  \<open>%s\<close>), lower-casing, whitespace-separated word input, and the calendar functions
  \<open>strptime\<close> (for the one format string the daemon uses) and \<open>timegm\<close>. A \<open>std::string\<close> is a
  list of bytes; a position is a natural number and \<open>npos\<close> is \<open>None\<close>.
\<close>

section \<open>Characters\<close>

definition is_digit :: "char \<Rightarrow> bool" where
  "is_digit c \<longleftrightarrow> 48 \<le> (of_char c :: nat) \<and> (of_char c :: nat) \<le> 57"

definition digit_val :: "char \<Rightarrow> nat" where
  "digit_val c = of_char c - 48"

definition digit_char :: "nat \<Rightarrow> char" where
  "digit_char n = char_of (48 + n)"

definition is_space :: "char \<Rightarrow> bool" where
  "is_space c \<longleftrightarrow> (of_char c :: nat) = 32 \<or> (9 \<le> (of_char c :: nat) \<and> (of_char c :: nat) \<le> 13)"

definition newline :: char where
  "newline = CHR 0x0A"

definition nul :: char where
  "nul = CHR 0x00"

definition tolower :: "char \<Rightarrow> char" where
  "tolower c = (if 65 \<le> (of_char c :: nat) \<and> (of_char c :: nat) \<le> 90
                then char_of ((of_char c :: nat) + 32) else c)"

lemma of_char_digit_char: "n < 10 \<Longrightarrow> of_char (digit_char n) = (48 + n :: nat)"
  by (simp add: digit_char_def)

lemma digit_char_simps [simp]:
  "n < 10 \<Longrightarrow> is_digit (digit_char n)"
  "n < 10 \<Longrightarrow> digit_val (digit_char n) = n"
  by (simp_all add: is_digit_def digit_val_def of_char_digit_char)

lemma newline_not_digit [simp]: "\<not> is_digit newline"
  by (simp add: is_digit_def newline_def)

lemma digit_not_space: "is_digit c \<Longrightarrow> \<not> is_space c"
  by (auto simp: is_digit_def is_space_def)

lemma sign_not_digit [simp]:
  "\<not> is_digit (CHR ''-'')" "\<not> is_digit (CHR ''+'')" "\<not> is_space (CHR ''-'')"
  "\<not> is_digit (CHR '':'')" "\<not> is_digit (CHR '' '')" "is_space (CHR '' '')"
  by (simp_all add: is_digit_def is_space_def)

section \<open>Decimal numbers\<close>

text \<open>The range of \<open>long long\<close>.\<close>

definition LLONG_MAX :: int where
  "LLONG_MAX = 9223372036854775807"

definition LLONG_MIN :: int where
  "LLONG_MIN = - 9223372036854775808"

definition is_ll :: "int \<Rightarrow> bool" where
  "is_ll v \<longleftrightarrow> LLONG_MIN \<le> v \<and> v \<le> LLONG_MAX"

fun show_nat :: "nat \<Rightarrow> string" where
  "show_nat n = (if n < 10 then [digit_char n]
                 else show_nat (n div 10) @ [digit_char (n mod 10)])"

declare show_nat.simps [simp del]

definition show_int :: "int \<Rightarrow> string" where
  "show_int v = (if v < 0 then CHR ''-'' # show_nat (nat (- v)) else show_nat (nat v))"

definition read_nat :: "string \<Rightarrow> nat" where
  "read_nat ds = foldl (\<lambda>a c. 10 * a + digit_val c) 0 ds"

text \<open>
  The common part of \<open>strtoll\<close> and of number extraction: white space, an optional sign, then
  the longest run of digits; \<open>None\<close> when there is no digit.
\<close>

definition scan_ll :: "string \<Rightarrow> int option" where
  "scan_ll s =
     (let s1 = dropWhile is_space s;
          neg = (s1 \<noteq> [] \<and> hd s1 = CHR ''-'');
          s2 = (if s1 \<noteq> [] \<and> (hd s1 = CHR ''-'' \<or> hd s1 = CHR ''+'') then tl s1 else s1);
          ds = takeWhile is_digit s2
      in if ds = [] then None
         else Some (if neg then - int (read_nat ds) else int (read_nat ds)))"

text \<open>
  \<open>in >> v\<close> for a fresh \<open>v\<close>: a failed extraction stores zero, an out-of-range one the nearest
  limit.
\<close>

definition istream_ll :: "string \<Rightarrow> int" where
  "istream_ll s = (case scan_ll s of None \<Rightarrow> 0
                   | Some v \<Rightarrow> max LLONG_MIN (min LLONG_MAX v))"

datatype stoll_error = Invalid_argument | Out_of_range

definition stoll :: "string \<Rightarrow> stoll_error + int" where
  "stoll s = (case scan_ll s of None \<Rightarrow> Inl Invalid_argument
              | Some v \<Rightarrow> if is_ll v then Inr v else Inl Out_of_range)"

lemma read_nat_snoc: "read_nat (ds @ [c]) = 10 * read_nat ds + digit_val c"
  by (simp add: read_nat_def)

lemma show_nat_props:
  "read_nat (show_nat n) = n \<and> (\<forall>c \<in> set (show_nat n). is_digit c) \<and> show_nat n \<noteq> []"
proof (induction n rule: show_nat.induct)
  case (1 n)
  show ?case
  proof (cases "n < 10")
    case True
    then show ?thesis
      by (simp add: show_nat.simps [of n] read_nat_def)
  next
    case False
    with 1 show ?thesis
      by (auto simp: show_nat.simps [of n] read_nat_snoc)
  qed
qed

lemmas read_show_nat [simp] = show_nat_props [THEN conjunct1]
lemmas show_nat_digits = show_nat_props [THEN conjunct2, THEN conjunct1, rule_format]
lemmas show_nat_nonempty [simp] = show_nat_props [THEN conjunct2, THEN conjunct2]

lemma takeWhile_show_nat:
  assumes "rest = [] \<or> \<not> is_digit (hd rest)"
  shows "takeWhile is_digit (show_nat n @ rest) = show_nat n"
  using assms by (cases rest) (simp_all add: show_nat_digits takeWhile_append2)

lemma show_nat_hd: "\<exists>c cs. show_nat n = c # cs \<and> is_digit c"
  using show_nat_digits [of _ n] by (cases "show_nat n") auto

text \<open>What was printed is read back, whatever follows, as long as it is not a digit.\<close>

lemma scan_show_int:
  assumes "rest = [] \<or> \<not> is_digit (hd rest)"
  shows "scan_ll (show_int v @ rest) = Some v"
proof (cases "v < 0")
  case True
  then show ?thesis
    using assms by (simp add: scan_ll_def show_int_def takeWhile_show_nat)
next
  case False
  obtain c cs where hd: "show_nat (nat v) = c # cs" and c: "is_digit c"
    using show_nat_hd by blast
  have "c \<noteq> CHR ''-''" "c \<noteq> CHR ''+''" "\<not> is_space c"
    using c digit_not_space by auto
  with hd have "dropWhile is_space (show_nat (nat v) @ rest) = show_nat (nat v) @ rest"
    and "hd (show_nat (nat v) @ rest) \<noteq> CHR ''-''" "hd (show_nat (nat v) @ rest) \<noteq> CHR ''+''"
    by simp_all
  with False show ?thesis
    using assms by (simp add: scan_ll_def show_int_def takeWhile_show_nat)
qed

lemma istream_show_int: "is_ll v \<Longrightarrow> istream_ll (show_int v @ [newline]) = v"
  by (simp add: istream_ll_def scan_show_int is_ll_def)

lemma stoll_show_int: "is_ll v \<Longrightarrow> stoll (show_int v) = Inr v"
  using scan_show_int [of "[]" v] by (simp add: stoll_def)

lemma istream_ll_range: "is_ll (istream_ll s)"
  by (auto simp: istream_ll_def is_ll_def LLONG_MIN_def LLONG_MAX_def split: option.splits)

lemma stoll_range: "stoll s = Inr v \<Longrightarrow> is_ll v"
  by (auto simp: stoll_def split: option.splits if_splits)

lemma show_nat_length: "n < 10 ^ Suc k \<Longrightarrow> length (show_nat n) \<le> Suc k"
proof (induction k arbitrary: n)
  case 0
  then show ?case by (simp add: show_nat.simps [of n])
next
  case (Suc k)
  then have "n div 10 < 10 ^ Suc k" by auto
  then have "length (show_nat (n div 10)) \<le> Suc k" by (rule Suc.IH)
  then show ?case by (simp add: show_nat.simps [of n])
qed

lemma show_int_length: "is_ll v \<Longrightarrow> length (show_int v) \<le> 20"
proof -
  assume "is_ll v"
  then have "nat v < 10 ^ Suc 18" and "nat (- v) < 10 ^ Suc 18"
    by (auto simp: is_ll_def LLONG_MIN_def LLONG_MAX_def)
  then show ?thesis
    using show_nat_length [of "nat v" 18] show_nat_length [of "nat (- v)" 18]
    by (simp add: show_int_def)
qed

section \<open>Searching and slicing strings\<close>

definition str_find :: "string \<Rightarrow> string \<Rightarrow> nat \<Rightarrow> nat option" where
  "str_find s t pos = List.find (\<lambda>i. take (length t) (drop i s) = t) [pos..<Suc (length s)]"

definition find_first_not_of :: "string \<Rightarrow> string \<Rightarrow> nat \<Rightarrow> nat option" where
  "find_first_not_of s t pos = List.find (\<lambda>i. s ! i \<notin> set t) [pos..<length s]"

definition find_char :: "string \<Rightarrow> char \<Rightarrow> nat \<Rightarrow> nat option" where
  "find_char s c pos = List.find (\<lambda>i. s ! i = c) [pos..<length s]"

definition substr :: "string \<Rightarrow> nat \<Rightarrow> nat \<Rightarrow> string" where
  "substr s pos n = take n (drop pos s)"

lemma find_upt_SomeD: "List.find P [a..<b] = Some i \<Longrightarrow> a \<le> i \<and> i < b \<and> P i"
  by (auto simp: find_Some_iff nth_append)

lemma find_upt_Some:
  assumes "a \<le> i" "i < b" "P i" "\<And>j. a \<le> j \<Longrightarrow> j < i \<Longrightarrow> \<not> P j"
  shows "List.find P [a..<b] = Some i"
proof -
  have "[a..<b] ! (i - a) = i" using assms by simp
  moreover have "\<forall>j < i - a. \<not> P ([a..<b] ! j)" using assms by auto
  ultimately show ?thesis
    using assms unfolding find_Some_iff by (intro exI [of _ "i - a"]) auto
qed

lemma str_find_bounds: "str_find s t pos = Some i \<Longrightarrow> pos \<le> i \<and> i \<le> length s"
  unfolding str_find_def by (drule find_upt_SomeD) simp

lemma find_first_not_of_bounds:
  "find_first_not_of s t pos = Some i \<Longrightarrow> pos \<le> i \<and> i < length s"
  by (auto simp: find_first_not_of_def dest: find_upt_SomeD)

lemma find_char_bounds: "find_char s c pos = Some i \<Longrightarrow> pos \<le> i \<and> i < length s"
  by (auto simp: find_char_def dest: find_upt_SomeD)

section \<open>Character arrays\<close>

text \<open>
  \<open>c_str\<close> passes a string up to its first NUL. \<open>snprintf_s n s buf\<close> is
  \<open>snprintf(buf, n, "%s", s.c_str())\<close>: at most \<open>n - 1\<close> bytes and a NUL are written and the rest
  of the array keeps its old contents. \<open>c_string\<close> reads an array as a C string.
\<close>

definition c_string :: "string \<Rightarrow> string" where
  "c_string buf = takeWhile (\<lambda>c. c \<noteq> nul) buf"

definition snprintf_s :: "nat \<Rightarrow> string \<Rightarrow> string \<Rightarrow> string" where
  "snprintf_s n s buf =
     (let t = take (n - 1) (c_string s) in t @ [nul] @ drop (Suc (length t)) buf)"

lemma c_string_idem [simp]: "c_string (c_string s) = c_string s"
  by (simp add: c_string_def takeWhile_idem)

lemma c_string_no_nul: "nul \<notin> set s \<Longrightarrow> c_string s = s"
  by (auto simp: c_string_def takeWhile_eq_all_conv)

lemma nul_notin_c_string: "nul \<notin> set (c_string s)"
  by (auto simp: c_string_def dest: set_takeWhileD)

lemma c_string_snprintf: "c_string (snprintf_s n s buf) = take (n - 1) (c_string s)"
proof -
  have "\<forall>c \<in> set (take (n - 1) (c_string s)). c \<noteq> nul"
    using nul_notin_c_string [of s] by (metis in_set_takeD)
  then show ?thesis
    by (simp add: snprintf_s_def c_string_def [of "_ @ _"] Let_def takeWhile_append2)
qed

lemma length_snprintf: "0 < n \<Longrightarrow> n \<le> length buf \<Longrightarrow> length (snprintf_s n s buf) = length buf"
  by (simp add: snprintf_s_def Let_def)

lemma snprintf_tail:
  "length (c_string s) < n \<Longrightarrow>
   drop (Suc (length (c_string s))) (snprintf_s n s buf) = drop (Suc (length (c_string s))) buf"
  by (simp add: snprintf_s_def Let_def)

section \<open>Whitespace-separated words\<close>

text \<open>\<open>in >> s\<close> for a string: skip white space, take the word; the input fails when none is left.\<close>

definition read_word :: "string \<Rightarrow> (string \<times> string) option" where
  "read_word s = (let s1 = dropWhile is_space s in
     if s1 = [] then None
     else Some (takeWhile (\<lambda>c. \<not> is_space c) s1, dropWhile (\<lambda>c. \<not> is_space c) s1))"

lemma length_dropWhile_le: "length (dropWhile P xs) \<le> length xs"
  by (induction xs) auto

lemma read_word_shorter: "read_word s = Some (w, r) \<Longrightarrow> length r < length s"
proof -
  assume *: "read_word s = Some (w, r)"
  define s1 where "s1 = dropWhile is_space s"
  with * have "s1 \<noteq> []" and r: "r = dropWhile (\<lambda>c. \<not> is_space c) s1"
    by (auto simp: read_word_def Let_def simp del: dropWhile_eq_Nil_conv split: if_splits)
  moreover have "\<not> is_space (hd s1)"
    using \<open>s1 \<noteq> []\<close> s1_def hd_dropWhile by blast
  ultimately have "length r \<le> length (tl s1)"
    by (cases s1) (simp_all add: length_dropWhile_le)
  moreover have "length s1 \<le> length s"
    by (simp add: s1_def length_dropWhile_le)
  ultimately show ?thesis
    using \<open>s1 \<noteq> []\<close> by (cases s1) simp_all
qed

section \<open>Calendar time\<close>

record tm =
  tm_year :: int
  tm_mon :: int
  tm_mday :: int
  tm_hour :: int
  tm_min :: int
  tm_sec :: int

text \<open>
  Numeric fields of \<open>strptime\<close>: leading white space, one digit at least, then at most \<open>n\<close>
  digits in all, stopping when another digit would leave the range.
\<close>

fun more_digits :: "nat \<Rightarrow> nat \<Rightarrow> nat \<Rightarrow> string \<Rightarrow> nat \<times> string" where
  "more_digits 0 hi v s = (v, s)"
| "more_digits (Suc n) hi v [] = (v, [])"
| "more_digits (Suc n) hi v (c # cs) =
     (if v * 10 \<le> hi \<and> is_digit c then more_digits n hi (v * 10 + digit_val c) cs
      else (v, c # cs))"

definition get_number :: "nat \<Rightarrow> nat \<Rightarrow> nat \<Rightarrow> string \<Rightarrow> (nat \<times> string) option" where
  "get_number lo hi n s =
     (case dropWhile is_space s of
        [] \<Rightarrow> None
      | c # cs \<Rightarrow>
          if is_digit c
          then (let (v, r) = more_digits (n - 1) hi (digit_val c) cs
                in if lo \<le> v \<and> v \<le> hi then Some (v, r) else None)
          else None)"

definition match_char :: "char \<Rightarrow> string \<Rightarrow> string option" where
  "match_char c s = (case s of [] \<Rightarrow> None | d # ds \<Rightarrow> if d = c then Some ds else None)"

text \<open>\<open>strptime(s, "%Y-%m-%d %H:%M:%S", &tm)\<close>; \<open>tm_year\<close> holds the year itself.\<close>

definition strptime :: "string \<Rightarrow> tm option" where
  "strptime s = do {
     (y, s) \<leftarrow> get_number 0 9999 4 s;
     s \<leftarrow> match_char (CHR ''-'') s;
     (mo, s) \<leftarrow> get_number 1 12 2 s;
     s \<leftarrow> match_char (CHR ''-'') s;
     (d, s) \<leftarrow> get_number 1 31 2 s;
     (h, s) \<leftarrow> get_number 0 23 2 (dropWhile is_space s);
     s \<leftarrow> match_char (CHR '':'') s;
     (mi, s) \<leftarrow> get_number 0 59 2 s;
     s \<leftarrow> match_char (CHR '':'') s;
     (sec, s) \<leftarrow> get_number 0 61 2 s;
     Some \<lparr>tm_year = int y, tm_mon = int mo, tm_mday = int d,
           tm_hour = int h, tm_min = int mi, tm_sec = int sec\<rparr> }"

text \<open>
  Days from 1970-01-01 in the Gregorian calendar, with the year taken to start in March;
  \<open>leap_days y\<close> counts the leap years up to \<open>y\<close>.
\<close>

definition leap_days :: "int \<Rightarrow> int" where
  "leap_days y = y div 4 - y div 100 + y div 400"

definition days_from_civil :: "int \<Rightarrow> int \<Rightarrow> int \<Rightarrow> int" where
  "days_from_civil y m d =
     (let y' = (if m \<le> 2 then y - 1 else y); m' = (if m \<le> 2 then m + 9 else m - 3)
      in 365 * y' + leap_days y' + (153 * m' + 2) div 5 + d - 1 - 719468)"

definition timegm :: "tm \<Rightarrow> int" where
  "timegm t = 86400 * days_from_civil (tm_year t) (tm_mon t) (tm_mday t)
              + 3600 * tm_hour t + 60 * tm_min t + tm_sec t"

definition leap_year :: "int \<Rightarrow> bool" where
  "leap_year y \<longleftrightarrow> y mod 4 = 0 \<and> (y mod 100 \<noteq> 0 \<or> y mod 400 = 0)"

definition days_in_month :: "int \<Rightarrow> int \<Rightarrow> int" where
  "days_in_month y m = (if m = 2 then (if leap_year y then 29 else 28)
                        else if m = 4 \<or> m = 6 \<or> m = 9 \<or> m = 11 then 30 else 31)"

text \<open>
  The day count is the calendar's: it starts at the epoch and every month is as long as the
  rules for leap years say.
\<close>

lemma days_epoch: "days_from_civil 1970 1 1 = 0"
  by (simp add: days_from_civil_def leap_days_def)

lemma days_linear: "days_from_civil y m d = days_from_civil y m 1 + (d - 1)"
  by (simp add: days_from_civil_def Let_def)

lemma div_pred:
  assumes "0 < (n :: int)"
  shows "y div n - (y - 1) div n = (if y mod n = 0 then 1 else 0)"
proof (cases "y mod n = 0")
  case True
  then have "y - 1 = n * (y div n - 1) + (n - 1)"
    using div_mult_mod_eq [of y n] by (simp add: algebra_simps)
  then have "(y - 1) div n = y div n - 1"
    using assms by (intro int_div_pos_eq [where r = "n - 1"]) simp_all
  with True show ?thesis by simp
next
  case False
  have "0 \<le> y mod n" "y mod n < n" using assms by simp_all
  moreover have "y - 1 = n * (y div n) + (y mod n - 1)"
    using div_mult_mod_eq [of y n] by (simp add: algebra_simps)
  ultimately have "(y - 1) div n = y div n"
    using False by (intro int_div_pos_eq [where r = "y mod n - 1"]) auto
  with False show ?thesis by simp
qed

lemma leap_cases:
  fixes a b c a' b' c' :: int
  assumes "a - a' = (if p then 1 else 0)" "b - b' = (if q then 1 else 0)"
    "c - c' = (if r then 1 else 0)" "q \<Longrightarrow> p" "r \<Longrightarrow> q"
  shows "(a - b + c) = (a' - b' + c') + (if p \<and> (\<not> q \<or> r) then 1 else 0)"
  using assms by (cases p; cases q; cases r) simp_all

lemma leap_step: "leap_days y = leap_days (y - 1) + (if leap_year y then 1 else 0)"
proof -
  have "y mod 100 mod 4 = y mod 4" "y mod 400 mod 100 = y mod 100"
    by (simp_all add: mod_mod_cancel)
  then have "y mod 100 = 0 \<Longrightarrow> y mod 4 = 0" "y mod 400 = 0 \<Longrightarrow> y mod 100 = 0"
    by (metis mod_0)+
  then show ?thesis
    unfolding leap_days_def leap_year_def
    by (intro leap_cases) (simp_all only: div_pred zero_less_numeral)
qed

lemma days_next_month:
  assumes "1 \<le> m" "m < 12"
  shows "days_from_civil y (m + 1) 1 = days_from_civil y m 1 + days_in_month y m"
proof -
  from assms have "m = 1 \<or> m = 2 \<or> m = 3 \<or> m = 4 \<or> m = 5 \<or> m = 6 \<or> m = 7 \<or> m = 8 \<or>
      m = 9 \<or> m = 10 \<or> m = 11" by arith
  then show ?thesis
    by (elim disjE) (simp_all add: days_from_civil_def days_in_month_def Let_def leap_step [of y])
qed

lemma days_next_year: "days_from_civil (y + 1) 1 1 = days_from_civil y 12 1 + 31"
  by (simp add: days_from_civil_def)

end
