(* ===== verification/World.thy ===== *)
theory World
  imports Cxx_Map Cxx_Text "HOL-Library.Word"
begin

text \<open>
  The outside of the daemon. Everything the sources call but do not contain (the kernel, the
  IARM bus, chronyctl, Thunder, the power controller, the DRM and media services, telemetry)
  is reached through external calls. An environment gives the result of each call as a
  function of the history of all calls made before it, so it may answer differently every
  time; nothing is assumed about it except by named hypotheses. The world records the file
  system, the history, and the files whose timestamps were set (the kernel's source of
  \<open>IN_ATTRIB\<close> notifications). The build options of \<open>configure.ac\<close> are fields of the environment.
\<close>

section \<open>Messages\<close>

text \<open>The enumerations and the message record of \<open>interface/itimermsg.h\<close>.\<close>

datatype publishEvent =
    ePUBLISH_TIME_INITIAL | ePUBLISH_NTP_FAIL | ePUBLISH_NTP_SUCCESS | ePUBLISH_DTT_SUCCESS
  | ePUBLISH_SECURE_TIME_SUCCESS | ePUBLISH_DEEP_SLEEP_ON

datatype qualityOfTime =
    eTIMEQUALILTY_POOR | eTIMEQUALILTY_GOOD | eTIMEQUALILTY_SECURE | eTIMEQUALILTY_UNKNOWN

fun publishEvent_code :: "publishEvent \<Rightarrow> int" where
  "publishEvent_code ePUBLISH_TIME_INITIAL = 0"
| "publishEvent_code ePUBLISH_NTP_FAIL = 1"
| "publishEvent_code ePUBLISH_NTP_SUCCESS = 2"
| "publishEvent_code ePUBLISH_DTT_SUCCESS = 3"
| "publishEvent_code ePUBLISH_SECURE_TIME_SUCCESS = 4"
| "publishEvent_code ePUBLISH_DEEP_SLEEP_ON = 5"

fun quality_code :: "qualityOfTime \<Rightarrow> int" where
  "quality_code eTIMEQUALILTY_POOR = 0"
| "quality_code eTIMEQUALILTY_GOOD = 1"
| "quality_code eTIMEQUALILTY_SECURE = 2"
| "quality_code eTIMEQUALILTY_UNKNOWN = 3"

lemma quality_code_inj [simp]: "quality_code a = quality_code b \<longleftrightarrow> a = b"
  by (cases a; cases b) simp_all

lemma publishEvent_code_inj [simp]: "publishEvent_code a = publishEvent_code b \<longleftrightarrow> a = b"
  by (cases a; cases b) simp_all

definition cTIMER_STATUS_MESSAGE_LENGTH :: nat where
  "cTIMER_STATUS_MESSAGE_LENGTH = 80"

definition cTIMER_STATUS_UPDATE :: int where
  "cTIMER_STATUS_UPDATE = 0"

definition IARM_BUS_SYSTIME_MGR_NAME :: string where
  "IARM_BUS_SYSTIME_MGR_NAME = ''SystemTimeMgr''"

definition TIMER_STATUS_MSG :: string where
  "TIMER_STATUS_MSG = ''TIMER_STATUS''"

definition POWER_CHANGE_MSG :: string where
  "POWER_CHANGE_MSG = ''POWER_CHANGE''"

text \<open>The three text fields are character arrays, all of whose bytes are part of the message.\<close>

record TimerMsg =
  msg_event :: int
  msg_quality :: int
  msg_timerSrc :: string
  msg_currentTime :: string
  msg_message :: string

section \<open>Faults\<close>

text \<open>
  How a thread of the daemon can stop: a null pointer is dereferenced, an exception of the
  standard library leaves the function, a JSON-RPC exception is thrown (and usually caught), a
  signed integer overflows, a pointer that was never initialised is called, \<open>std::terminate\<close> runs
  because a thread object was destroyed before it was joined.
\<close>

datatype fault =
    NullPointer | IndeterminateRead | Std_exception string | JsonRpcException | SignedOverflow
  | Terminate

section \<open>External calls\<close>

text \<open>
  Floating-point numbers are only compared and formatted: a finite one is \<open>m\<close> times a power of
  two.
\<close>

datatype dbl = Fin int int | Infinite bool | NaN

definition fabs :: "dbl \<Rightarrow> dbl" where
  "fabs d = (case d of Fin m e \<Rightarrow> Fin \<bar>m\<bar> e | Infinite neg \<Rightarrow> Infinite False | NaN \<Rightarrow> NaN)"

definition dbl_greater :: "dbl \<Rightarrow> dbl \<Rightarrow> bool" where
  "dbl_greater a b =
     (case (a, b) of
        (Fin m e, Fin n f) \<Rightarrow>
          (let k = min e f in m * 2 ^ nat (e - k) > n * 2 ^ nat (f - k))
      | (Infinite neg, Fin _ _) \<Rightarrow> \<not> neg
      | (Fin _ _, Infinite neg) \<Rightarrow> neg
      | (Infinite neg, Infinite neg') \<Rightarrow> \<not> neg \<and> neg'
      | _ \<Rightarrow> False)"

datatype xcall =
    Open_write string | Open_trunc string | Open_read string | Open_rdwr string
  | Write string | Futimens string | Fstat string
  | Time_null | Clock_gettime | Clock_settime int | Ntp_gettime | Adjtimex
  | V_secure_system string
  | Chronyctl_init | Chronyctl_cleanup | Chronyctl_get_offset
  | Chronyctl_get_system_time_offset | Chronyctl_makestep | Chronyctl_online
  | Chronyctl_burst int int | Chronyctl_has_selectable_source | Chronyctl_get_source_count
  | Chronyctl_waitsync int int
  | IARM_Bus_IsConnected string | IARM_Bus_Init string | IARM_Bus_Connect
  | IARM_Bus_RegisterCall string | IARM_Bus_RegisterEventHandler
  | IARM_Bus_BroadcastEvent string int TimerMsg
  | IARM_Bus_SetSecureTime int | IARM_Bus_GetSecureTime
  | MfrSetSecureTime "32 word" | MfrGetSecureTime
  | CallMethod string "(string \<times> string) list"
  | T2_event_d string int | T2_event_s string string | LogMilestone string
  | PowerController_Init | PowerController_Term | PowerController_Connect
  | PowerController_RegisterPowerModeChangedCallback
  | PowerController_UnRegisterPowerModeChangedCallback
  | Thunder_Subscribe string string | Thunder_Unsubscribe string
  | SetEnvironment string string
  | Dtt_Subscribe string
  | Thread_create string | Getpid | Inotify_init | Inotify_add_watch string | T2_init | T2_uninit

text \<open>
  The members of a JSON-RPC reply, by their path. \<open>None\<close> is the exception the accessor throws
  for a member of another type.
\<close>

record rpc_reply =
  as_string :: "string list \<Rightarrow> string option"
  as_bool :: "string list \<Rightarrow> bool option"

type_synonym hist = "(xcall \<times> int) list"

record env =
  ret_code :: "hist \<Rightarrow> xcall \<Rightarrow> int"
  out_int :: "hist \<Rightarrow> xcall \<Rightarrow> int"
  out_aux :: "hist \<Rightarrow> xcall \<Rightarrow> int"
  out_dbl :: "hist \<Rightarrow> xcall \<Rightarrow> dbl"
  rpc_result :: "hist \<Rightarrow> xcall \<Rightarrow> rpc_reply option"
  stack_bytes :: "hist \<Rightarrow> string"
  localtime_ok :: "int \<Rightarrow> bool"
  strftime_text :: "int \<Rightarrow> string"
  printf_f3 :: "dbl \<Rightarrow> string"
  mfr_param :: "int \<Rightarrow> int"
  mfrERR_NONE :: int
  IARM_BUS_PWRMGR_EVENT_MODECHANGED :: int
  T2_EVENT_ENABLED :: bool
  MILESTONE_SUPPORT_DISABLED :: bool
  IARM_SUPPORT_DISABLED :: bool
  ENABLE_IARM :: bool
  PWRMGRPLUGIN_ENABLED :: bool
  DTT_ENABLED :: bool
  TEE_ENABLED :: bool
  WPEVGDRM_ENABLED :: bool
  LOCAL_TEST :: bool
  LITTLE_ENDIAN :: bool

record inode =
  content :: string
  mtime :: int

record world =
  w_fs :: "string \<Rightarrow> inode option"
  w_hist :: hist
  w_touched :: "string list"

definition CHRONYCTL_SUCCESS :: int where
  "CHRONYCTL_SUCCESS = 0"

definition IARM_RESULT_SUCCESS :: int where
  "IARM_RESULT_SUCCESS = 0"

definition POWER_CONTROLLER_ERROR_NONE :: int where
  "POWER_CONTROLLER_ERROR_NONE = 0"

type_synonym ('w, 'a) io = "(fault, 'w world_scheme, 'a) prog"

text \<open>
  One external call: its results are read off the environment at the current history, and the
  call and its return code are appended to the history.
\<close>

definition call_with :: "env \<Rightarrow> (hist \<Rightarrow> 'r) \<Rightarrow> xcall \<Rightarrow> ('w, int \<times> 'r) io" where
  "call_with env out c = (\<lambda>s.
     let r = ret_code env (w_hist s) c
     in (Inr (r, out (w_hist s)), s\<lparr>w_hist := w_hist s @ [(c, r)]\<rparr>))"

definition call :: "env \<Rightarrow> xcall \<Rightarrow> ('w, int) io" where
  "call env c = bindM (call_with env (\<lambda>_. ()) c) (\<lambda>(r, _). ret r)"

definition call_int :: "env \<Rightarrow> xcall \<Rightarrow> ('w, int \<times> int) io" where
  "call_int env c = call_with env (\<lambda>h. out_int env h c) c"

definition call_dbl :: "env \<Rightarrow> xcall \<Rightarrow> ('w, int \<times> dbl) io" where
  "call_dbl env c = call_with env (\<lambda>h. out_dbl env h c) c"

text \<open>A call through a pointer.\<close>

definition deref :: "'o option \<Rightarrow> ('o \<Rightarrow> ('w, 'r) io) \<Rightarrow> ('w, 'r) io" where
  "deref p f = (case p of None \<Rightarrow> throwM NullPointer | Some x \<Rightarrow> f x)"

lemma keeps_deref [keeps_intros]: "(\<And>x. keeps p (f x)) \<Longrightarrow> keeps p (deref x f)"
  by (cases x) (simp_all add: deref_def keeps_throwM)

section \<open>Integers and clocks\<close>

definition checked_ll :: "int \<Rightarrow> ('w, int) io" where
  "checked_ll v = (if is_ll v then ret v else throwM SignedOverflow)"

text \<open>
  \<open>duration_cast<seconds>(seconds{s} + nanoseconds{n})\<close>: the sum is in nanoseconds, in 64 bits,
  and the cast truncates towards zero.
\<close>

definition trunc_div :: "int \<Rightarrow> int \<Rightarrow> int" where
  "trunc_div a b = sgn a * sgn b * (\<bar>a\<bar> div \<bar>b\<bar>)"

definition chrono_seconds :: "int \<Rightarrow> int \<Rightarrow> ('w, int) io" where
  "chrono_seconds s n =
     bindM (checked_ll (s * 1000000000)) (\<lambda>x.
     bindM (checked_ll (x + n)) (\<lambda>y.
     ret (trunc_div y 1000000000)))"

text \<open>\<open>clock_gettime(CLOCK_REALTIME, &ts)\<close>, with \<open>None\<close> for a failure.\<close>

definition clock_gettime :: "env \<Rightarrow> ('w, (int \<times> int) option) io" where
  "clock_gettime env =
     bindM (call_with env (\<lambda>h. (out_int env h Clock_gettime, out_aux env h Clock_gettime))
             Clock_gettime)
       (\<lambda>(r, ts). ret (if r = 0 then Some ts else None))"

definition time_null :: "env \<Rightarrow> ('w, int) io" where
  "time_null env = bindM (call_int env Time_null) (\<lambda>(_, t). ret t)"

text \<open>
  The idiom of \<open>publishStatus\<close>, \<open>getTimeStatus\<close> and \<open>RdkDefaultTimeSync::updateTime\<close>:
  \<open>time(NULL)\<close>, replaced by the real-time clock when that can be read.
\<close>

definition realtime_seconds :: "env \<Rightarrow> ('w, int) io" where
  "realtime_seconds env =
     bindM (time_null env) (\<lambda>t.
     bindM (clock_gettime env) (\<lambda>ts.
       case ts of None \<Rightarrow> ret t | Some (s, n) \<Rightarrow> chrono_seconds s n))"

text \<open>\<open>strftime(buf, size, fmt, localtime(&t))\<close>: only whether \<open>localtime\<close> returns null matters.\<close>

definition strftime_localtime :: "env \<Rightarrow> int \<Rightarrow> ('w, unit) io" where
  "strftime_localtime env t = (if localtime_ok env t then ret () else throwM NullPointer)"

definition t2ValNotify :: "env \<Rightarrow> string \<Rightarrow> string \<Rightarrow> ('w, unit) io" where
  "t2ValNotify env marker v =
     whenM (T2_EVENT_ENABLED env) (bindM (call env (T2_event_s marker v)) (\<lambda>_. ret ()))"

definition t2CountNotify :: "env \<Rightarrow> string \<Rightarrow> int \<Rightarrow> ('w, unit) io" where
  "t2CountNotify env marker v =
     whenM (T2_EVENT_ENABLED env) (bindM (call env (T2_event_d marker v)) (\<lambda>_. ret ()))"

section \<open>Files\<close>

definition put_file :: "string \<Rightarrow> string \<Rightarrow> int \<Rightarrow> 'w world_scheme \<Rightarrow> 'w world_scheme" where
  "put_file path c t s = s\<lparr>w_fs := (w_fs s)(path \<mapsto> \<lparr>content = c, mtime = t\<rparr>)\<rparr>"

text \<open>\<open>access(path, F_OK) == 0\<close>.\<close>

definition file_exists :: "'w world_scheme \<Rightarrow> string \<Rightarrow> bool" where
  "file_exists s path \<longleftrightarrow> w_fs s path \<noteq> None"

text \<open>Opening a file for input: \<open>None\<close> when it is missing or the open is refused.\<close>

definition open_read :: "env \<Rightarrow> string \<Rightarrow> ('w, string option) io" where
  "open_read env path =
     bindM (getM (\<lambda>s. w_fs s path)) (\<lambda>f.
     bindM (call env (Open_read path)) (\<lambda>r.
       ret (if 0 \<le> r then map_option content f else None)))"

text \<open>
  An output stream: opening creates or truncates the file, and the write of the whole text may
  still fail, which leaves the file empty. The modification time is the kernel's.
\<close>

definition write_stream :: "env \<Rightarrow> string \<Rightarrow> string \<Rightarrow> ('w, bool) io" where
  "write_stream env path text =
     bindM (call_int env (Open_trunc path)) (\<lambda>(r, t).
       if 0 \<le> r
       then bindM (modM (put_file path [] t)) (\<lambda>_.
            bindM (call_int env (Write path)) (\<lambda>(w, t').
            bindM (modM (if 0 \<le> w then put_file path text t' else (\<lambda>s. s))) (\<lambda>_.
            ret True)))
       else ret False)"

text \<open>An output stream that is opened and closed again leaves an empty file.\<close>

definition create_stream :: "env \<Rightarrow> string \<Rightarrow> ('w, bool) io" where
  "create_stream env path =
     bindM (call_int env (Open_trunc path)) (\<lambda>(r, t).
       if 0 \<le> r then bindM (modM (put_file path [] t)) (\<lambda>_. ret True) else ret False)"

text \<open>
  \<open>open(path, O_WRONLY | O_CREAT)\<close> and \<open>futimens\<close> on the descriptor: the file is created empty
  if it is missing, and setting its times makes the kernel report an attribute change.
\<close>

definition touch_file :: "env \<Rightarrow> string \<Rightarrow> ('w, bool) io" where
  "touch_file env path =
     bindM (call_int env (Open_write path)) (\<lambda>(r, t0).
       if 0 \<le> r
       then bindM (modM (\<lambda>s. if w_fs s path = None then put_file path [] t0 s else s)) (\<lambda>_.
            bindM (call_int env (Futimens path)) (\<lambda>(u, t).
            bindM (modM (\<lambda>s. if u = 0
                     then (put_file path (case w_fs s path of None \<Rightarrow> [] | Some f \<Rightarrow> content f) t s)
                            \<lparr>w_touched := w_touched s @ [path]\<rparr>
                     else s)) (\<lambda>_.
            ret True)))
       else ret False)"

section \<open>Lemmas on external calls\<close>

lemma call_with_run [prog_simps]:
  "call_with env out c s =
     (Inr (ret_code env (w_hist s) c, out (w_hist s)),
      s\<lparr>w_hist := w_hist s @ [(c, ret_code env (w_hist s) c)]\<rparr>)"
  by (simp add: call_with_def Let_def)

lemma call_run [prog_simps]:
  "call env c s =
     (Inr (ret_code env (w_hist s) c),
      s\<lparr>w_hist := w_hist s @ [(c, ret_code env (w_hist s) c)]\<rparr>)"
  by (simp add: call_def prog_simps)

text \<open>
  The calls by which the daemon acts on the device: setting the clock and broadcasting. Frame
  conditions are stated for parts of the state that other calls leave alone, so that they cover
  the record of these calls too.
\<close>

fun visible :: "xcall \<Rightarrow> bool" where
  "visible (IARM_Bus_BroadcastEvent _ _ _) = True"
| "visible (Clock_settime _) = True"
| "visible _ = False"

definition visible_calls :: "'w world_scheme \<Rightarrow> xcall list" where
  "visible_calls s = filter visible (map fst (w_hist s))"

lemma visible_calls_append [simp]:
  "visible_calls (s\<lparr>w_hist := w_hist s @ [(c, r)]\<rparr>) = visible_calls s @ (if visible c then [c] else [])"
  by (simp add: visible_calls_def)

lemma visible_calls_simps [simp]:
  "visible_calls (s\<lparr>w_fs := f\<rparr>) = visible_calls s"
  "visible_calls (s\<lparr>w_touched := t\<rparr>) = visible_calls s"
  by (simp_all add: visible_calls_def)

lemma keeps_call_with [keeps_intros]:
  "(\<And>s r. p (s\<lparr>w_hist := w_hist s @ [(c, r)]\<rparr>) = p s) \<Longrightarrow> keeps p (call_with env out c)"
  by (simp add: keeps_def call_with_run)

lemma keeps_call [keeps_intros]:
  "(\<And>s r. p (s\<lparr>w_hist := w_hist s @ [(c, r)]\<rparr>) = p s) \<Longrightarrow> keeps p (call env c)"
  by (simp add: keeps_def call_run)

lemma keeps_call_out [keeps_intros]:
  assumes "\<And>s r. p (s\<lparr>w_hist := w_hist s @ [(c, r)]\<rparr>) = p s"
  shows "keeps p (call_int env c)" "keeps p (call_dbl env c)"
  unfolding call_int_def call_dbl_def by (intro keeps_call_with assms)+

lemma keeps_checked_ll [keeps_intros]: "keeps p (checked_ll v)"
  by (simp add: checked_ll_def keeps_intros)

lemma keeps_clock [keeps_intros]:
  assumes "\<And>s c r. \<not> visible c \<Longrightarrow> p (s\<lparr>w_hist := w_hist s @ [(c, r)]\<rparr>) = p s"
  shows "keeps p (clock_gettime env)"
    "keeps p (time_null env)" "keeps p (chrono_seconds a b)" "keeps p (realtime_seconds env)"
    "keeps p (strftime_localtime env v)" "keeps p (t2ValNotify env m v')"
    "keeps p (t2CountNotify env m v)" "keeps p (open_read env path)"
  unfolding clock_gettime_def time_null_def chrono_seconds_def
    realtime_seconds_def strftime_localtime_def t2ValNotify_def t2CountNotify_def open_read_def
  by (intro keeps_intros assms | simp)+

lemma keeps_files [keeps_intros]:
  assumes "\<And>s c r. \<not> visible c \<Longrightarrow> p (s\<lparr>w_hist := w_hist s @ [(c, r)]\<rparr>) = p s"
    and "\<And>s f. p (s\<lparr>w_fs := f\<rparr>) = p s" and "\<And>s t. p (s\<lparr>w_touched := t\<rparr>) = p s"
  shows "keeps p (write_stream env path text)" "keeps p (touch_file env path)"
    "keeps p (create_stream env path)"
  unfolding write_stream_def touch_file_def create_stream_def put_file_def
  by (intro keeps_intros | simp add: assms split: option.splits)+

section \<open>An environment that behaves\<close>

text \<open>
  What the kernel and the C library document: clock readings and file times are times of this
  era (from 1970 to the year 2242, before the nanosecond count leaves 64 bits), nanoseconds are
  in range, and \<open>localtime\<close> succeeds for years that fit an \<open>int\<close>; the machine is little-endian.
\<close>

definition time_bound :: int where
  "time_bound = 8589934592"

definition valid_time :: "int \<Rightarrow> bool" where
  "valid_time t \<longleftrightarrow> 0 \<le> t \<and> t < time_bound"

fun time_call :: "xcall \<Rightarrow> bool" where
  "time_call Time_null = True"
| "time_call Clock_gettime = True"
| "time_call Ntp_gettime = True"
| "time_call (Open_write _) = True"
| "time_call (Open_trunc _) = True"
| "time_call (Write _) = True"
| "time_call (Futimens _) = True"
| "time_call IARM_Bus_GetSecureTime = True"
| "time_call _ = False"

definition sane_clock :: "env \<Rightarrow> bool" where
  "sane_clock env \<longleftrightarrow>
     (\<forall>h c. time_call c \<longrightarrow> valid_time (out_int env h c)) \<and>
     (\<forall>h. 0 \<le> out_aux env h Clock_gettime \<and> out_aux env h Clock_gettime < 1000000000) \<and>
     (\<forall>t. 0 \<le> t \<and> t < 2 ^ 40 \<longrightarrow> localtime_ok env t) \<and> LITTLE_ENDIAN env"

lemma sane_clock_time: "sane_clock env \<Longrightarrow> time_call c \<Longrightarrow> valid_time (out_int env h c)"
  by (simp add: sane_clock_def)

lemma valid_time_ll: "valid_time t \<Longrightarrow> is_ll t"
  by (simp add: valid_time_def time_bound_def is_ll_def LLONG_MIN_def LLONG_MAX_def)

lemma valid_time_0 [simp]: "valid_time 0"
  by (simp add: valid_time_def time_bound_def)

text \<open>The files of the world carry such times too, and every program here keeps it so.\<close>

definition w_ok :: "'w world_scheme \<Rightarrow> bool" where
  "w_ok s \<longleftrightarrow> (\<forall>path f. w_fs s path = Some f \<longrightarrow> valid_time (mtime f))"

lemma w_ok_hist [simp]: "w_ok (s\<lparr>w_hist := h\<rparr>) = w_ok s"
  by (simp add: w_ok_def)

lemma w_ok_touched [simp]: "w_ok (s\<lparr>w_touched := ts\<rparr>) = w_ok s"
  by (simp add: w_ok_def)

lemma w_ok_put_file [simp]: "w_ok s \<Longrightarrow> valid_time t \<Longrightarrow> w_ok (put_file path c t s)"
  by (simp add: w_ok_def put_file_def)

lemma write_stream_sane:
  "sane_clock env \<Longrightarrow> safe w_ok (write_stream env path text) (\<lambda>_. w_ok)"
  by (auto simp: safe_def write_stream_def call_int_def prog_simps sane_clock_time)

lemma create_stream_sane:
  "sane_clock env \<Longrightarrow> safe w_ok (create_stream env path) (\<lambda>_. w_ok)"
  by (auto simp: safe_def create_stream_def call_int_def prog_simps sane_clock_time)

text \<open>
  A stream that is opened and written replaces the file and nothing else.
\<close>

lemma write_stream_run:
  assumes "0 \<le> ret_code env (w_hist s) (Open_trunc path)"
    and "\<And>h. 0 \<le> ret_code env h (Write path)"
  shows "\<exists>h t. write_stream env path text s = (Inr True, put_file path text t (s\<lparr>w_hist := h\<rparr>))"
  using assms by (auto simp: write_stream_def call_int_def prog_simps put_file_def)

lemma touch_file_sane:
  "sane_clock env \<Longrightarrow> safe w_ok (touch_file env path) (\<lambda>_. w_ok)"
  by (auto simp: safe_def touch_file_def call_int_def prog_simps sane_clock_time)

lemma chrono_seconds_id:
  assumes "0 \<le> s" "s < time_bound" "0 \<le> n" "n < 1000000000"
  shows "chrono_seconds s n = ret s"
proof -
  have "is_ll (s * 1000000000)" "is_ll (s * 1000000000 + n)"
    using assms by (auto simp: is_ll_def LLONG_MIN_def LLONG_MAX_def time_bound_def)
  moreover have "(s * 1000000000 + n) div 1000000000 = s"
    using assms by (intro int_div_pos_eq) auto
  moreover have "sgn (s * 1000000000 + n) = 1 \<or> s = 0 \<and> n = 0"
    using assms by (auto simp: sgn_if)
  ultimately show ?thesis
    using assms by (auto simp: chrono_seconds_def checked_ll_def trunc_div_def)
qed

lemma chrono_seconds_sane:
  assumes "sane_clock env"
  shows "chrono_seconds (out_int env h Clock_gettime) (out_aux env h Clock_gettime)
           = ret (out_int env h Clock_gettime)"
proof -
  have "valid_time (out_int env h Clock_gettime)"
    using assms by (simp add: sane_clock_time)
  then show ?thesis
    using assms by (intro chrono_seconds_id) (auto simp: sane_clock_def valid_time_def)
qed

lemma realtime_seconds_sane:
  assumes "sane_clock env"
  shows "safe w_ok (realtime_seconds env) (\<lambda>t s. w_ok s \<and> valid_time t)"
  using assms
  by (auto simp: chrono_seconds_sane [OF assms] sane_clock_time safe_def realtime_seconds_def
      time_null_def clock_gettime_def call_int_def prog_simps)

text \<open>
  The time of day, as the environment has it after some calls: what the real-time clock reads, and
  \<open>time(NULL)\<close> if that clock cannot be read.
\<close>

definition wall_clock :: "env \<Rightarrow> hist \<Rightarrow> int" where
  "wall_clock env h =
     (let h1 = h @ [(Time_null, ret_code env h Time_null)] in
      if ret_code env h1 Clock_gettime = 0 then out_int env h1 Clock_gettime else out_int env h Time_null)"

lemma realtime_seconds_run:
  assumes "sane_clock env"
  shows "\<exists>h. realtime_seconds env s = (Inr (wall_clock env (w_hist s)), s\<lparr>w_hist := h\<rparr>) \<and>
    visible_calls (s\<lparr>w_hist := h\<rparr>) = visible_calls s"
  by (auto simp: wall_clock_def Let_def chrono_seconds_sane [OF assms] realtime_seconds_def
      time_null_def clock_gettime_def call_int_def prog_simps visible_calls_def)

lemma wall_clock_sane: "sane_clock env \<Longrightarrow> valid_time (wall_clock env h)"
  by (simp add: wall_clock_def Let_def sane_clock_time)

lemma strftime_localtime_sane:
  assumes "sane_clock env" "0 \<le> t" "t < 2 ^ 40"
  shows "strftime_localtime env t = ret ()"
  using assms by (simp add: strftime_localtime_def sane_clock_def)

lemma call_sane [safe_intros]: "safe w_ok (call env c) (\<lambda>_. w_ok)"
  by (simp add: safe_def call_run)

text \<open>An environment in which every call succeeds and the clock stands at some second.\<close>

definition calm_env :: "int \<Rightarrow> env" where
  "calm_env now = \<lparr>ret_code = (\<lambda>_ _. 0), out_int = (\<lambda>_ _. now), out_aux = (\<lambda>_ _. 0),
     out_dbl = (\<lambda>_ _. Fin 0 0), rpc_result = (\<lambda>_ _. None), stack_bytes = (\<lambda>_. []),
     localtime_ok = (\<lambda>t. \<bar>t\<bar> < 2 ^ 55), strftime_text = (\<lambda>_. []), printf_f3 = (\<lambda>_. ''0.000''),
     mfr_param = (\<lambda>t. t), mfrERR_NONE = 0, IARM_BUS_PWRMGR_EVENT_MODECHANGED = 0, T2_EVENT_ENABLED = False,
     MILESTONE_SUPPORT_DISABLED = False, IARM_SUPPORT_DISABLED = False, ENABLE_IARM = True,
     PWRMGRPLUGIN_ENABLED = False, DTT_ENABLED = False, TEE_ENABLED = False,
     WPEVGDRM_ENABLED = False, LOCAL_TEST = False, LITTLE_ENDIAN = True\<rparr>"

lemma calm_env_sane: "valid_time now \<Longrightarrow> sane_clock (calm_env now)"
  by (simp add: sane_clock_def calm_env_def)

text \<open>Opening and writing files succeeds.\<close>

definition files_work :: "env \<Rightarrow> bool" where
  "files_work env \<longleftrightarrow> (\<forall>h path. 0 \<le> ret_code env h (Open_read path) \<and>
     0 \<le> ret_code env h (Open_trunc path) \<and> 0 \<le> ret_code env h (Write path))"

lemma calm_env_files: "files_work (calm_env now)"
  by (simp add: files_work_def calm_env_def)

definition empty_world :: world where
  "empty_world = \<lparr>w_fs = (\<lambda>_. None), w_hist = [], w_touched = []\<rparr>"

end
