(* ===== verification/Time_Src.thy ===== *)
theory Time_Src
  imports World
begin

text \<open>
  The time sources: the interface \<open>ITimeSrc\<close> and its implementations \<open>NtpTimeSrc\<close>,
  \<open>SttTimeSrc\<close>, \<open>RegularTimeSrc\<close>, \<open>DrmTimeSrc\<close> and \<open>DttTimeSrc\<close>. A source is a value of a
  datatype with one constructor per class and the class's fields as arguments; the virtual
  functions are defined by cases on it. \<open>getTimeSec\<close> returns the time and the object, whose
  fields it may have changed.
\<close>

section \<open>The classes\<close>

datatype timeSrc =
    NtpTimeSrc
  | SttTimeSrc
  | RegularTimeSrc (m_path: string)
  | DrmTimeSrc (m_path: string)
  | DttTimeSrc (m_path: string) (m_pluginactivated: bool) (m_dtteventsubscribed: bool)

fun isreference :: "timeSrc \<Rightarrow> bool" where
  "isreference NtpTimeSrc = True"
| "isreference SttTimeSrc = True"
| "isreference (RegularTimeSrc _) = False"
| "isreference (DrmTimeSrc _) = False"
| "isreference (DttTimeSrc _ _ _) = False"

fun isclockProvider :: "timeSrc \<Rightarrow> bool" where
  "isclockProvider (DttTimeSrc _ _ _) = True"
| "isclockProvider _ = False"

definition notifypathAvailable :: "env \<Rightarrow> string \<Rightarrow> ('w, unit) io" where
  "notifypathAvailable env path = bindM (touch_file env path) (\<lambda>_. ret ())"

subsection \<open>JSON-RPC calls and their replies\<close>

definition callMethod :: "env \<Rightarrow> string \<Rightarrow> (string \<times> string) list \<Rightarrow> ('w, rpc_reply) io" where
  "callMethod env m ps =
     bindM (call_with env (\<lambda>h. rpc_result env h (CallMethod m ps)) (CallMethod m ps))
       (\<lambda>(_, r). case r of None \<Rightarrow> throwM JsonRpcException | Some v \<Rightarrow> ret v)"

definition asString :: "rpc_reply \<Rightarrow> string list \<Rightarrow> ('w, string) io" where
  "asString v p = (case as_string v p of None \<Rightarrow> throwM (Std_exception ''Json::LogicError'')
                   | Some s \<Rightarrow> ret s)"

definition asBool :: "rpc_reply \<Rightarrow> string list \<Rightarrow> ('w, bool) io" where
  "asBool v p = (case as_bool v p of None \<Rightarrow> throwM (Std_exception ''Json::LogicError'')
                 | Some b \<Rightarrow> ret b)"

definition stoll_io :: "string \<Rightarrow> ('w, int) io" where
  "stoll_io s = (case stoll s of
       Inl Invalid_argument \<Rightarrow> throwM (Std_exception ''invalid_argument'')
     | Inl Out_of_range \<Rightarrow> throwM (Std_exception ''out_of_range'')
     | Inr v \<Rightarrow> ret v)"

text \<open>A try block whose handler catches \<open>JsonRpcException\<close> only; \<open>None\<close> when it did.\<close>

definition tryRpc :: "('w, 'a) io \<Rightarrow> ('w, 'a option) io" where
  "tryRpc m = catchM (bindM m (\<lambda>x. ret (Some x)))
                (\<lambda>e. if e = JsonRpcException then ret None else throwM e)"

text \<open>What both remote sources do when no time is available, by build option.\<close>

definition no_time :: "env \<Rightarrow> string \<Rightarrow> ('w, int) io" where
  "no_time env path =
     (if LOCAL_TEST env
      then bindM (notifypathAvailable env path) (\<lambda>_. time_null env)
      else ret 0)"

subsection \<open>getTimeSec\<close>

definition ntp_getTimeSec :: "env \<Rightarrow> ('w, int) io" where
  "ntp_getTimeSec env = bindM (call_int env Ntp_gettime) (\<lambda>(_, tv_sec). ret tv_sec)"

definition stt_getTimeSec :: "env \<Rightarrow> ('w, int) io" where
  "stt_getTimeSec env = time_null env"

definition regular_getTimeSec :: "env \<Rightarrow> string \<Rightarrow> ('w, int) io" where
  "regular_getTimeSec env path =
     bindM (getM (\<lambda>s. w_fs s path)) (\<lambda>f.
     bindM (call env (Open_rdwr path)) (\<lambda>fd.
       case (if fd < 0 then None else f) of
         None \<Rightarrow> ret 0
       | Some st \<Rightarrow> bindM (call env (Fstat path)) (\<lambda>r. ret (if 0 \<le> r then mtime st else 0))))"

text \<open>
  \<open>DrmTimeSrc::getTimeSec\<close>: the use of the secure-time reply, the try block (\<open>None\<close> when it is left
  without a \<open>return\<close>), and the whole function.
\<close>

definition drm_secure_time :: "env \<Rightarrow> string \<Rightarrow> rpc_reply \<Rightarrow> ('w, int option) io" where
  "drm_secure_time env path result =
     bindM (asBool result [''success'']) (\<lambda>success.
       if success
       then bindM (notifypathAvailable env path) (\<lambda>_.
            bindM (asString result [''securetime'']) (\<lambda>t.
            bindM (stoll_io t) (\<lambda>v. ret (Some v))))
       else ret None)"

definition drm_query :: "env \<Rightarrow> string \<Rightarrow> ('w, int option) io" where
  "drm_query env path =
     bindM (callMethod env ''DRMActivationService.1.GetActivationStatus'' [(''id'', ''1'')]) (\<lambda>result.
     bindM (asString result [''activationstatus'']) (\<lambda>status.
       if status = ''Active''
       then bindM (callMethod env ''DRMActivationService.1.GetSecureTime'' [(''id'', ''2'')])
              (drm_secure_time env path)
       else ret None))"

definition drm_getTimeSec :: "env \<Rightarrow> string \<Rightarrow> ('w, int) io" where
  "drm_getTimeSec env path =
     bindM (tryRpc (drm_query env path)) (\<lambda>r.
       case r of Some (Some v) \<Rightarrow> ret v | _ \<Rightarrow> no_time env path)"

definition dtt_subscribe :: "env \<Rightarrow> ('w, bool) io" where
  "dtt_subscribe env =
     (if WPEVGDRM_ENABLED env
      then bindM (call env (SetEnvironment ''THUNDER_ACCESS'' ''127.0.0.1:9998'')) (\<lambda>_.
           bindM (call env (Dtt_Subscribe ''onBroadcastTimeAvailable'')) (\<lambda>r. ret (r = 0)))
      else ret True)"

definition dtt_unavailable :: "env \<Rightarrow> string \<Rightarrow> bool \<Rightarrow> bool \<Rightarrow> ('w, int \<times> timeSrc) io" where
  "dtt_unavailable env path activated subscribed =
     bindM (no_time env path) (\<lambda>v. ret (v, DttTimeSrc path activated subscribed))"

definition dtt_broadcast_time :: "env \<Rightarrow> string \<Rightarrow> bool \<Rightarrow> rpc_reply \<Rightarrow> ('w, int \<times> timeSrc) io" where
  "dtt_broadcast_time env path subscribed result =
     bindM (asBool result [''success'']) (\<lambda>success.
       if success
       then bindM (notifypathAvailable env path) (\<lambda>_.
            bindM (asString result [''info'', ''timeUtc'']) (\<lambda>t.
            bindM (stoll_io t) (\<lambda>v. ret (v, DttTimeSrc path True subscribed))))
       else dtt_unavailable env path True subscribed)"

definition dtt_query :: "env \<Rightarrow> string \<Rightarrow> bool \<Rightarrow> ('w, int \<times> timeSrc) io" where
  "dtt_query env path subscribed =
     bindM (if subscribed then ret True else dtt_subscribe env) (\<lambda>sub.
     bindM (tryRpc (callMethod env ''org.rdk.MediaSystem.1.getBroadcastTimeInfo''
              [(''id'', ''2'')])) (\<lambda>r.
       case r of None \<Rightarrow> dtt_unavailable env path True sub
       | Some result \<Rightarrow> dtt_broadcast_time env path sub result))"

definition dtt_activate :: "env \<Rightarrow> ('w, unit) io" where
  "dtt_activate env =
     bindM (callMethod env ''Controller.1.activate''
              [(''id'', ''1''), (''callsign'', ''org.rdk.MediaSystem'')]) (\<lambda>_. ret ())"

definition dtt_getTimeSec :: "env \<Rightarrow> string \<Rightarrow> bool \<Rightarrow> bool \<Rightarrow> ('w, int \<times> timeSrc) io" where
  "dtt_getTimeSec env path activated subscribed =
     bindM (if activated then ret (Some ()) else tryRpc (dtt_activate env)) (\<lambda>a.
       case a of None \<Rightarrow> dtt_unavailable env path activated subscribed
       | Some _ \<Rightarrow> dtt_query env path subscribed)"

fun getTimeSec :: "env \<Rightarrow> timeSrc \<Rightarrow> ('w, int \<times> timeSrc) io" where
  "getTimeSec env NtpTimeSrc = bindM (ntp_getTimeSec env) (\<lambda>v. ret (v, NtpTimeSrc))"
| "getTimeSec env SttTimeSrc = bindM (stt_getTimeSec env) (\<lambda>v. ret (v, SttTimeSrc))"
| "getTimeSec env (RegularTimeSrc path) =
     bindM (regular_getTimeSec env path) (\<lambda>v. ret (v, RegularTimeSrc path))"
| "getTimeSec env (DrmTimeSrc path) =
     bindM (drm_getTimeSec env path) (\<lambda>v. ret (v, DrmTimeSrc path))"
| "getTimeSec env (DttTimeSrc path a b) = dtt_getTimeSec env path a b"

definition checkTime :: "env \<Rightarrow> timeSrc \<Rightarrow> ('w, bool \<times> timeSrc) io" where
  "checkTime env src = bindM (getTimeSec env src) (\<lambda>(v, src'). ret (v = 0, src'))"

section \<open>Frame conditions\<close>

lemmas src_defs = notifypathAvailable_def callMethod_def asString_def asBool_def stoll_io_def
  tryRpc_def no_time_def ntp_getTimeSec_def stt_getTimeSec_def regular_getTimeSec_def
  drm_secure_time_def drm_query_def drm_getTimeSec_def dtt_subscribe_def dtt_unavailable_def
  dtt_broadcast_time_def dtt_query_def dtt_activate_def dtt_getTimeSec_def

lemma keeps_stoll_io [keeps_intros]: "keeps p (stoll_io s)"
  by (auto simp: stoll_io_def keeps_intros split: sum.splits stoll_error.splits)

text \<open>The file a source may touch, if any.\<close>

fun touches :: "timeSrc \<Rightarrow> string option" where
  "touches (DrmTimeSrc path) = Some path"
| "touches (DttTimeSrc path _ _) = Some path"
| "touches _ = None"

lemma keeps_getTimeSec_touch:
  assumes hist: "\<And>s c r. \<not> visible c \<Longrightarrow> p (s\<lparr>w_hist := w_hist s @ [(c, r)]\<rparr>) = p s"
    and touch: "\<And>path. touches src = Some path \<Longrightarrow> keeps p (touch_file env path)"
  shows "keeps p (getTimeSec env src)"
proof -
  have rpc: "keeps p (callMethod env m ps)" "keeps p (asString r q)" "keeps p (asBool r q)"
    "keeps p (dtt_subscribe env)" for m ps r q
    unfolding callMethod_def asString_def asBool_def dtt_subscribe_def
    by (intro keeps_intros hist | simp)+
  have own: "keeps p (notifypathAvailable env path)" "keeps p (no_time env path)"
    if "touches src = Some path" for path
    unfolding notifypathAvailable_def no_time_def
    by (intro keeps_intros hist touch that | simp)+
  have drm: "keeps p (drm_getTimeSec env path)" if "touches src = Some path" for path
    unfolding drm_getTimeSec_def drm_query_def drm_secure_time_def tryRpc_def
    by (intro keeps_intros rpc own that | simp)+
  have dtt: "keeps p (dtt_getTimeSec env path a b)" if "touches src = Some path" for path a b
    unfolding dtt_getTimeSec_def dtt_query_def dtt_activate_def dtt_broadcast_time_def
      dtt_unavailable_def tryRpc_def
    by (intro keeps_intros rpc own hist that | simp)+
  show ?thesis
    by (cases src)
      (auto simp: ntp_getTimeSec_def stt_getTimeSec_def regular_getTimeSec_def
        intro!: keeps_intros drm dtt hist)
qed

lemma keeps_getTimeSec [keeps_intros]:
  assumes "\<And>s c r. \<not> visible c \<Longrightarrow> p (s\<lparr>w_hist := w_hist s @ [(c, r)]\<rparr>) = p s" and "\<And>s f. p (s\<lparr>w_fs := f\<rparr>) = p s"
    and "\<And>s t. p (s\<lparr>w_touched := t\<rparr>) = p s"
  shows "keeps p (getTimeSec env src)" "keeps p (checkTime env src)"
proof -
  show "keeps p (getTimeSec env src)"
    by (intro keeps_getTimeSec_touch keeps_files assms)
  then show "keeps p (checkTime env src)"
    unfolding checkTime_def by (intro keeps_intros)
qed

section \<open>Services that answer as documented\<close>

text \<open>
  A reply of the DRM service or of the media service has the members its interface documents,
  and a time is a decimal count of seconds. A call may still fail with a JSON-RPC exception.
\<close>

definition sane_rpc :: "env \<Rightarrow> bool" where
  "sane_rpc env \<longleftrightarrow>
     (\<forall>h ps r. rpc_result env h (CallMethod ''DRMActivationService.1.GetActivationStatus'' ps) = Some r
        \<longrightarrow> (\<exists>st. as_string r [''activationstatus''] = Some st)) \<and>
     (\<forall>h ps r. rpc_result env h (CallMethod ''DRMActivationService.1.GetSecureTime'' ps) = Some r
        \<longrightarrow> (\<exists>b. as_bool r [''success''] = Some b \<and>
              (b \<longrightarrow> (\<exists>v. valid_time v \<and> as_string r [''securetime''] = Some (show_int v))))) \<and>
     (\<forall>h ps r. rpc_result env h (CallMethod ''org.rdk.MediaSystem.1.getBroadcastTimeInfo'' ps) = Some r
        \<longrightarrow> (\<exists>b. as_bool r [''success''] = Some b \<and>
              (b \<longrightarrow> (\<exists>v. valid_time v \<and> as_string r [''info'', ''timeUtc''] = Some (show_int v)))))"

text \<open>\<open>rpc_safe I m Q\<close>: \<open>m\<close> returns with \<open>Q\<close>, or throws \<open>JsonRpcException\<close>, and keeps \<open>I\<close> either way.\<close>

definition rpc_safe :: "('w world_scheme \<Rightarrow> bool) \<Rightarrow> ('w, 'a) io \<Rightarrow> ('a \<Rightarrow> bool) \<Rightarrow> bool" where
  "rpc_safe I m Q \<longleftrightarrow> (\<forall>s. I s \<longrightarrow> I (snd (m s)) \<and>
     (case fst (m s) of Inr x \<Rightarrow> Q x | Inl e \<Rightarrow> e = JsonRpcException))"

lemma rpc_safe_bindM:
  assumes "rpc_safe I m R" and "\<And>x. R x \<Longrightarrow> rpc_safe I (f x) Q"
  shows "rpc_safe I (bindM m f) Q"
  unfolding rpc_safe_def
proof (intro allI impI)
  fix s assume "I s"
  obtain r t where m: "m s = (r, t)" by (cases "m s")
  with assms(1) \<open>I s\<close> have t: "I t" "case r of Inr x \<Rightarrow> R x | Inl e \<Rightarrow> e = JsonRpcException"
    unfolding rpc_safe_def by (metis fst_conv snd_conv)+
  show "I (snd (bindM m f s)) \<and>
     (case fst (bindM m f s) of Inr x \<Rightarrow> Q x | Inl e \<Rightarrow> e = JsonRpcException)"
    using m t assms(2) unfolding rpc_safe_def by (cases r) (simp_all add: bindM_run)
qed

lemma rpc_safe_ret: "Q x \<Longrightarrow> rpc_safe I (ret x) Q"
  by (simp add: rpc_safe_def ret_run)

lemma rpc_safe_safe: "safe I m (\<lambda>x s. I s \<and> Q x) \<Longrightarrow> rpc_safe I m Q"
  unfolding rpc_safe_def safe_def by (metis fst_conv snd_conv sum.simps(6))

lemma safe_tryRpc:
  assumes "rpc_safe I m Q"
  shows "safe I (tryRpc m) (\<lambda>r s. I s \<and> (\<forall>x. r = Some x \<longrightarrow> Q x))"
proof (rule safeI)
  fix s assume "I s"
  obtain r t where m: "m s = (r, t)" by (cases "m s")
  with assms \<open>I s\<close> have t: "I t" "case r of Inr x \<Rightarrow> Q x | Inl e \<Rightarrow> e = JsonRpcException"
    unfolding rpc_safe_def by (metis fst_conv snd_conv)+
  then show "\<exists>x t. tryRpc m s = (Inr x, t) \<and> I t \<and> (\<forall>y. x = Some y \<longrightarrow> Q y)"
    using m by (cases r) (simp_all add: tryRpc_def prog_simps)
qed

lemma rpc_safe_callMethod:
  "(\<And>h r. rpc_result env h (CallMethod m ps) = Some r \<Longrightarrow> Q r) \<Longrightarrow>
   rpc_safe w_ok (callMethod env m ps) Q"
  by (auto simp: rpc_safe_def callMethod_def prog_simps split: option.splits)

lemma notify_sane: "sane_clock env \<Longrightarrow> safe w_ok (notifypathAvailable env path) (\<lambda>_. w_ok)"
  unfolding notifypathAvailable_def
  by (rule safe_bindM [OF touch_file_sane]) (simp_all add: safe_ret)

lemma time_null_sane:
  "sane_clock env \<Longrightarrow> safe w_ok (time_null env) (\<lambda>v s. w_ok s \<and> valid_time v)"
  by (auto simp: safe_def time_null_def call_int_def prog_simps sane_clock_time)

lemma no_time_sane:
  assumes "sane_clock env"
  shows "safe w_ok (no_time env path) (\<lambda>v s. w_ok s \<and> valid_time v)"
  unfolding no_time_def
  by (auto simp: assms intro: safe_bindM [OF notify_sane time_null_sane] safe_ret)

lemma stoll_io_sane: "valid_time v \<Longrightarrow> stoll_io (show_int v) = ret v"
  by (simp add: stoll_io_def stoll_show_int valid_time_ll)

lemma rpc_safe_notify: "sane_clock env \<Longrightarrow> rpc_safe w_ok (notifypathAvailable env path) (\<lambda>_. True)"
  by (rule rpc_safe_safe) (simp add: notify_sane)

abbreviation valid_opt :: "int option \<Rightarrow> bool" where
  "valid_opt r \<equiv> \<forall>v. r = Some v \<longrightarrow> valid_time v"

lemma drm_secure_time_sane:
  assumes "sane_clock env" "sane_rpc env"
    and "rpc_result env h (CallMethod ''DRMActivationService.1.GetSecureTime'' ps) = Some r"
  shows "rpc_safe w_ok (drm_secure_time env path r) valid_opt"
proof -
  from assms(2,3) obtain b where "as_bool r [''success''] = Some b"
    and "b \<Longrightarrow> \<exists>v. valid_time v \<and> as_string r [''securetime''] = Some (show_int v)"
    unfolding sane_rpc_def by blast
  then show ?thesis
    by (auto simp: drm_secure_time_def asBool_def asString_def stoll_io_sane
        intro!: rpc_safe_ret rpc_safe_bindM [OF rpc_safe_notify] assms)
qed

lemma drm_query_sane:
  assumes "sane_clock env" "sane_rpc env"
  shows "rpc_safe w_ok (drm_query env path) valid_opt"
proof -
  let ?secure = "callMethod env ''DRMActivationService.1.GetSecureTime'' [(''id'', ''2'')]"
  have secure: "rpc_safe w_ok (bindM ?secure (drm_secure_time env path)) valid_opt"
    by (rule rpc_safe_bindM [OF rpc_safe_callMethod [where Q = "\<lambda>r. \<exists>h. rpc_result env h
          (CallMethod ''DRMActivationService.1.GetSecureTime'' [(''id'', ''2'')]) = Some r"]])
      (auto intro: drm_secure_time_sane assms)
  have status: "rpc_safe w_ok (callMethod env ''DRMActivationService.1.GetActivationStatus''
      [(''id'', ''1'')]) (\<lambda>r. \<exists>st. as_string r [''activationstatus''] = Some st)"
    using assms(2) unfolding sane_rpc_def by (intro rpc_safe_callMethod) blast
  show ?thesis
    unfolding drm_query_def
    by (rule rpc_safe_bindM [OF status]) (auto simp: asString_def intro: rpc_safe_ret secure)
qed

lemma drm_sane:
  assumes "sane_clock env" "sane_rpc env"
  shows "safe w_ok (drm_getTimeSec env path) (\<lambda>v s. w_ok s \<and> valid_time v)"
  unfolding drm_getTimeSec_def
proof (rule safe_bindM [OF safe_tryRpc [OF drm_query_sane [OF assms]]])
  fix r :: "int option option"
  show "safe (\<lambda>s. w_ok s \<and> (\<forall>x. r = Some x \<longrightarrow> valid_opt x))
          (case r of Some (Some v) \<Rightarrow> ret v | _ \<Rightarrow> no_time env path)
          (\<lambda>v s. w_ok s \<and> valid_time v)"
    by (auto split: option.split intro: safe_ret safe_strengthen [OF no_time_sane [OF assms(1)]])
qed

text \<open>What never changes of an object: its class and its path.\<close>

fun same_class :: "timeSrc \<Rightarrow> timeSrc \<Rightarrow> bool" where
  "same_class NtpTimeSrc NtpTimeSrc = True"
| "same_class SttTimeSrc SttTimeSrc = True"
| "same_class (RegularTimeSrc p) (RegularTimeSrc p') \<longleftrightarrow> p = p'"
| "same_class (DrmTimeSrc p) (DrmTimeSrc p') \<longleftrightarrow> p = p'"
| "same_class (DttTimeSrc p _ _) (DttTimeSrc p' _ _) \<longleftrightarrow> p = p'"
| "same_class _ _ = False"

abbreviation dtt_post :: "string \<Rightarrow> int \<times> timeSrc \<Rightarrow> 'w world_scheme \<Rightarrow> bool" where
  "dtt_post path \<equiv> \<lambda>(v, src) s. w_ok s \<and> valid_time v \<and> same_class (DttTimeSrc path False False) src"

lemma dtt_unavailable_sane:
  assumes "sane_clock env"
  shows "safe w_ok (dtt_unavailable env path a b) (dtt_post path)"
  unfolding dtt_unavailable_def
  by (rule safe_bindM [OF no_time_sane [OF assms]]) (auto intro: safe_ret)

lemma dtt_broadcast_time_sane:
  assumes "sane_clock env" "sane_rpc env"
    and "rpc_result env h (CallMethod ''org.rdk.MediaSystem.1.getBroadcastTimeInfo'' ps) = Some r"
  shows "safe w_ok (dtt_broadcast_time env path b r) (dtt_post path)"
proof -
  from assms(2,3) obtain ok where "as_bool r [''success''] = Some ok"
    and "ok \<Longrightarrow> \<exists>v. valid_time v \<and> as_string r [''info'', ''timeUtc''] = Some (show_int v)"
    unfolding sane_rpc_def by blast
  then show ?thesis
    by (cases ok) (auto simp: dtt_broadcast_time_def asBool_def asString_def stoll_io_sane
        intro!: safe_bindM [OF notify_sane] safe_ret dtt_unavailable_sane assms)
qed

lemma dtt_query_sane:
  assumes "sane_clock env" "sane_rpc env"
  shows "safe w_ok (dtt_query env path b) (dtt_post path)"
proof -
  let ?m = "''org.rdk.MediaSystem.1.getBroadcastTimeInfo''"
  have info: "safe w_ok (tryRpc (callMethod env ?m [(''id'', ''2'')]))
      (\<lambda>r s. w_ok s \<and> (\<forall>x. r = Some x \<longrightarrow>
         (\<exists>h. rpc_result env h (CallMethod ?m [(''id'', ''2'')]) = Some x)))"
    by (intro safe_tryRpc rpc_safe_callMethod) blast
  have sub: "safe w_ok (if b then ret True else dtt_subscribe env) (\<lambda>_. w_ok)"
    by (auto simp: safe_def dtt_subscribe_def prog_simps)
  have reply: "safe (\<lambda>s. w_ok s \<and> (\<forall>x. r = Some x \<longrightarrow>
         (\<exists>h. rpc_result env h (CallMethod ?m [(''id'', ''2'')]) = Some x)))
      (case r of None \<Rightarrow> dtt_unavailable env path True sub
       | Some result \<Rightarrow> dtt_broadcast_time env path sub result) (dtt_post path)" for r sub
  proof (cases r)
    case None
    then show ?thesis
      by (auto intro: safe_strengthen [OF dtt_unavailable_sane] assms)
  next
    case (Some result)
    show ?thesis
    proof (rule safeI)
      fix s assume "w_ok s \<and> (\<forall>x. r = Some x \<longrightarrow>
        (\<exists>h. rpc_result env h (CallMethod ?m [(''id'', ''2'')]) = Some x))"
      with Some obtain h where s: "w_ok s"
        and h: "rpc_result env h (CallMethod ?m [(''id'', ''2'')]) = Some result" by blast
      show "\<exists>x t. (case r of None \<Rightarrow> dtt_unavailable env path True sub
          | Some result \<Rightarrow> dtt_broadcast_time env path sub result) s = (Inr x, t) \<and> dtt_post path x t"
        unfolding Some option.case by (rule safeD [OF dtt_broadcast_time_sane [OF assms h] s])
    qed
  qed
  show ?thesis
    unfolding dtt_query_def
    by (rule safe_bindM [OF sub]) (rule safe_bindM [OF info reply])
qed

lemma dtt_sane:
  assumes "sane_clock env" "sane_rpc env"
  shows "safe w_ok (dtt_getTimeSec env path a b) (dtt_post path)"
proof -
  have "rpc_safe w_ok (dtt_activate env) (\<lambda>_. True)"
    unfolding dtt_activate_def
    by (rule rpc_safe_bindM [OF rpc_safe_callMethod [where Q = "\<lambda>_. True"]])
      (simp_all add: rpc_safe_ret)
  then have act: "safe w_ok (if a then ret (Some ()) else tryRpc (dtt_activate env)) (\<lambda>_. w_ok)"
    by (auto intro: safe_ret safe_weaken [OF safe_tryRpc])
  show ?thesis
    unfolding dtt_getTimeSec_def
    by (rule safe_bindM [OF act])
      (auto split: option.split intro: dtt_unavailable_sane dtt_query_sane assms)
qed

text \<open>
  Every source returns, without a fault, a time of this era (zero for none), whatever the other
  parts of the world do.
\<close>

lemma getTimeSec_sane:
  assumes "sane_clock env" "sane_rpc env"
  shows "safe w_ok (getTimeSec env src)
           (\<lambda>(v, src') s. w_ok s \<and> valid_time v \<and> same_class src src')"
proof (cases src)
  case NtpTimeSrc
  then show ?thesis
    using assms by (auto simp: safe_def ntp_getTimeSec_def call_int_def prog_simps
        sane_clock_time)
next
  case SttTimeSrc
  then show ?thesis
    by (auto simp: stt_getTimeSec_def
        intro!: safe_bindM [OF time_null_sane [OF assms(1)]] safe_ret)
next
  case (RegularTimeSrc path)
  then show ?thesis
    by (auto simp: safe_def regular_getTimeSec_def prog_simps w_ok_def
        split: option.splits)
next
  case (DrmTimeSrc path)
  then show ?thesis
    by (auto intro!: safe_bindM [OF drm_sane [OF assms]] safe_ret)
next
  case (DttTimeSrc path a b)
  have "same_class (DttTimeSrc path a b) src' = same_class (DttTimeSrc path False False) src'" for src'
    by (cases src') simp_all
  with dtt_sane [OF assms, of path a b] DttTimeSrc show ?thesis by simp
qed

section \<open>Properties\<close>

text \<open>Two environments: no service answers, and only the DRM service answers.\<close>

lemma calm_env_rpc: "sane_rpc (calm_env now)"
  by (simp add: sane_rpc_def calm_env_def)

definition drm_env :: "int \<Rightarrow> string \<Rightarrow> env" where
  "drm_env now t = (calm_env now)\<lparr>rpc_result := (\<lambda>_ c. case c of
       CallMethod m _ \<Rightarrow>
         if m = ''DRMActivationService.1.GetActivationStatus''
         then Some \<lparr>as_string = (\<lambda>_. Some ''Active''), as_bool = (\<lambda>_. None)\<rparr>
         else if m = ''DRMActivationService.1.GetSecureTime''
         then Some \<lparr>as_string = (\<lambda>_. Some t), as_bool = (\<lambda>_. Some True)\<rparr>
         else None
     | _ \<Rightarrow> None)\<rparr>"

lemma drm_env_sane:
  assumes "valid_time now" "valid_time v"
  shows "sane_clock (drm_env now (show_int v))" "sane_rpc (drm_env now (show_int v))"
    "files_work (drm_env now t)"
proof -
  show "sane_clock (drm_env now (show_int v))"
    using calm_env_sane [OF assms(1)] by (simp add: drm_env_def sane_clock_def)
  show "sane_rpc (drm_env now (show_int v))"
    using assms(2) by (auto simp: drm_env_def sane_rpc_def)
  show "files_work (drm_env now t)"
    using calm_env_files [of now] by (simp add: drm_env_def files_work_def)
qed

text \<open>
  C25: Every source answers: with a sane clock and services that reply as documented (or fail with
  a JSON-RPC exception), \<open>getTimeSec\<close> returns a time of this era, or zero for none, without a
  fault, and the object stays of its class and keeps its path.
\<close>

theorem getTimeSec_total:
  fixes s :: "'w world_scheme"
  assumes "sane_clock env" "sane_rpc env" "w_ok s"
  shows "\<exists>v src' s'. getTimeSec env src s = (Inr (v, src'), s') \<and> valid_time v \<and> w_ok s' \<and> same_class src src'"
  using safeD [OF getTimeSec_sane [OF assms(1,2)] assms(3), of src] by auto

theorem getTimeSec_total_witness:
  "\<exists>v src' s'. getTimeSec (calm_env 1700000000) (DttTimeSrc ''/tmp/systimemgr/dtt'' False False)
      empty_world = (Inr (v, src'), s') \<and> valid_time v \<and> w_ok s' \<and>
    same_class (DttTimeSrc ''/tmp/systimemgr/dtt'' False False) src'"
  by (rule getTimeSec_total)
    (simp_all add: calm_env_sane calm_env_rpc valid_time_def time_bound_def w_ok_def empty_world_def)

text \<open>
  C31: A source disturbs nothing: no file but its own notification file changes or is touched, in
  every environment, faults included; a source without a notification file touches none.
\<close>

theorem getTimeSec_own_file:
  fixes s :: "'w world_scheme"
  assumes "touches src \<noteq> Some q"
  shows "w_fs (snd (getTimeSec env src s)) q = w_fs s q \<and>
    count_list (w_touched (snd (getTimeSec env src s))) q = count_list (w_touched s) q"
proof -
  have t: "keeps (\<lambda>s. (w_fs s q, count_list (w_touched s) q)) (touch_file env path)"
    if "touches src = Some path" for path
    using assms that unfolding keeps_def
    by (auto simp: touch_file_def call_int_def prog_simps put_file_def)
  have "keeps (\<lambda>s :: 'w world_scheme. (w_fs s q, count_list (w_touched s) q)) (getTimeSec env src)"
    by (rule keeps_getTimeSec_touch) (simp_all add: t)
  then show ?thesis by (simp add: keeps_def)
qed

theorem getTimeSec_own_file_witness:
  "w_fs (snd (getTimeSec (calm_env 4) (DrmTimeSrc ''/tmp/systimemgr/drm'') empty_world)) ''/tmp/systimemgr/ntp''
      = w_fs empty_world ''/tmp/systimemgr/ntp'' \<and>
    count_list (w_touched (snd (getTimeSec (calm_env 4) (DrmTimeSrc ''/tmp/systimemgr/drm'') empty_world)))
      ''/tmp/systimemgr/ntp'' = count_list (w_touched empty_world) ''/tmp/systimemgr/ntp''"
  by (rule getTimeSec_own_file) simp

text \<open>
  C32: A secure-time notification is genuine: outside the local-test build, the DRM source touches
  its file or returns a non-zero time only when the service said that the device is active and
  then delivered a secure time successfully.
\<close>

abbreviation drm_status_call :: xcall where
  "drm_status_call \<equiv> CallMethod ''DRMActivationService.1.GetActivationStatus'' [(''id'', ''1'')]"

abbreviation drm_time_call :: xcall where
  "drm_time_call \<equiv> CallMethod ''DRMActivationService.1.GetSecureTime'' [(''id'', ''2'')]"

theorem drm_notification_genuine:
  fixes s :: "'w world_scheme"
  assumes "\<not> LOCAL_TEST env" "getTimeSec env (DrmTimeSrc path) s = (r, s')"
    and "w_touched s' \<noteq> w_touched s \<or> (\<exists>v src. r = Inr (v, src) \<and> v \<noteq> 0)"
  shows "\<exists>st h tm. rpc_result env (w_hist s) drm_status_call = Some st \<and>
    as_string st [''activationstatus''] = Some ''Active'' \<and>
    rpc_result env h drm_time_call = Some tm \<and> as_bool tm [''success''] = Some True"
  using assms
  by (auto simp: drm_getTimeSec_def tryRpc_def drm_query_def drm_secure_time_def callMethod_def
      asString_def asBool_def no_time_def prog_simps split: option.splits if_splits)

theorem drm_notification_genuine_witness:
  "\<exists>st h tm. rpc_result (drm_env 5 ''1700000000'') (w_hist empty_world) drm_status_call = Some st \<and>
    as_string st [''activationstatus''] = Some ''Active'' \<and>
    rpc_result (drm_env 5 ''1700000000'') h drm_time_call = Some tm \<and>
    as_bool tm [''success''] = Some True"
  by (rule drm_notification_genuine [where path = "''/tmp/systimemgr/drm''" and s = empty_world,
        OF _ prod.collapse [symmetric]])
    (simp_all add: drm_env_def calm_env_def empty_world_def drm_getTimeSec_def tryRpc_def drm_query_def
      drm_secure_time_def callMethod_def asString_def asBool_def stoll_io_def notifypathAvailable_def
      touch_file_def call_int_def put_file_def prog_simps split: sum.split stoll_error.split)

text \<open>
  A malformed secure time is not survived: when the service reports success with a text that
  is no number, the file has been touched already and an exception that no handler of the source
  catches leaves \<open>getTimeSec\<close>.
\<close>

theorem drm_malformed_time:
  fixes s :: "'w world_scheme"
  assumes "rpc_result env (w_hist s) drm_status_call = Some st"
    and "as_string st [''activationstatus''] = Some ''Active''"
    and "\<And>h. rpc_result env h drm_time_call = Some tm"
    and "as_bool tm [''success''] = Some True" "as_string tm [''securetime''] = Some t"
    and "stoll t = Inl Invalid_argument"
    and "\<And>h. 0 \<le> ret_code env h (Open_write path)" "\<And>h. ret_code env h (Futimens path) = 0"
  shows "\<exists>s'. getTimeSec env (DrmTimeSrc path) s = (Inl (Std_exception ''invalid_argument''), s') \<and>
    w_touched s' = w_touched s @ [path]"
  using assms
  by (auto simp: drm_getTimeSec_def tryRpc_def drm_query_def drm_secure_time_def callMethod_def
      asString_def asBool_def stoll_io_def notifypathAvailable_def touch_file_def call_int_def
      put_file_def prog_simps split: option.splits if_splits)

theorem drm_malformed_time_witness:
  "\<exists>s'. getTimeSec (drm_env 5 ''soon'') (DrmTimeSrc ''/tmp/systimemgr/drm'') empty_world =
      (Inl (Std_exception ''invalid_argument''), s') \<and>
    w_touched s' = w_touched empty_world @ [''/tmp/systimemgr/drm'']"
proof (rule drm_malformed_time [where st = "\<lparr>as_string = (\<lambda>_. Some ''Active''), as_bool = (\<lambda>_. None)\<rparr>"
      and tm = "\<lparr>as_string = (\<lambda>_. Some ''soon''), as_bool = (\<lambda>_. Some True)\<rparr>" and t = "''soon''"])
  show "stoll ''soon'' = Inl Invalid_argument" by code_simp
qed (simp_all add: drm_env_def calm_env_def)

end
