(* ===== verification/Time_Sync.thy ===== *)
theory Time_Sync
  imports World
begin

text \<open>
  The stores the last known time is saved in: the interface \<open>ITimeSync\<close> and its
  implementations \<open>RdkDefaultTimeSync\<close> (a text file, with the build time of the image as the
  lower limit), \<open>TestTimeSync\<close> (a text file) and \<open>TeeTimeSync\<close> (the secure time of the
  manufacturer library). The operations return the object, whose field they may have changed.
\<close>

section \<open>The version file\<close>

text \<open>
  \<open>RdkDefaultTimeSync::tokenize\<close>: the text is cut into keys and values; a key runs up to the
  next separator, the value from the next byte that is no separator to the end of the line.
  The loop stops when no separator or no value is left; \<open>key_pos\<close> grows in every iteration.
\<close>

function tokenize_from ::
    "string \<Rightarrow> string \<Rightarrow> nat \<Rightarrow> (string, string) smap \<Rightarrow> (string, string) smap" where
  "tokenize_from s token key_pos m =
     (case str_find s token key_pos of
        None \<Rightarrow> m
      | Some key_end \<Rightarrow>
          (case find_first_not_of s token key_end of
             None \<Rightarrow> m
           | Some val_pos \<Rightarrow>
               (case find_char s newline val_pos of
                  None \<Rightarrow>
                    smap_insert (substr s key_pos (key_end - key_pos)) (drop val_pos s) m
                | Some val_end \<Rightarrow>
                    tokenize_from s token (Suc val_end)
                      (smap_insert (substr s key_pos (key_end - key_pos))
                         (substr s val_pos (val_end - val_pos)) m))))"
  by pat_completeness auto
termination
proof (relation "measure (\<lambda>(s, token, key_pos, m). Suc (length s) - key_pos)")
  fix s token :: string and key_pos key_end val_pos val_end :: nat
    and m :: "(string, string) smap"
  assume "str_find s token key_pos = Some key_end"
    "find_first_not_of s token key_end = Some val_pos" "find_char s newline val_pos = Some val_end"
  then have "key_pos \<le> val_end" "val_end < length s"
    by (auto dest!: str_find_bounds find_first_not_of_bounds find_char_bounds)
  then show "((s, token, Suc val_end, smap_insert (substr s key_pos (key_end - key_pos))
      (substr s val_pos (val_end - val_pos)) m), s, token, key_pos, m)
      \<in> measure (\<lambda>(s, token, key_pos, m). Suc (length s) - key_pos)"
    by simp
qed simp

declare tokenize_from.simps [simp del]

definition tokenize :: "string \<Rightarrow> string \<Rightarrow> (string, string) smap" where
  "tokenize s token = tokenize_from s (c_string token) 0 []"

definition buildtime :: "env \<Rightarrow> ('w, int) io" where
  "buildtime env =
     bindM (open_read env ''/version.txt'') (\<lambda>f.
       case f of
         None \<Rightarrow> ret 0
       | Some str \<Rightarrow>
           (let timestr = filter (\<lambda>c. c \<noteq> CHR 0x22) (smap_index [] (tokenize str ''='') ''BUILD_TIME'')
            in ret (case strptime (c_string timestr) of None \<Rightarrow> 0 | Some tm \<Rightarrow> timegm tm)))"

section \<open>The classes\<close>

datatype timeSync =
    TestTimeSync (ts_path: string)
  | RdkDefaultTimeSync (ts_path: string) (m_currentTime: int)
  | TeeTimeSync

subsection \<open>RdkDefaultTimeSync\<close>

definition rdk_getTime :: "env \<Rightarrow> string \<Rightarrow> ('w, int \<times> timeSync) io" where
  "rdk_getTime env path =
     bindM (open_read env path) (\<lambda>f.
     let clock_time = (case f of None \<Rightarrow> 0 | Some text \<Rightarrow> istream_ll text) in
     bindM (buildtime env) (\<lambda>ver_time.
       if ver_time < clock_time
       then bindM (strftime_localtime env clock_time) (\<lambda>_.
            bindM (t2ValNotify env ''SYST_INFO_SYSLKG_split'' (strftime_text env clock_time)) (\<lambda>_.
            ret (clock_time, RdkDefaultTimeSync path clock_time)))
       else bindM (strftime_localtime env ver_time) (\<lambda>_.
            bindM (t2CountNotify env ''SYST_INFO_SYSBUILD'' 1) (\<lambda>_.
            ret (ver_time, RdkDefaultTimeSync path ver_time)))))"

definition rdk_updateTime :: "env \<Rightarrow> string \<Rightarrow> int \<Rightarrow> int \<Rightarrow> ('w, timeSync) io" where
  "rdk_updateTime env path currentTime locTime =
     bindM (strftime_localtime env locTime) (\<lambda>_.
     bindM (if locTime = 0 then realtime_seconds env else ret locTime) (\<lambda>updatetime.
     bindM (if currentTime \<le> updatetime then ret updatetime
            else checked_ll (currentTime + 10 * 60)) (\<lambda>currentTime'.
     bindM (strftime_localtime env currentTime') (\<lambda>_.
     bindM (write_stream env path (show_int updatetime @ [newline])) (\<lambda>_.
     ret (RdkDefaultTimeSync path currentTime'))))))"

subsection \<open>TestTimeSync\<close>

definition test_updateTime :: "env \<Rightarrow> string \<Rightarrow> int \<Rightarrow> ('w, timeSync) io" where
  "test_updateTime env path locTime =
     bindM (write_stream env path (show_int locTime @ [newline])) (\<lambda>_. ret (TestTimeSync path))"

definition test_getTime :: "env \<Rightarrow> string \<Rightarrow> ('w, int \<times> timeSync) io" where
  "test_getTime env path =
     bindM (open_read env path) (\<lambda>f.
       ret (case f of None \<Rightarrow> 0 | Some text \<Rightarrow> istream_ll text, TestTimeSync path))"

subsection \<open>TeeTimeSync\<close>

text \<open>
  Without IARM the library is handed the address of the 64-bit variable as that of a 32-bit one, so
  it reads and writes the first four of its eight bytes. Bytes of an integer in memory, in the order
  of the machine, and the unsigned number that some bytes in memory stand for:
\<close>

definition bytes_le :: "nat \<Rightarrow> int \<Rightarrow> int list" where
  "bytes_le n v = map (\<lambda>i. v div 256 ^ i mod 256) [0..<n]"

primrec of_bytes_le :: "int list \<Rightarrow> int" where
  "of_bytes_le [] = 0"
| "of_bytes_le (b # bs) = b + 256 * of_bytes_le bs"

definition store_bytes :: "env \<Rightarrow> nat \<Rightarrow> int \<Rightarrow> int list" where
  "store_bytes env n v = (if LITTLE_ENDIAN env then bytes_le n v else rev (bytes_le n v))"

definition load_bytes :: "env \<Rightarrow> int list \<Rightarrow> int" where
  "load_bytes env bs = of_bytes_le (if LITTLE_ENDIAN env then bs else rev bs)"

text \<open>A \<^verbatim>\<open>long long\<close> from its unsigned number.\<close>

definition ll_of :: "int \<Rightarrow> int" where
  "ll_of v = (if v < 2 ^ 63 then v else v - 2 ^ 64)"

definition tee_getTime :: "env \<Rightarrow> ('w, int \<times> timeSync) io" where
  "tee_getTime env =
     bindM (if ENABLE_IARM env
            then bindM (call_int env IARM_Bus_GetSecureTime) (\<lambda>(retCode, param).
                 ret (if retCode \<noteq> IARM_RESULT_SUCCESS then 0 else param))
            else bindM (call_int env MfrGetSecureTime) (\<lambda>(_, v).
                 ret (ll_of (load_bytes env (store_bytes env 4 v @ drop 4 (store_bytes env 8 0)))))) (\<lambda>r.
     bindM (strftime_localtime env r) (\<lambda>_. ret (r, TeeTimeSync)))"

definition tee_updateTime :: "env \<Rightarrow> int \<Rightarrow> ('w, timeSync) io" where
  "tee_updateTime env locTime =
     bindM (strftime_localtime env locTime) (\<lambda>_.
     bindM (if ENABLE_IARM env
            then bindM (call env (IARM_Bus_SetSecureTime (mfr_param env locTime))) (\<lambda>r.
                 ret (r = IARM_RESULT_SUCCESS))
            else bindM (call env (MfrSetSecureTime (word_of_int (load_bytes env (take 4 (store_bytes env 8 locTime)))))) (\<lambda>r.
                 ret (r = mfrERR_NONE env))) (\<lambda>set.
       if set then ret TeeTimeSync
       else bindM (tee_getTime env) (\<lambda>_. ret TeeTimeSync)))"

subsection \<open>The virtual functions\<close>

fun sync_updateTime :: "env \<Rightarrow> timeSync \<Rightarrow> int \<Rightarrow> ('w, timeSync) io" where
  "sync_updateTime env (TestTimeSync path) t = test_updateTime env path t"
| "sync_updateTime env (RdkDefaultTimeSync path cur) t = rdk_updateTime env path cur t"
| "sync_updateTime env TeeTimeSync t = tee_updateTime env t"

fun sync_getTime :: "env \<Rightarrow> timeSync \<Rightarrow> ('w, int \<times> timeSync) io" where
  "sync_getTime env (TestTimeSync path) = test_getTime env path"
| "sync_getTime env (RdkDefaultTimeSync path cur) = rdk_getTime env path"
| "sync_getTime env TeeTimeSync = tee_getTime env"

section \<open>Frame conditions\<close>

lemma keeps_buildtime [keeps_intros]:
  "(\<And>s c r. \<not> visible c \<Longrightarrow> p (s\<lparr>w_hist := w_hist s @ [(c, r)]\<rparr>) = p s) \<Longrightarrow> keeps p (buildtime env)"
  unfolding buildtime_def Let_def by (intro keeps_intros)

lemma keeps_sync_getTime [keeps_intros]:
  assumes "\<And>s c r. \<not> visible c \<Longrightarrow> p (s\<lparr>w_hist := w_hist s @ [(c, r)]\<rparr>) = p s"
  shows "keeps p (sync_getTime env y)"
  by (cases y)
    (auto simp: test_getTime_def rdk_getTime_def tee_getTime_def Let_def
      intro!: keeps_intros assms)

lemma keeps_sync_updateTime [keeps_intros]:
  assumes "\<And>s c r. \<not> visible c \<Longrightarrow> p (s\<lparr>w_hist := w_hist s @ [(c, r)]\<rparr>) = p s" and "\<And>s f. p (s\<lparr>w_fs := f\<rparr>) = p s"
    and "\<And>s t. p (s\<lparr>w_touched := t\<rparr>) = p s"
  shows "keeps p (sync_updateTime env y t)"
  by (cases y)
    (auto simp: test_updateTime_def rdk_updateTime_def tee_updateTime_def tee_getTime_def
      intro!: keeps_intros assms)

section \<open>Reading the version file\<close>

text \<open>
  A well-formed version file is a sequence of lines \<open>key=value\<close>; the tokens are then exactly its
  entries, and of two lines with one key the first counts.
\<close>

definition render :: "(string \<times> string) list \<Rightarrow> string" where
  "render kvs = concat (map (\<lambda>(k, v). k @ ''='' @ v @ [newline]) kvs)"

definition line_ok :: "string \<times> string \<Rightarrow> bool" where
  "line_ok kv \<longleftrightarrow> CHR ''='' \<notin> set (fst kv) \<and> newline \<notin> set (snd kv) \<and>
     (snd kv = [] \<or> hd (snd kv) \<noteq> CHR ''='')"

lemma newline_not_eq [simp]: "newline \<noteq> CHR ''=''" "CHR ''='' \<noteq> newline"
  by (simp_all add: newline_def)

lemma str_find_single:
  "str_find s [c] pos = List.find (\<lambda>i. i < length s \<and> s ! i = c) [pos..<Suc (length s)]"
proof -
  have "(take (length [c]) (drop i s) = [c]) = (i < length s \<and> s ! i = c)" for i
    by (cases "i < length s") (simp_all add: Cons_nth_drop_Suc [symmetric])
  then show ?thesis by (simp only: str_find_def)
qed

lemma tokenize_line:
  assumes "line_ok (k, v)" and s: "s = pre @ k @ ''='' @ v @ [newline] @ rest"
  shows "tokenize_from s ''='' (length pre) m =
         tokenize_from s ''='' (length (pre @ k @ ''='' @ v @ [newline])) (smap_insert k v m)"
proof -
  let ?ke = "length pre + length k"
  have k: "CHR ''='' \<notin> set k" and v: "newline \<notin> set v" and hd: "v = [] \<or> hd v \<noteq> CHR ''=''"
    using assms(1) by (simp_all add: line_ok_def)
  have key: "str_find s ''='' (length pre) = Some ?ke"
    unfolding str_find_single
    by (rule find_upt_Some) (use k in \<open>auto simp: s nth_append dest: nth_mem\<close>)
  have first: "s ! Suc ?ke = hd (v @ [newline])"
    by (simp add: s nth_append hd_conv_nth)
  have val: "find_first_not_of s ''='' ?ke = Some (Suc ?ke)"
    unfolding find_first_not_of_def
  proof (rule find_upt_Some)
    show "s ! Suc ?ke \<notin> set ''=''" using hd first by (cases v) auto
    fix j assume "?ke \<le> j" "j < Suc ?ke"
    then have "j = ?ke" by simp
    then show "\<not> s ! j \<notin> set ''=''" by (simp add: s nth_append)
  qed (simp_all add: s)
  have eol: "find_char s newline (Suc ?ke) = Some (Suc ?ke + length v)"
    unfolding find_char_def
  proof (rule find_upt_Some)
    fix j assume "Suc ?ke \<le> j" "j < Suc ?ke + length v"
    then obtain i where "j = Suc ?ke + i" "i < length v"
      by (metis add_less_cancel_left le_iff_add)
    then show "s ! j \<noteq> newline"
      using v by (auto simp: s nth_append dest: nth_mem)
  qed (simp_all add: s nth_append)
  have "substr s (length pre) (?ke - length pre) = k"
    and "substr s (Suc ?ke) (Suc ?ke + length v - Suc ?ke) = v"
    by (simp_all add: substr_def s)
  with key val eol show ?thesis
    by (subst tokenize_from.simps) (simp add: add.assoc)
qed

lemma tokenize_end: "tokenize_from s ''='' (length s) m = m"
proof -
  have "str_find s ''='' (length s) = None"
    by (simp add: str_find_single)
  then show ?thesis by (subst tokenize_from.simps) simp
qed

lemma tokenize_lines:
  assumes "list_all line_ok kvs" and "s = pre @ render kvs"
  shows "tokenize_from s ''='' (length pre) m = fold (\<lambda>(k, v). smap_insert k v) kvs m"
  using assms
proof (induction kvs arbitrary: pre m)
  case Nil
  then show ?case by (simp add: render_def tokenize_end)
next
  case (Cons kv kvs)
  obtain k v where kv: "kv = (k, v)" by (cases kv)
  let ?pre = "pre @ k @ ''='' @ v @ [newline]"
  have ok: "line_ok (k, v)" and s: "s = pre @ k @ ''='' @ v @ [newline] @ render kvs"
    using Cons.prems kv by (simp_all add: render_def)
  have "tokenize_from s ''='' (length ?pre) (smap_insert k v m) =
      fold (\<lambda>(k, v). smap_insert k v) kvs (smap_insert k v m)"
    using Cons.prems s by (intro Cons.IH) simp_all
  with tokenize_line [OF ok s] kv show ?case by simp
qed

lemma c_string_eq [simp]: "c_string ''='' = ''=''"
  by (simp add: c_string_def nul_def)

lemma tokenize_render:
  "list_all line_ok kvs \<Longrightarrow> smap_find (tokenize (render kvs) ''='') k = map_of kvs k"
  using tokenize_lines [of kvs "render kvs" "[]" "[]"]
  by (simp add: tokenize_def smap.first_wins)

text \<open>The build time in the version file, as the image build writes it.\<close>

definition pad2 :: "nat \<Rightarrow> string" where
  "pad2 n = [digit_char (n div 10 mod 10), digit_char (n mod 10)]"

definition pad4 :: "nat \<Rightarrow> string" where
  "pad4 n = pad2 (n div 100) @ pad2 n"

definition date_text :: "nat \<Rightarrow> nat \<Rightarrow> nat \<Rightarrow> nat \<Rightarrow> nat \<Rightarrow> nat \<Rightarrow> string" where
  "date_text y mo d h mi sec =
     pad4 y @ ''-'' @ pad2 mo @ ''-'' @ pad2 d @ '' '' @ pad2 h @ '':'' @ pad2 mi @ '':'' @ pad2 sec"

lemma digit_char_no_space [simp]: "n < 10 \<Longrightarrow> \<not> is_space (digit_char n)"
  by (simp add: digit_not_space)

lemma get_number_pad2:
  assumes "lo \<le> n" "n \<le> hi" "n < 100"
  shows "get_number lo hi 2 (pad2 n @ r) = Some (n, r)"
proof -
  have "n div 10 * 10 + n mod 10 = n" by simp
  then have "n div 10 * 10 \<le> hi" using assms by linarith
  then show ?thesis
    using assms by (simp add: get_number_def pad2_def)
qed

lemma get_number_four:
  assumes "a < 10" "b < 10" "c < 10" "d < 10"
  shows "get_number 0 9999 4 (digit_char a # digit_char b # digit_char c # digit_char d # r) =
    Some (((a * 10 + b) * 10 + c) * 10 + d, r)"
proof -
  have "a * 10 \<le> 9999" and ab: "a * 10 + b \<le> 99" using assms by simp_all
  have abc: "(a * 10 + b) * 10 + c \<le> 999"
    using mult_le_mono1 [OF ab, of 10] assms by simp
  have "((a * 10 + b) * 10 + c) * 10 + d \<le> 9999"
    using mult_le_mono1 [OF abc, of 10] assms by simp
  moreover have "(a * 10 + b) * 10 \<le> 9999" "((a * 10 + b) * 10 + c) * 10 \<le> 9999"
    using mult_le_mono1 [OF ab, of 10] mult_le_mono1 [OF abc, of 10] by simp_all
  ultimately have "more_digits (Suc (Suc (Suc 0))) 9999 a
      (digit_char b # digit_char c # digit_char d # r) = (((a * 10 + b) * 10 + c) * 10 + d, r)"
    and "((a * 10 + b) * 10 + c) * 10 + d \<le> 9999"
    using assms \<open>a * 10 \<le> 9999\<close>
    by (simp_all only: more_digits.simps digit_char_simps if_True simp_thms)
  moreover have "(4 :: nat) - 1 = Suc (Suc (Suc 0))" by simp
  ultimately show ?thesis
    using assms by (simp only: get_number_def) simp
qed

lemma get_number_pad4:
  assumes "n \<le> 9999"
  shows "get_number 0 9999 4 (pad4 n @ r) = Some (n, r)"
proof -
  have "n div 100 div 10 mod 10 < 10" "n div 100 mod 10 < 10" "n div 10 mod 10 < 10"
    "n mod 10 < 10" by simp_all
  note four = get_number_four [OF this, of r]
  have "((n div 100 div 10 mod 10 * 10 + n div 100 mod 10) * 10 + n div 10 mod 10) * 10 + n mod 10 = n"
  proof -
    have "n div 10 div 10 = n div 100" "n div 100 div 10 < 10"
      using assms by (simp_all add: div_mult2_eq [symmetric])
    then show ?thesis
      using div_mult_mod_eq [of n 10] div_mult_mod_eq [of "n div 10" 10]
        div_mult_mod_eq [of "n div 100" 10] by simp
  qed
  with four show ?thesis
    by (simp only: pad4_def pad2_def append.simps)
qed

lemma pad2_hd: "\<exists>c cs. pad2 n = c # cs \<and> is_digit c"
  by (simp add: pad2_def)

lemma strptime_date_text:
  assumes "y \<le> 9999" "1 \<le> mo" "mo \<le> 12" "1 \<le> d" "d \<le> 31" "h \<le> 23" "mi \<le> 59" "sec \<le> 61"
  shows "strptime (date_text y mo d h mi sec) =
    Some \<lparr>tm_year = int y, tm_mon = int mo, tm_mday = int d,
          tm_hour = int h, tm_min = int mi, tm_sec = int sec\<rparr>"
proof -
  have "dropWhile is_space ('' '' @ pad2 h @ r) = pad2 h @ r" for r
    using pad2_hd [of h] digit_not_space by auto
  moreover have "get_number 0 61 2 (pad2 sec) = Some (sec, [])"
    using get_number_pad2 [of 0 sec 61 "[]"] assms by simp
  ultimately show ?thesis
    using assms
    by (simp add: strptime_def date_text_def get_number_pad4 get_number_pad2 match_char_def)
qed

lemma date_text_chars:
  "CHR 0x22 \<notin> set (date_text y mo d h mi sec)" "nul \<notin> set (date_text y mo d h mi sec)"
  "newline \<notin> set (date_text y mo d h mi sec)"
proof -
  have "is_digit c \<or> c \<in> set ''-: ''" if "c \<in> set (date_text y mo d h mi sec)" for c
    using that by (auto simp: date_text_def pad4_def pad2_def)
  then show "CHR 0x22 \<notin> set (date_text y mo d h mi sec)" "nul \<notin> set (date_text y mo d h mi sec)"
    "newline \<notin> set (date_text y mo d h mi sec)"
    by (force simp: is_digit_def nul_def newline_def)+
qed

text \<open>The build time as a function of the world, when the version file can be read.\<close>

definition version_time :: "'w world_scheme \<Rightarrow> int" where
  "version_time s =
     (case w_fs s ''/version.txt'' of
        None \<Rightarrow> 0
      | Some f \<Rightarrow>
          (case strptime (c_string (filter (\<lambda>c. c \<noteq> CHR 0x22)
                  (smap_index [] (tokenize (content f) ''='') ''BUILD_TIME''))) of
             None \<Rightarrow> 0 | Some tm \<Rightarrow> timegm tm))"

lemma buildtime_run:
  "buildtime env s =
     (let r = ret_code env (w_hist s) (Open_read ''/version.txt'') in
      (Inr (if 0 \<le> r then version_time s else 0),
       s\<lparr>w_hist := w_hist s @ [(Open_read ''/version.txt'', r)]\<rparr>))"
  by (auto simp: buildtime_def open_read_def version_time_def prog_simps Let_def
      split: option.splits)

lemma version_time_fs: "w_fs s = w_fs s' \<Longrightarrow> version_time s = version_time s'"
  by (simp add: version_time_def)

lemma version_time_hist [simp]: "version_time (s\<lparr>w_hist := h\<rparr>) = version_time s"
  by (simp add: version_time_def)

lemma version_time_render:
  assumes "w_fs s ''/version.txt'' = Some \<lparr>content = render kvs, mtime = t\<rparr>"
    and "list_all line_ok kvs"
    and "map_of kvs ''BUILD_TIME'' = Some (CHR 0x22 # date_text y mo d h mi sec @ [CHR 0x22])"
    and "y \<le> 9999" "1 \<le> mo" "mo \<le> 12" "1 \<le> d" "d \<le> 31" "h \<le> 23" "mi \<le> 59" "sec \<le> 61"
  shows "version_time s = 86400 * days_from_civil (int y) (int mo) (int d)
           + 3600 * int h + 60 * int mi + int sec"
proof -
  have "filter (\<lambda>c. c \<noteq> CHR 0x22) (date_text y mo d h mi sec) = date_text y mo d h mi sec"
    using date_text_chars(1) by (auto simp: filter_id_conv)
  then have "c_string (filter (\<lambda>c. c \<noteq> CHR 0x22)
      (smap_index [] (tokenize (render kvs) ''='') ''BUILD_TIME'')) = date_text y mo d h mi sec"
    using assms(2,3) by (simp add: smap_index_def tokenize_render c_string_no_nul date_text_chars)
  with assms show ?thesis
    by (simp add: version_time_def strptime_date_text timegm_def)
qed

section \<open>The contract of a time store\<close>

text \<open>
  What the manager relies on: in a well-behaved environment an update with a time of this era
  and a query return, and the store keeps room for further updates. \<open>room n y\<close> says that \<open>n\<close> more
  updates cannot overflow; \<open>readable s y\<close> that what the store holds is a time of this era.
\<close>

locale itimesync =
  fixes good :: "env \<Rightarrow> bool"
    and update :: "env \<Rightarrow> 'o \<Rightarrow> int \<Rightarrow> ('w, 'o) io"
    and get :: "env \<Rightarrow> 'o \<Rightarrow> ('w, int \<times> 'o) io"
    and room :: "nat \<Rightarrow> 'o \<Rightarrow> bool"
    and readable :: "'w world_scheme \<Rightarrow> 'o \<Rightarrow> bool"
  assumes update_safe: "good env \<Longrightarrow> room (Suc n) y \<Longrightarrow> valid_time t \<Longrightarrow>
      safe w_ok (update env y t) (\<lambda>y' s. w_ok s \<and> room n y')"
    and get_safe: "good env \<Longrightarrow>
      safe (\<lambda>s. w_ok s \<and> readable s y) (get env y)
        (\<lambda>(v, y') s. w_ok s \<and> valid_time v \<and> (\<forall>n. room n y \<longrightarrow> room n y'))"
    and get_keeps: "keeps w_fs (get env y)"
    and readable_fs: "w_fs s = w_fs s' \<Longrightarrow> readable s y = readable s' y"
begin

lemma update_ptr_safe:
  assumes "good env" "p \<noteq> None" "\<And>y. p = Some y \<Longrightarrow> room (Suc n) y" "valid_time t"
  shows "safe w_ok (deref p (\<lambda>y. bindM (update env y t) (\<lambda>y'. ret (Some y'))))
           (\<lambda>p' s. w_ok s \<and> (\<exists>y. p' = Some y \<and> room n y))"
proof -
  from assms obtain y where y: "p = Some y" "room (Suc n) y" by auto
  show ?thesis
    unfolding deref_def y option.case
    by (rule safe_bindM [OF update_safe [OF assms(1) y(2) assms(4)]]) (auto intro: safe_ret)
qed

text \<open>The loop over all stores.\<close>

lemma update_all_safe:
  assumes "good env" "valid_time t" "\<forall>p \<in> set ps. \<exists>y. p = Some y \<and> room (Suc n) y"
  shows "safe w_ok (mapM (\<lambda>p. deref p (\<lambda>y. bindM (update env y t) (\<lambda>y'. ret (Some y')))) ps)
           (\<lambda>ps' s. w_ok s \<and> (\<forall>p \<in> set ps'. \<exists>y. p = Some y \<and> room n y))"
proof -
  have "safe w_ok (mapM (\<lambda>p. deref p (\<lambda>y. bindM (update env y t) (\<lambda>y'. ret (Some y')))) ps)
          (\<lambda>ps' s. w_ok s \<and> list_all2 (\<lambda>_ p'. \<exists>y. p' = Some y \<and> room n y) ps ps')"
    using assms by (intro safe_mapM update_ptr_safe) auto
  then show ?thesis
    by (rule safe_weaken) (auto simp: list_all2_conv_all_nth in_set_conv_nth)
qed

text \<open>The loop that keeps the last answer.\<close>

lemma get_all_safe:
  assumes "good env" "\<forall>p \<in> set ps. \<exists>y. p = Some y \<and> readable s y \<and> room n y" "w_ok s"
  shows "\<exists>v ys t. foldM (\<lambda>(v, ys) p. deref p (\<lambda>y. bindM (get env y) (\<lambda>(v', y').
           ret (v', ys @ [Some y'])))) (v0, ys0) ps s = (Inr (v, ys), t) \<and>
           w_ok t \<and> (valid_time v0 \<longrightarrow> valid_time v) \<and>
           ((\<forall>p \<in> set ys0. \<exists>y. p = Some y \<and> room n y) \<longrightarrow> (\<forall>p \<in> set ys. \<exists>y. p = Some y \<and> room n y))"
  using assms(2,3)
proof (induction ps arbitrary: v0 ys0 s)
  case Nil
  then show ?case by (simp add: ret_run)
next
  case (Cons p ps)
  then obtain y where p: "p = Some y" and y: "readable s y" "room n y" by auto
  from safeD [OF get_safe [OF assms(1), of y], of s] Cons.prems(2) y(1)
  obtain v y' s' where g: "get env y s = (Inr (v, y'), s')" and s': "w_ok s'" "valid_time v"
    and y': "\<forall>n. room n y \<longrightarrow> room n y'"
    by auto
  have "w_fs s' = w_fs s" using keepsD [OF get_keeps g] .
  then have "readable s' z = readable s z" for z by (rule readable_fs)
  with Cons.prems(1) have "\<forall>p \<in> set ps. \<exists>z. p = Some z \<and> readable s' z \<and> room n z" by simp
  from Cons.IH [OF this s'(1), of v "ys0 @ [Some y']"] s'(2) g p y(2) y' show ?case
    by (auto simp: bindM_run deref_def ret_run)
qed

end

subsection \<open>RdkDefaultTimeSync fulfils it\<close>

definition sync_room :: "nat \<Rightarrow> timeSync \<Rightarrow> bool" where
  "sync_room n y = (case y of
       RdkDefaultTimeSync path cur \<Rightarrow> 0 \<le> cur \<and> max cur time_bound + 600 * int n < 2 ^ 40
     | _ \<Rightarrow> True)"

text \<open>The time a store's file holds (zero when it is missing).\<close>

definition stored :: "'w world_scheme \<Rightarrow> string \<Rightarrow> int" where
  "stored s path = (case w_fs s path of None \<Rightarrow> 0 | Some f \<Rightarrow> istream_ll (content f))"

definition sync_readable :: "'w world_scheme \<Rightarrow> timeSync \<Rightarrow> bool" where
  "sync_readable s y = (case y of
       TestTimeSync path \<Rightarrow> valid_time (stored s path)
     | RdkDefaultTimeSync path cur \<Rightarrow> stored s path < time_bound \<and> valid_time (version_time s)
     | TeeTimeSync \<Rightarrow> True)"

lemma valid_time_localtime: "sane_clock env \<Longrightarrow> valid_time t \<Longrightarrow> strftime_localtime env t = ret ()"
  by (rule strftime_localtime_sane) (simp_all add: valid_time_def time_bound_def)

text \<open>One update: the time written is \<open>u\<close>, the argument or, for zero, the time of day.\<close>

lemma rdk_updateTime_run:
  fixes s :: "'w world_scheme"
  assumes "sane_clock env" "valid_time t" "0 \<le> cur" "cur + 600 < 2 ^ 40"
  defines "u \<equiv> (if t = 0 then wall_clock env (w_hist s) else t)"
  shows "valid_time u \<and> (\<exists>h. rdk_updateTime env path cur t s =
      (Inr (RdkDefaultTimeSync path (if cur \<le> u then u else cur + 600)),
       snd (write_stream env path (show_int u @ [newline]) (s\<lparr>w_hist := h\<rparr>))))"
proof -
  have valid: "valid_time u" using assms(2) wall_clock_sane [OF assms(1)] by (simp add: u_def)
  obtain h where u: "(if t = 0 then realtime_seconds env else ret t) s = (Inr u, s\<lparr>w_hist := h\<rparr>)"
    using realtime_seconds_run [OF assms(1), of s] by (cases "t = 0") (auto simp: u_def ret_run intro: that [of "w_hist s"])
  define c where "c = (if cur \<le> u then u else cur + 600)"
  have c: "0 \<le> c" "c < 2 ^ 40" "is_ll (cur + 600)"
    using assms(3,4) valid
    by (auto simp: c_def valid_time_def time_bound_def is_ll_def LLONG_MIN_def LLONG_MAX_def)
  have wr: "\<exists>b. fst (write_stream env path tx w) = Inr b" for tx and w :: "'w world_scheme"
    by (auto simp: write_stream_def call_int_def prog_simps)
  from wr [of "show_int u @ [newline]" "s\<lparr>w_hist := h\<rparr>"]
  obtain b w where "write_stream env path (show_int u @ [newline]) (s\<lparr>w_hist := h\<rparr>) = (Inr b, w)"
    by (metis prod.collapse)
  then have "rdk_updateTime env path cur t s = (Inr (RdkDefaultTimeSync path c),
      snd (write_stream env path (show_int u @ [newline]) (s\<lparr>w_hist := h\<rparr>)))"
    using u c assms(1,2)
    by (auto simp: rdk_updateTime_def bindM_run ret_run checked_ll_def c_def
        valid_time_localtime strftime_localtime_sane)
  with valid show ?thesis unfolding c_def by blast
qed

lemma of_bytes_le_append: "of_bytes_le (xs @ ys) = of_bytes_le xs + 256 ^ length xs * of_bytes_le ys"
  by (induction xs) (simp_all add: algebra_simps)

lemma length_bytes_le [simp]: "length (bytes_le n v) = n"
  by (simp add: bytes_le_def)

lemma of_bytes_le_bytes: "of_bytes_le (bytes_le n v) = v mod 256 ^ n"
proof (induction n)
  case (Suc n)
  have "bytes_le (Suc n) v = bytes_le n v @ [v div 256 ^ n mod 256]" by (simp add: bytes_le_def)
  moreover have "v mod 256 ^ Suc n = v mod 256 ^ n + 256 ^ n * (v div 256 ^ n mod 256)"
    using zmod_zmult2_eq [of 256 v "256 ^ n"] by (simp add: mult.commute add.commute)
  ultimately show ?case using Suc by (simp add: of_bytes_le_append)
qed (simp add: bytes_le_def)

lemma bytes_le_parts: "take 4 (bytes_le 8 v) = bytes_le 4 v" "drop 4 (bytes_le 8 v) = bytes_le 4 (v div 2 ^ 32)"
proof -
  have "v div 2 ^ 32 div 256 ^ i = v div 256 ^ (i + 4)" for i
    by (simp add: zdiv_zmult2_eq [symmetric] power_add mult.commute)
  then show "drop 4 (bytes_le 8 v) = bytes_le 4 (v div 2 ^ 32)"
    by (simp add: bytes_le_def drop_map upt_rec)
  show "take 4 (bytes_le 8 v) = bytes_le 4 v" by (simp add: bytes_le_def take_map upt_rec)
qed

text \<open>The four bytes at the address of the variable: its low half, or its high half.\<close>

lemma first_half:
  "load_bytes env (take 4 (store_bytes env 8 v)) = (if LITTLE_ENDIAN env then v else v div 2 ^ 32) mod 2 ^ 32"
  using of_bytes_le_bytes [of 4 v] of_bytes_le_bytes [of 4 "v div 2 ^ 32"]
  by (simp add: load_bytes_def store_bytes_def take_rev bytes_le_parts)

lemma into_first_half:
  assumes "LITTLE_ENDIAN env"
  shows "ll_of (load_bytes env (store_bytes env 4 v @ drop 4 (store_bytes env 8 0))) = v mod 2 ^ 32"
proof -
  have "of_bytes_le (bytes_le 4 v @ bytes_le 4 0) = v mod 2 ^ 32"
    using of_bytes_le_bytes [of 4 v] of_bytes_le_bytes [of 4 0] by (simp add: of_bytes_le_append)
  moreover have "v mod 2 ^ 32 < 2 ^ 63" by (rule less_trans [OF pos_mod_bound]) simp_all
  ultimately show ?thesis using assms by (simp add: load_bytes_def store_bytes_def bytes_le_parts ll_of_def)
qed

lemma tee_getTime_safe:
  assumes "sane_clock env"
  shows "safe w_ok (tee_getTime env) (\<lambda>(v, y) s. w_ok s \<and> valid_time v \<and> y = TeeTimeSync)"
proof -
  have "LITTLE_ENDIAN env" using assms by (simp add: sane_clock_def)
  moreover have "valid_time (v mod 2 ^ 32)" for v :: int
    using pos_mod_bound [of "2 ^ 32" v] by (simp add: valid_time_def time_bound_def)
  ultimately show ?thesis
    using assms by (auto simp: safe_def tee_getTime_def call_int_def prog_simps into_first_half
        valid_time_localtime sane_clock_time)
qed

text \<open>
  What a query answers: the larger of the build time and the stored time, each zero when its
  file cannot be read.
\<close>

definition rdk_answer :: "env \<Rightarrow> string \<Rightarrow> 'w world_scheme \<Rightarrow> int" where
  "rdk_answer env path s =
     (let h = w_hist s @ [(Open_read path, ret_code env (w_hist s) (Open_read path))] in
      max (if 0 \<le> ret_code env h (Open_read ''/version.txt'') then version_time s else 0)
          (if 0 \<le> ret_code env (w_hist s) (Open_read path) then stored s path else 0))"

lemma notify_run:
  "\<exists>h. t2ValNotify env m x w = (Inr (), w\<lparr>w_hist := h\<rparr>)"
  "\<exists>h. t2CountNotify env m i w = (Inr (), w\<lparr>w_hist := h\<rparr>)"
  by (auto simp: t2ValNotify_def t2CountNotify_def prog_simps intro: exI [of _ "w_hist w"])

lemma rdk_getTime_run:
  assumes "sane_clock env" "valid_time (rdk_answer env path s)"
  shows "\<exists>h. rdk_getTime env path s =
    (Inr (rdk_answer env path s, RdkDefaultTimeSync path (rdk_answer env path s)), s\<lparr>w_hist := h\<rparr>)"
proof -
  define clock where "clock = (if 0 \<le> ret_code env (w_hist s) (Open_read path) then stored s path else 0)"
  define h where "h = w_hist s @ [(Open_read path, ret_code env (w_hist s) (Open_read path))]"
  define ver where "ver = (if 0 \<le> ret_code env h (Open_read ''/version.txt'') then version_time s else 0)"
  define v where "v = rdk_answer env path s"
  have v: "valid_time v" "v = max ver clock"
    using assms by (simp_all add: v_def rdk_answer_def ver_def clock_def h_def)
  obtain f where f: "open_read env path s = (Inr f, s\<lparr>w_hist := h\<rparr>)"
    "(case f of None \<Rightarrow> 0 | Some text \<Rightarrow> istream_ll text) = clock"
    by (auto simp: open_read_def prog_simps h_def clock_def stored_def split: option.split)
  obtain h' where b: "buildtime env (s\<lparr>w_hist := h\<rparr>) = (Inr ver, s\<lparr>w_hist := h'\<rparr>)"
    by (simp add: buildtime_run Let_def ver_def)
  have "\<exists>h. rdk_getTime env path s = (Inr (v, RdkDefaultTimeSync path v), s\<lparr>w_hist := h\<rparr>)"
  proof (cases "ver < clock")
    case True
    with f b v notify_run(1) [of env "''SYST_INFO_SYSLKG_split''" "strftime_text env clock" "s\<lparr>w_hist := h'\<rparr>"]
    show ?thesis
      by (auto simp: rdk_getTime_def bindM_run ret_run Let_def valid_time_localtime [OF assms(1)])
  next
    case False
    with f b v notify_run(2) [of env "''SYST_INFO_SYSBUILD''" 1 "s\<lparr>w_hist := h'\<rparr>"]
    show ?thesis
      by (auto simp: rdk_getTime_def bindM_run ret_run Let_def valid_time_localtime [OF assms(1)])
  qed
  then show ?thesis by (simp add: v_def)
qed

lemma rdk_answer_valid:
  "sync_readable s (RdkDefaultTimeSync path cur) \<Longrightarrow> valid_time (rdk_answer env path s)"
  by (auto simp: rdk_answer_def sync_readable_def valid_time_def Let_def max_def time_bound_def)

lemma sync_updateTime_safe:
  assumes "sane_clock env" "sync_room (Suc n) y" "valid_time t"
  shows "safe w_ok (sync_updateTime env y t) (\<lambda>y' s. w_ok s \<and> sync_room n y')"
proof (cases y)
  case (TestTimeSync path)
  then show ?thesis
    by (auto simp: test_updateTime_def sync_room_def
        intro!: safe_bindM [OF write_stream_sane [OF assms(1)]] safe_ret)
next
  case (RdkDefaultTimeSync path cur)
  with assms(2) have cur: "0 \<le> cur" "cur + 600 < 2 ^ 40" "max cur time_bound + 600 * int (Suc n) < 2 ^ 40"
    by (auto simp: sync_room_def)
  show ?thesis
  proof (rule safeI)
    fix s :: "'w world_scheme" assume s: "w_ok s"
    from rdk_updateTime_run [OF assms(1,3) cur(1,2), of s path]
    obtain u h where u: "valid_time u" and r: "rdk_updateTime env path cur t s =
      (Inr (RdkDefaultTimeSync path (if cur \<le> u then u else cur + 600)),
       snd (write_stream env path (show_int u @ [newline]) (s\<lparr>w_hist := h\<rparr>)))" by blast
    have "w_ok (snd (write_stream env path (show_int u @ [newline]) (s\<lparr>w_hist := h\<rparr>)))"
      using safeD [OF write_stream_sane [OF assms(1)], of "s\<lparr>w_hist := h\<rparr>" path
          "show_int u @ [newline]"] s by auto
    moreover have "sync_room n (RdkDefaultTimeSync path (if cur \<le> u then u else cur + 600))"
      using u cur(1,3) by (auto simp: sync_room_def valid_time_def max_def split: if_splits)
    ultimately show "\<exists>x w. sync_updateTime env y t s = (Inr x, w) \<and> w_ok w \<and> sync_room n x"
      using r by (simp add: RdkDefaultTimeSync)
  qed
next
  case TeeTimeSync
  have "safe w_ok (bindM (tee_getTime env) (\<lambda>_. ret TeeTimeSync)) (\<lambda>y' s. w_ok s \<and> sync_room n y')"
    by (rule safe_bindM [OF tee_getTime_safe [OF assms(1)]])
      (auto simp: sync_room_def intro: safe_ret)
  then show ?thesis
    unfolding TeeTimeSync sync_updateTime.simps tee_updateTime_def
      valid_time_localtime [OF assms(1,3)] bindM_ret_left
    by (intro safe_bindM [where R = "\<lambda>_. w_ok"])
      (auto simp: prog_simps sync_room_def safe_def [where P = w_ok and Q = "\<lambda>_. w_ok"]
        intro: safe_ret)
qed

lemma sync_getTime_safe:
  assumes "sane_clock env"
  shows "safe (\<lambda>s. w_ok s \<and> sync_readable s y) (sync_getTime env y)
    (\<lambda>(v, y') s. w_ok s \<and> valid_time v \<and> (\<forall>n. sync_room n y \<longrightarrow> sync_room n y'))"
proof (cases y)
  case (TestTimeSync path)
  then show ?thesis
    by (auto simp: safe_def test_getTime_def open_read_def prog_simps sync_readable_def
        sync_room_def stored_def split: option.splits)
next
  case (RdkDefaultTimeSync path cur)
  show ?thesis
  proof (rule safeI)
    fix s :: "'w world_scheme" assume s: "w_ok s \<and> sync_readable s y"
    then have v: "valid_time (rdk_answer env path s)"
      using rdk_answer_valid RdkDefaultTimeSync by blast
    from rdk_getTime_run [OF assms v] s v
    show "\<exists>x t. sync_getTime env y s = (Inr x, t) \<and>
      (case x of (v, y') \<Rightarrow> \<lambda>s. w_ok s \<and> valid_time v \<and> (\<forall>n. sync_room n y \<longrightarrow> sync_room n y')) t"
      by (auto simp: RdkDefaultTimeSync sync_room_def valid_time_def max_def split: if_splits)
  qed
next
  case TeeTimeSync
  then show ?thesis
    using tee_getTime_safe [OF assms] by (auto simp: safe_def sync_room_def)
qed

interpretation tsync: itimesync sane_clock sync_updateTime sync_getTime sync_room sync_readable
proof unfold_locales
  show "keeps w_fs (sync_getTime env y)" for env y
    by (intro keeps_intros) simp
  show "w_fs s = w_fs s' \<Longrightarrow> sync_readable s y = sync_readable s' y" for s s' y
    by (auto simp: sync_readable_def stored_def dest: version_time_fs split: timeSync.split)
qed (fact sync_updateTime_safe sync_getTime_safe)+

section \<open>Properties\<close>

text \<open>
  C10: Recovery after a restart. When the default store has been updated, a fresh store object on the
  same file (made by the next run of the daemon, in a later environment) answers the larger of the
  build time of the image and the time of the update, without a fault; the time of the update is the
  argument, or the time of day when the argument is zero. The files can be written and read back, the
  clock is sane, and the object's own counter has room.
\<close>

theorem rdk_restart_recovers:
  fixes s :: "'w world_scheme"
  assumes "sane_clock env" "sane_clock env'" "files_work env" "files_work env'"
    and "valid_time t" "0 \<le> cur" "cur + 600 < 2 ^ 40"
    and "path \<noteq> ''/version.txt''" "valid_time (version_time s)"
  defines "u \<equiv> (if t = 0 then wall_clock env (w_hist s) else t)"
  shows "\<exists>y s' h. sync_updateTime env (RdkDefaultTimeSync path cur) t s = (Inr y, s') \<and>
    sync_getTime env' (RdkDefaultTimeSync path 0) s' =
      (Inr (max u (version_time s), RdkDefaultTimeSync path (max u (version_time s))), s'\<lparr>w_hist := h\<rparr>)"
proof -
  from rdk_updateTime_run [OF assms(1,5-7), of s path, folded u_def]
  obtain y h where valid: "valid_time u" and u: "rdk_updateTime env path cur t s =
      (Inr y, snd (write_stream env path (show_int u @ [newline]) (s\<lparr>w_hist := h\<rparr>)))" by blast
  from write_stream_run [of env "s\<lparr>w_hist := h\<rparr>" path "show_int u @ [newline]"] assms(3)
  obtain h' m where w: "write_stream env path (show_int u @ [newline]) (s\<lparr>w_hist := h\<rparr>) =
      (Inr True, put_file path (show_int u @ [newline]) m (s\<lparr>w_hist := h'\<rparr>))"
    by (auto simp: files_work_def)
  define s' where "s' = put_file path (show_int u @ [newline]) m (s\<lparr>w_hist := h'\<rparr>)"
  have "version_time s' = version_time s"
    using \<open>path \<noteq> _\<close> by (auto simp: s'_def version_time_def put_file_def)
  moreover have "stored s' path = u"
    using valid by (simp add: s'_def stored_def put_file_def istream_show_int valid_time_ll)
  ultimately have ans: "rdk_answer env' path s' = max u (version_time s)"
    using assms(4) by (simp add: rdk_answer_def files_work_def Let_def max.commute)
  then have "valid_time (rdk_answer env' path s')"
    using valid assms(9) by (auto simp: max_def)
  from rdk_getTime_run [OF assms(2) this] u w ans show ?thesis
    by (auto simp: s'_def)
qed

theorem rdk_restart_recovers_witness:
  "\<exists>y s' h. sync_updateTime (calm_env 1700000000)
       (RdkDefaultTimeSync ''/tmp/systimemgr/clock.txt'' 0) 0 empty_world = (Inr y, s') \<and>
    sync_getTime (calm_env 5) (RdkDefaultTimeSync ''/tmp/systimemgr/clock.txt'' 0) s' =
      (Inr (1700000000, RdkDefaultTimeSync ''/tmp/systimemgr/clock.txt'' 1700000000), s'\<lparr>w_hist := h\<rparr>)"
proof -
  have "wall_clock (calm_env 1700000000) (w_hist empty_world) = 1700000000" "version_time empty_world = 0"
    by (simp_all add: wall_clock_def calm_env_def Let_def version_time_def empty_world_def)
  with rdk_restart_recovers [of "calm_env 1700000000" "calm_env 5" 0 0 "''/tmp/systimemgr/clock.txt''" empty_world]
  show ?thesis by (simp add: calm_env_sane calm_env_files valid_time_def time_bound_def)
qed

text \<open>
  C23: One update of the default store, in full. What is written is the argument, or the time of day
  when the argument is zero; the object's counter becomes that time or, when it is behind the counter,
  grows by ten minutes, so the counter never decreases; no other file changes. Contrary to the comment
  in the source, the file gets the time itself and not the counter, so what is stored can decrease.
\<close>

theorem rdk_update_monotone:
  fixes s :: "'w world_scheme"
  assumes "sane_clock env" "files_work env" "valid_time t" "0 \<le> cur" "cur + 600 < 2 ^ 40"
  defines "u \<equiv> (if t = 0 then wall_clock env (w_hist s) else t)"
  shows "\<exists>cur' s'. sync_updateTime env (RdkDefaultTimeSync path cur) t s =
      (Inr (RdkDefaultTimeSync path cur'), s') \<and>
    cur' = (if cur \<le> u then u else cur + 600) \<and> cur \<le> cur' \<and>
    map_option content (w_fs s' path) = Some (show_int u @ [newline]) \<and> stored s' path = u \<and>
    (\<forall>q. q \<noteq> path \<longrightarrow> w_fs s' q = w_fs s q)"
proof -
  from rdk_updateTime_run [OF assms(1,3-5), of s path, folded u_def]
  obtain h where u: "valid_time u" and r: "rdk_updateTime env path cur t s =
      (Inr (RdkDefaultTimeSync path (if cur \<le> u then u else cur + 600)),
       snd (write_stream env path (show_int u @ [newline]) (s\<lparr>w_hist := h\<rparr>)))" by blast
  from write_stream_run [of env "s\<lparr>w_hist := h\<rparr>" path "show_int u @ [newline]"] assms(2)
  obtain h' m where w: "write_stream env path (show_int u @ [newline]) (s\<lparr>w_hist := h\<rparr>) =
      (Inr True, put_file path (show_int u @ [newline]) m (s\<lparr>w_hist := h'\<rparr>))"
    by (auto simp: files_work_def)
  have "stored (put_file path (show_int u @ [newline]) m (s\<lparr>w_hist := h'\<rparr>)) path = u"
    using u(1) by (simp add: stored_def put_file_def istream_show_int valid_time_ll)
  with u r w show ?thesis
    by (auto simp: put_file_def)
qed

theorem rdk_update_monotone_witness:
  "\<exists>s'. sync_updateTime (calm_env 1700000000)
      (RdkDefaultTimeSync ''/tmp/systimemgr/clock.txt'' 1800000000) 0 empty_world =
      (Inr (RdkDefaultTimeSync ''/tmp/systimemgr/clock.txt'' 1800000600), s') \<and>
    stored s' ''/tmp/systimemgr/clock.txt'' = 1700000000"
proof -
  have "wall_clock (calm_env 1700000000) (w_hist empty_world) = 1700000000"
    by (simp add: wall_clock_def calm_env_def Let_def)
  with rdk_update_monotone [of "calm_env 1700000000" 0 1800000000 "''/tmp/systimemgr/clock.txt''" empty_world]
  show ?thesis by (auto simp: calm_env_sane calm_env_files valid_time_def time_bound_def)
qed

text \<open>
  C24: The build time of an image is read correctly: for a version file made of \<open>key=value\<close> lines
  whose first \<open>BUILD_TIME\<close> line holds a quoted date, \<open>buildtime\<close> returns the number of seconds from
  the epoch to that date, and changes nothing but the call history.
\<close>

theorem buildtime_version_file:
  fixes s :: "'w world_scheme"
  assumes "files_work env"
    and "w_fs s ''/version.txt'' = Some \<lparr>content = render kvs, mtime = t\<rparr>"
    and "list_all line_ok kvs"
    and "map_of kvs ''BUILD_TIME'' = Some (CHR 0x22 # date_text y mo d h mi sec @ [CHR 0x22])"
    and "y \<le> 9999" "1 \<le> mo" "mo \<le> 12" "1 \<le> d" "d \<le> 31" "h \<le> 23" "mi \<le> 59" "sec \<le> 61"
  shows "\<exists>hs. buildtime env s =
    (Inr (86400 * days_from_civil (int y) (int mo) (int d)
           + 3600 * int h + 60 * int mi + int sec), s\<lparr>w_hist := hs\<rparr>)"
  using assms(1) version_time_render [OF assms(2-12)]
  by (auto simp: buildtime_run files_work_def Let_def)

theorem buildtime_version_file_witness:
  "(\<exists>hs. buildtime (calm_env 0) (put_file ''/version.txt''
      (render [(''imagename'', ''X1''), (''BUILD_TIME'', CHR 0x22 # date_text 2022 1 1 0 0 0 @ [CHR 0x22])])
      7 empty_world) =
    (Inr (86400 * days_from_civil (int 2022) (int 1) (int 1) + 3600 * int 0 + 60 * int 0 + int 0),
     put_file ''/version.txt''
      (render [(''imagename'', ''X1''), (''BUILD_TIME'', CHR 0x22 # date_text 2022 1 1 0 0 0 @ [CHR 0x22])])
      7 empty_world\<lparr>w_hist := hs\<rparr>)) \<and>
    86400 * days_from_civil (int 2022) (int 1) (int 1) = 1640995200"
proof (intro conjI buildtime_version_file)
  show "86400 * days_from_civil (int 2022) (int 1) (int 1) = 1640995200"
    by code_simp
  show "list_all line_ok [(''imagename'', ''X1''),
      (''BUILD_TIME'', CHR 0x22 # date_text 2022 1 1 0 0 0 @ [CHR 0x22])]"
    by code_simp
qed (simp_all add: calm_env_files put_file_def)

text \<open>
  The test store is a faithful register: after an update with any 64-bit time, a query by a
  store on the same file returns it.
\<close>

theorem test_sync_roundtrip:
  fixes s :: "'w world_scheme"
  assumes "files_work env" "is_ll t"
  shows "\<exists>s' h. sync_updateTime env (TestTimeSync path) t s = (Inr (TestTimeSync path), s') \<and>
    sync_getTime env (TestTimeSync path) s' = (Inr (t, TestTimeSync path), s'\<lparr>w_hist := h\<rparr>)"
proof -
  from write_stream_run [of env s path "show_int t @ [newline]"] assms(1)
  obtain h m where "write_stream env path (show_int t @ [newline]) s =
      (Inr True, put_file path (show_int t @ [newline]) m (s\<lparr>w_hist := h\<rparr>))"
    by (auto simp: files_work_def)
  with assms show ?thesis
    by (auto simp: test_updateTime_def test_getTime_def open_read_def prog_simps files_work_def
        put_file_def istream_show_int)
qed

theorem test_sync_roundtrip_witness:
  "\<exists>s' h. sync_updateTime (calm_env 3) (TestTimeSync ''/tmp/clock1.txt'') (- 9223372036854775808)
      empty_world = (Inr (TestTimeSync ''/tmp/clock1.txt''), s') \<and>
    sync_getTime (calm_env 3) (TestTimeSync ''/tmp/clock1.txt'') s' =
      (Inr (- 9223372036854775808, TestTimeSync ''/tmp/clock1.txt''), s'\<lparr>w_hist := h\<rparr>)"
  by (rule test_sync_roundtrip)
    (simp_all add: calm_env_files is_ll_def LLONG_MIN_def LLONG_MAX_def)

text \<open>
  A damaged clock file stops the daemon: when it holds a number beyond what \<open>localtime\<close> accepts,
  \<open>getTime\<close> passes the null pointer that \<open>localtime\<close> returns to \<open>strftime\<close>.
\<close>

theorem rdk_getTime_huge_clock:
  fixes s :: "'w world_scheme"
  assumes "files_work env" "version_time s < stored s path" "\<not> localtime_ok env (stored s path)"
  shows "fst (sync_getTime env (RdkDefaultTimeSync path cur) s) = Inl NullPointer"
proof -
  obtain f h where "open_read env path s = (Inr f, s\<lparr>w_hist := h\<rparr>)"
    "(case f of None \<Rightarrow> 0 | Some x \<Rightarrow> istream_ll x) = stored s path"
    using assms(1)
    by (auto simp: open_read_def prog_simps stored_def files_work_def split: option.split)
  with assms show ?thesis
    by (simp add: rdk_getTime_def bindM_run buildtime_run Let_def files_work_def
        strftime_localtime_def throwM_run)
qed

theorem rdk_getTime_huge_clock_witness:
  "fst (sync_getTime (calm_env 3) (RdkDefaultTimeSync ''/opt/clock.txt'' 0)
     (put_file ''/opt/clock.txt'' (show_int 9000000000000000000 @ [newline]) 1 empty_world)) = Inl NullPointer"
proof (rule rdk_getTime_huge_clock)
  have "stored (put_file ''/opt/clock.txt'' (show_int 9000000000000000000 @ [newline]) 1 empty_world)
      ''/opt/clock.txt'' = 9000000000000000000"
    by (simp add: istream_show_int stored_def put_file_def is_ll_def LLONG_MIN_def LLONG_MAX_def)
  then show "version_time (put_file ''/opt/clock.txt'' (show_int 9000000000000000000 @ [newline]) 1 empty_world)
      < stored (put_file ''/opt/clock.txt'' (show_int 9000000000000000000 @ [newline]) 1 empty_world) ''/opt/clock.txt''"
    and "\<not> localtime_ok (calm_env 3) (stored (put_file ''/opt/clock.txt''
      (show_int 9000000000000000000 @ [newline]) 1 empty_world) ''/opt/clock.txt'')"
    by (simp_all add: version_time_def put_file_def empty_world_def calm_env_def)
qed (simp add: calm_env_files)

text \<open>
  C39: The secure clock of the manufacturer library is 32 bits wide. Without IARM the library is handed
  the four bytes at the address of a 64-bit time. On a little-endian machine they are the time modulo
  two to the 32, so the time itself up to the year 2106 and the same value for two times that differ
  by that period; on a big-endian machine they are its upper half, which is zero for every time up to
  that year.
\<close>

theorem tee_time_truncated:
  fixes s :: "'w world_scheme"
  assumes "\<not> ENABLE_IARM env" "localtime_ok env t"
    and "\<And>h w. ret_code env h (MfrSetSecureTime w) = mfrERR_NONE env"
  shows "\<exists>w. sync_updateTime env TeeTimeSync t s =
      (Inr TeeTimeSync, s\<lparr>w_hist := w_hist s @ [(MfrSetSecureTime w, mfrERR_NONE env)]\<rparr>) \<and>
    uint w = (if LITTLE_ENDIAN env then t else t div 2 ^ 32) mod 2 ^ 32 \<and>
    (0 \<le> t \<and> t < 2 ^ 32 \<longrightarrow> uint w = (if LITTLE_ENDIAN env then t else 0))"
proof -
  define w :: "32 word" where "w = word_of_int (load_bytes env (take 4 (store_bytes env 8 t)))"
  have w: "uint w = (if LITTLE_ENDIAN env then t else t div 2 ^ 32) mod 2 ^ 32"
    by (simp add: w_def first_half uint_word_of_int)
  moreover have "uint w = (if LITTLE_ENDIAN env then t else 0)" if "0 \<le> t" "t < 2 ^ 32"
    using that by (simp add: w)
  moreover have "sync_updateTime env TeeTimeSync t s =
      (Inr TeeTimeSync, s\<lparr>w_hist := w_hist s @ [(MfrSetSecureTime w, mfrERR_NONE env)]\<rparr>)"
    using assms by (simp add: tee_updateTime_def prog_simps strftime_localtime_def w_def)
  ultimately show ?thesis by blast
qed

theorem tee_time_truncated_witness:
  "\<exists>w. sync_updateTime ((calm_env 9)\<lparr>ENABLE_IARM := False\<rparr>) TeeTimeSync 4294967297 empty_world =
      (Inr TeeTimeSync, empty_world\<lparr>w_hist := w_hist empty_world @
         [(MfrSetSecureTime w, mfrERR_NONE ((calm_env 9)\<lparr>ENABLE_IARM := False\<rparr>))]\<rparr>) \<and> uint w = 1"
  using tee_time_truncated [of "(calm_env 9)\<lparr>ENABLE_IARM := False\<rparr>" 4294967297 empty_world]
  by (simp add: calm_env_def)

end
