(* ===== verification/Factory.thy ===== *)
theory Factory
  imports Time_Src Time_Sync
begin

text \<open>
  \<open>systimerfactory/timerfactory.cpp\<close>: the objects named in the configuration file. An unknown
  type, or one the build leaves out, gives the null pointer.
\<close>

definition createTimeSrc :: "env \<Rightarrow> string \<Rightarrow> string \<Rightarrow> timeSrc option" where
  "createTimeSrc env type args =
     (if type = ''ntp'' then Some NtpTimeSrc
      else if type = ''stt'' then Some SttTimeSrc
      else if type = ''regular'' then Some (RegularTimeSrc args)
      else if type = ''drm'' then Some (DrmTimeSrc args)
      else if DTT_ENABLED env \<and> type = ''dtt'' then Some (DttTimeSrc args False False)
      else None)"

definition createTimeSync :: "env \<Rightarrow> string \<Rightarrow> string \<Rightarrow> timeSync option" where
  "createTimeSync env type args =
     (if type = ''test'' then Some (TestTimeSync args)
      else if type = ''rdkdefault'' then Some (RdkDefaultTimeSync ''/opt/secure/clock.txt'' 0)
      else if TEE_ENABLED env \<and> type = ''tee'' then Some TeeTimeSync
      else None)"

text \<open>The types a build knows.\<close>

definition src_types :: "env \<Rightarrow> string set" where
  "src_types env = {''ntp'', ''stt'', ''regular'', ''drm''} \<union> (if DTT_ENABLED env then {''dtt''} else {})"

definition sync_types :: "env \<Rightarrow> string set" where
  "sync_types env = {''test'', ''rdkdefault''} \<union> (if TEE_ENABLED env then {''tee''} else {})"

lemma createTimeSrc_null: "createTimeSrc env type args = None \<longleftrightarrow> type \<notin> src_types env"
  by (auto simp: createTimeSrc_def src_types_def)

lemma createTimeSync_null: "createTimeSync env type args = None \<longleftrightarrow> type \<notin> sync_types env"
  by (auto simp: createTimeSync_def sync_types_def)

text \<open>A new store has room for a thousand million updates (nineteen thousand years of ten-minute ticks).\<close>

lemma createTimeSync_room: "createTimeSync env type args = Some y \<Longrightarrow> n \<le> 1000000000 \<Longrightarrow> sync_room n y"
  by (auto simp: createTimeSync_def sync_room_def time_bound_def split: if_splits)

end
