(* ===== verification/Pub_Sub.thy ===== *)
theory Pub_Sub
  imports World
begin

text \<open>
  Publishing and subscribing: \<open>IPublish\<close> with \<open>TestPublish\<close> and \<open>IarmPublish\<close>, and \<open>ISubscribe\<close> with
  \<open>TestSubscriber\<close>, \<open>IarmTimerStatusSubscriber\<close>, \<open>IarmPowerSubscriber\<close> and
  \<open>IpowerControllerSubscriber\<close> (whose threads are the subject of \<open>Power_Controller\<close>). The static
  pointer \<open>IarmSubscriber::pInstance\<close> aliases an object that the manager also points to, so the
  subscribers live in an explicit store and pointers are indices into it.
\<close>

section \<open>Publishers\<close>

datatype publisher = TestPublish (m_publisher: string) | IarmPublish (m_publisher: string)

text \<open>The constructors of \<open>IarmPublish\<close> and of the IARM subscribers connect to the bus.\<close>

definition iarm_connect :: "env \<Rightarrow> string \<Rightarrow> ('w, unit) io" where
  "iarm_connect env name =
     bindM (call env (IARM_Bus_IsConnected (c_string name))) (\<lambda>r.
       whenM (r \<noteq> IARM_RESULT_SUCCESS)
         (bindM (call env (IARM_Bus_Init (c_string name))) (\<lambda>_.
          bindM (call env IARM_Bus_Connect) (\<lambda>_. ret ()))))"

definition new_IarmPublish :: "env \<Rightarrow> string \<Rightarrow> ('w, publisher) io" where
  "new_IarmPublish env pub = bindM (iarm_connect env pub) (\<lambda>_. ret (IarmPublish pub))"

fun publish :: "env \<Rightarrow> publisher \<Rightarrow> int \<Rightarrow> TimerMsg \<Rightarrow> ('w, unit) io" where
  "publish env (TestPublish pub) event msg = ret ()"
| "publish env (IarmPublish pub) event msg =
     bindM (call env (IARM_Bus_BroadcastEvent (c_string pub) event msg)) (\<lambda>_. ret ())"

definition createPublish :: "env \<Rightarrow> string \<Rightarrow> string \<Rightarrow> ('w, publisher option) io" where
  "createPublish env type args =
     (if type = ''test'' then ret (Some (TestPublish args))
      else if ENABLE_IARM env \<and> type = ''iarm''
      then bindM (new_IarmPublish env args) (\<lambda>p. ret (Some p))
      else ret None)"

section \<open>Subscribers\<close>

text \<open>
  A \<open>funcPtr\<close> is null, one of the two functions the manager registers, or, before it is assigned in
  an object whose constructor does not, indeterminate.
\<close>

datatype funcPtr = NullFn | GetTimeStatusFn | PowerhandlerFn | IndeterminateFn

datatype powerState =
    POWER_STATE_UNKNOWN | POWER_STATE_OFF | POWER_STATE_STANDBY | POWER_STATE_ON
  | POWER_STATE_STANDBY_LIGHT_SLEEP | POWER_STATE_STANDBY_DEEP_SLEEP

record pwr_event =
  currentState :: powerState
  newState :: powerState

datatype subscriber =
    TestSubscriber (m_subscriber: string)
  | IarmTimerStatusSubscriber (m_subscriber: string)
  | IarmPowerSubscriber (m_subscriber: string) (m_powerHandler: funcPtr)
  | IpowerControllerSubscriber (m_subscriber: string) (m_powerHandler: funcPtr)
      (m_pwrEvtQueue: "pwr_event list")

datatype pthread = PwrEvtHandler nat | PwrConnectHandler nat

record bus = world +
  b_subs :: "subscriber list"
  b_pInstance :: "nat option"
  b_threads :: "pthread list"

type_synonym ('w, 'a) bus_io = "('w bus_ext, 'a) io"

definition alloc_sub :: "subscriber \<Rightarrow> ('w, nat) bus_io" where
  "alloc_sub o' = (\<lambda>s. (Inr (length (b_subs s)), s\<lparr>b_subs := b_subs s @ [o']\<rparr>))"

definition put_sub :: "nat \<Rightarrow> subscriber \<Rightarrow> ('w, unit) bus_io" where
  "put_sub i o' = modM (\<lambda>s. s\<lparr>b_subs := (b_subs s)[i := o']\<rparr>)"

text \<open>The base constructor \<open>IarmSubscriber\<close> makes the object the instance.\<close>

definition new_IarmSubscriber :: "subscriber \<Rightarrow> ('w, nat) bus_io" where
  "new_IarmSubscriber o' =
     bindM (alloc_sub o') (\<lambda>i. bindM (modM (\<lambda>s. s\<lparr>b_pInstance := Some i\<rparr>)) (\<lambda>_. ret i))"

definition new_IarmTimerStatusSubscriber :: "env \<Rightarrow> string \<Rightarrow> ('w, nat) bus_io" where
  "new_IarmTimerStatusSubscriber env sub =
     bindM (new_IarmSubscriber (IarmTimerStatusSubscriber sub)) (\<lambda>i.
     bindM (iarm_connect env sub) (\<lambda>_. ret i))"

definition new_IarmPowerSubscriber :: "env \<Rightarrow> string \<Rightarrow> ('w, nat) bus_io" where
  "new_IarmPowerSubscriber env sub =
     bindM (new_IarmSubscriber (IarmPowerSubscriber sub NullFn)) (\<lambda>i.
     bindM (iarm_connect env sub) (\<lambda>_. ret i))"

definition new_IpowerControllerSubscriber :: "string \<Rightarrow> ('w, nat) bus_io" where
  "new_IpowerControllerSubscriber sub =
     new_IarmSubscriber (IpowerControllerSubscriber sub IndeterminateFn [])"

definition createSubscriber :: "env \<Rightarrow> string \<Rightarrow> string \<Rightarrow> string \<Rightarrow> ('w, nat option) bus_io" where
  "createSubscriber env type args subtype =
     (if type = ''test'' then bindM (alloc_sub (TestSubscriber args)) (\<lambda>i. ret (Some i))
      else if ENABLE_IARM env \<and> type = ''iarm''
      then (if TIMER_STATUS_MSG = subtype
            then bindM (new_IarmTimerStatusSubscriber env args) (\<lambda>i. ret (Some i))
            else if POWER_CHANGE_MSG = subtype
            then (if PWRMGRPLUGIN_ENABLED env
                  then bindM (new_IpowerControllerSubscriber args) (\<lambda>i. ret (Some i))
                  else bindM (new_IarmPowerSubscriber env args) (\<lambda>i. ret (Some i)))
            else ret None)
      else ret None)"

subsection \<open>subscribe\<close>

text \<open>Starting a thread: the constructor of \<open>std::thread\<close> throws when it cannot.\<close>

definition start_thread :: "env \<Rightarrow> string \<Rightarrow> ('w, unit) io" where
  "start_thread env name =
     bindM (call env (Thread_create name)) (\<lambda>r.
       if r = 0 then ret () else throwM (Std_exception ''system_error''))"

definition timerstatus_subscribe :: "env \<Rightarrow> string \<Rightarrow> funcPtr \<Rightarrow> ('w, bool) bus_io" where
  "timerstatus_subscribe env eventname fptr =
     (if TIMER_STATUS_MSG = eventname
      then bindM (call env (IARM_Bus_RegisterCall (c_string eventname))) (\<lambda>r. ret (r \<noteq> 0))
      else ret False)"

definition iarmpower_subscribe :: "env \<Rightarrow> nat \<Rightarrow> string \<Rightarrow> string \<Rightarrow> funcPtr \<Rightarrow> ('w, bool) bus_io" where
  "iarmpower_subscribe env i sub eventname fptr =
     (if POWER_CHANGE_MSG = eventname
      then bindM (put_sub i (IarmPowerSubscriber sub fptr)) (\<lambda>_.
           bindM (call env IARM_Bus_RegisterEventHandler) (\<lambda>r. ret (r \<noteq> 0)))
      else ret False)"

text \<open>\<open>sysTimeMgrInitPwrEvt\<close>: start the thread that handles the queued events.\<close>

definition sysTimeMgrInitPwrEvt :: "env \<Rightarrow> nat \<Rightarrow> ('w, unit) bus_io" where
  "sysTimeMgrInitPwrEvt env i =
     bindM (start_thread env ''sysTimeMgrPwrEventHandlingThreadFunc'') (\<lambda>_.
       modM (\<lambda>s. s\<lparr>b_threads := b_threads s @ [PwrEvtHandler i]\<rparr>))"

definition ipower_subscribe ::
    "env \<Rightarrow> nat \<Rightarrow> string \<Rightarrow> pwr_event list \<Rightarrow> string \<Rightarrow> funcPtr \<Rightarrow> ('w, bool) bus_io" where
  "ipower_subscribe env i sub q eventname fptr =
     (if POWER_CHANGE_MSG = eventname
      then bindM (call env PowerController_Init) (\<lambda>_.
           bindM (sysTimeMgrInitPwrEvt env i) (\<lambda>_.
           bindM (put_sub i (IpowerControllerSubscriber sub fptr q)) (\<lambda>_.
           bindM (call env PowerController_Connect) (\<lambda>c.
             if POWER_CONTROLLER_ERROR_NONE = c
             then bindM (call env PowerController_RegisterPowerModeChangedCallback) (\<lambda>r.
                  ret (POWER_CONTROLLER_ERROR_NONE = r))
             else bindM (start_thread env ''sysTimeMgrPwrConnectHandlingThreadFunc'') (\<lambda>_.
                  bindM (modM (\<lambda>s. s\<lparr>b_threads := b_threads s @ [PwrConnectHandler i]\<rparr>)) (\<lambda>_.
                  ret True))))))
      else ret False)"

text \<open>The virtual function, through a pointer.\<close>

definition subscribe :: "env \<Rightarrow> nat option \<Rightarrow> string \<Rightarrow> funcPtr \<Rightarrow> ('w, bool) bus_io" where
  "subscribe env p eventname fptr =
     bindM (getM (\<lambda>s. case p of None \<Rightarrow> None
              | Some i \<Rightarrow> if i < length (b_subs s) then Some (i, b_subs s ! i) else None)) (\<lambda>o'.
     deref o' (\<lambda>(i, obj). case obj of
         TestSubscriber _ \<Rightarrow> ret True
       | IarmTimerStatusSubscriber _ \<Rightarrow> timerstatus_subscribe env eventname fptr
       | IarmPowerSubscriber sub _ \<Rightarrow> iarmpower_subscribe env i sub eventname fptr
       | IpowerControllerSubscriber sub _ q \<Rightarrow> ipower_subscribe env i sub q eventname fptr))"

subsection \<open>Power events\<close>

text \<open>
  A call through a \<open>funcPtr\<close>: \<open>fns\<close> gives the meaning of the functions, a message as their
  argument.
\<close>

definition invoke_fn :: "(funcPtr \<Rightarrow> string \<Rightarrow> ('w, unit) bus_io) \<Rightarrow> funcPtr \<Rightarrow> string \<Rightarrow> ('w, unit) bus_io" where
  "invoke_fn fns f msg =
     (if f = NullFn then ret ()
      else if f = IndeterminateFn then throwM IndeterminateRead
      else fns f msg)"

text \<open>\<open>dynamic_cast<IarmPowerSubscriber*>(IarmSubscriber::getInstance())\<close>: its handler.\<close>

definition iarm_power_instance :: "'w bus_scheme \<Rightarrow> funcPtr option" where
  "iarm_power_instance s = (case b_pInstance s of None \<Rightarrow> None
     | Some i \<Rightarrow> (if i < length (b_subs s)
         then (case b_subs s ! i of IarmPowerSubscriber _ f \<Rightarrow> Some f | _ \<Rightarrow> None) else None))"

definition powereventHandler ::
    "(funcPtr \<Rightarrow> string \<Rightarrow> ('w, unit) bus_io) \<Rightarrow> env \<Rightarrow> int \<Rightarrow> pwr_event \<Rightarrow> ('w, unit) bus_io" where
  "powereventHandler fns env eventId param =
     (if IARM_BUS_PWRMGR_EVENT_MODECHANGED env \<noteq> eventId then ret ()
      else bindM (getM iarm_power_instance) (\<lambda>instance. case instance of
          None \<Rightarrow> ret ()
        | Some f \<Rightarrow>
            (if newState param = POWER_STATE_OFF \<or> newState param = POWER_STATE_STANDBY_DEEP_SLEEP
             then invoke_fn fns f ''DEEP_SLEEP_ON''
             else if currentState param = POWER_STATE_STANDBY_DEEP_SLEEP \<and>
                     (newState param = POWER_STATE_ON \<or>
                      newState param = POWER_STATE_STANDBY_LIGHT_SLEEP \<or>
                      newState param = POWER_STATE_STANDBY)
             then invoke_fn fns f ''DEEP_SLEEP_OFF''
             else ret ())))"

text \<open>\<open>dynamic_cast<IpowerControllerSubscriber*>(IarmSubscriber::getInstance())\<close>.\<close>

definition ipower_instance :: "'w bus_scheme \<Rightarrow> (nat \<times> string \<times> funcPtr \<times> pwr_event list) option" where
  "ipower_instance s = (case b_pInstance s of None \<Rightarrow> None
     | Some i \<Rightarrow> (if i < length (b_subs s)
         then (case b_subs s ! i of IpowerControllerSubscriber sub f q \<Rightarrow> Some (i, sub, f, q) | _ \<Rightarrow> None)
         else None))"

definition sysTimeMgrHandlePwrEventData ::
    "(funcPtr \<Rightarrow> string \<Rightarrow> ('w, unit) bus_io) \<Rightarrow> powerState \<Rightarrow> powerState \<Rightarrow> ('w, unit) bus_io" where
  "sysTimeMgrHandlePwrEventData fns cur new =
     bindM (getM ipower_instance) (\<lambda>instance. case instance of
         None \<Rightarrow> ret ()
       | Some (i, sub, f, q) \<Rightarrow>
           (case new of
              POWER_STATE_OFF \<Rightarrow> invoke_fn fns f ''DEEP_SLEEP_ON''
            | POWER_STATE_STANDBY_DEEP_SLEEP \<Rightarrow> invoke_fn fns f ''DEEP_SLEEP_ON''
            | POWER_STATE_UNKNOWN \<Rightarrow> ret ()
            | _ \<Rightarrow> if cur = POWER_STATE_STANDBY_DEEP_SLEEP
                   then invoke_fn fns f ''DEEP_SLEEP_OFF'' else ret ()))"

section \<open>Frame conditions\<close>

lemma keeps_iarm_connect [keeps_intros]:
  "(\<And>s c r. \<not> visible c \<Longrightarrow> p (s\<lparr>w_hist := w_hist s @ [(c, r)]\<rparr>) = p s) \<Longrightarrow> keeps p (iarm_connect env name)"
  unfolding iarm_connect_def by (intro keeps_intros | simp)+

lemma keeps_publish [keeps_intros]:
  "(\<And>s h. p (s\<lparr>w_hist := h\<rparr>) = p s) \<Longrightarrow> keeps p (publish env x event msg)"
  by (cases x) (auto intro!: keeps_intros)

lemma keeps_createPublish [keeps_intros]:
  "(\<And>s c r. \<not> visible c \<Longrightarrow> p (s\<lparr>w_hist := w_hist s @ [(c, r)]\<rparr>) = p s) \<Longrightarrow> keeps p (createPublish env type args)"
  unfolding createPublish_def new_IarmPublish_def by (intro keeps_intros | simp)+

lemma keeps_start_thread [keeps_intros]:
  "(\<And>s c r. \<not> visible c \<Longrightarrow> p (s\<lparr>w_hist := w_hist s @ [(c, r)]\<rparr>) = p s) \<Longrightarrow> keeps p (start_thread env name)"
  unfolding start_thread_def by (intro keeps_intros | simp)+

lemma keeps_subs [keeps_intros]:
  assumes "\<And>s c r. \<not> visible c \<Longrightarrow> p (s\<lparr>w_hist := w_hist s @ [(c, r)]\<rparr>) = p s" "\<And>s x. p (s\<lparr>b_subs := x\<rparr>) = p s"
    "\<And>s x. p (s\<lparr>b_pInstance := x\<rparr>) = p s" "\<And>s x. p (s\<lparr>b_threads := x\<rparr>) = p s"
  shows "keeps p (createSubscriber env type args subtype)" "keeps p (subscribe env i name fptr)"
proof -
  have new: "keeps p (alloc_sub o')" "keeps p (put_sub i o')" "keeps p (new_IarmSubscriber o')" for i o'
    unfolding new_IarmSubscriber_def alloc_sub_def put_sub_def
    by (auto simp: keeps_def assms prog_simps)
  show "keeps p (createSubscriber env type args subtype)"
    unfolding createSubscriber_def new_IarmTimerStatusSubscriber_def
      new_IarmPowerSubscriber_def new_IpowerControllerSubscriber_def
    by (intro keeps_intros new assms | simp)+
  have "keeps p (case obj of TestSubscriber _ \<Rightarrow> ret True
       | IarmTimerStatusSubscriber _ \<Rightarrow> timerstatus_subscribe env name fptr
       | IarmPowerSubscriber sub _ \<Rightarrow> iarmpower_subscribe env i sub name fptr
       | IpowerControllerSubscriber sub _ q \<Rightarrow> ipower_subscribe env i sub q name fptr)" for obj i
    by (cases obj)
      (auto simp: timerstatus_subscribe_def iarmpower_subscribe_def ipower_subscribe_def
        sysTimeMgrInitPwrEvt_def intro!: keeps_intros new assms)
  then show "keeps p (subscribe env i name fptr)"
    unfolding subscribe_def by (intro keeps_intros)
qed

section \<open>Properties\<close>

text \<open>What either power back end should do with an event: the message it passes on, if any.\<close>

definition power_message :: "powerState \<Rightarrow> powerState \<Rightarrow> string option" where
  "power_message cur new =
     (if new \<in> {POWER_STATE_OFF, POWER_STATE_STANDBY_DEEP_SLEEP} then Some ''DEEP_SLEEP_ON''
      else if cur = POWER_STATE_STANDBY_DEEP_SLEEP \<and> new \<noteq> POWER_STATE_UNKNOWN
      then Some ''DEEP_SLEEP_OFF'' else None)"

lemma powereventHandler_run:
  "iarm_power_instance s = Some f \<Longrightarrow>
   powereventHandler fns env (IARM_BUS_PWRMGR_EVENT_MODECHANGED env) ev s =
     (case power_message (currentState ev) (newState ev) of None \<Rightarrow> (Inr (), s) | Some m \<Rightarrow> invoke_fn fns f m s)"
  by (cases "newState ev") (simp_all add: powereventHandler_def power_message_def prog_simps)

lemma sysTimeMgrHandlePwrEventData_run:
  "ipower_instance s = Some (i, sub, f, q) \<Longrightarrow>
   sysTimeMgrHandlePwrEventData fns cur new s =
     (case power_message cur new of None \<Rightarrow> (Inr (), s) | Some m \<Rightarrow> invoke_fn fns f m s)"
  by (cases new) (simp_all add: sysTimeMgrHandlePwrEventData_def power_message_def prog_simps)

text \<open>
  C26: The two power back ends agree. For every pair of power states, the IARM event handler and
  the power-controller event handler, each with its own subscriber as the instance, do the same:
  they pass \<open>DEEP_SLEEP_ON\<close> to the registered function when the device goes off or into deep
  sleep, \<open>DEEP_SLEEP_OFF\<close> when it leaves deep sleep, and nothing otherwise.
\<close>

theorem power_backends_agree:
  assumes "iarm_power_instance s = Some f" "ipower_instance t = Some (i, sub, g, q)"
  shows "powereventHandler fns env (IARM_BUS_PWRMGR_EVENT_MODECHANGED env)
      \<lparr>currentState = cur, newState = new\<rparr> s =
    (case power_message cur new of None \<Rightarrow> (Inr (), s) | Some m \<Rightarrow> invoke_fn fns f m s) \<and>
    sysTimeMgrHandlePwrEventData fns cur new t =
    (case power_message cur new of None \<Rightarrow> (Inr (), t) | Some m \<Rightarrow> invoke_fn fns g m t)"
  using powereventHandler_run [OF assms(1)] sysTimeMgrHandlePwrEventData_run [OF assms(2)] by simp

definition bus_with :: "subscriber \<Rightarrow> bus" where
  "bus_with o' = \<lparr>w_fs = (\<lambda>_. None), w_hist = [], w_touched = [], b_subs = [o'],
     b_pInstance = Some 0, b_threads = []\<rparr>"

theorem power_backends_agree_witness:
  "powereventHandler (\<lambda>_ _. ret ()) (calm_env 1) (IARM_BUS_PWRMGR_EVENT_MODECHANGED (calm_env 1))
      \<lparr>currentState = POWER_STATE_STANDBY_DEEP_SLEEP, newState = POWER_STATE_ON\<rparr>
      (bus_with (IarmPowerSubscriber ''x'' PowerhandlerFn)) =
    (case power_message POWER_STATE_STANDBY_DEEP_SLEEP POWER_STATE_ON of
        None \<Rightarrow> (Inr (), bus_with (IarmPowerSubscriber ''x'' PowerhandlerFn))
      | Some m \<Rightarrow> invoke_fn (\<lambda>_ _. ret ()) PowerhandlerFn m
          (bus_with (IarmPowerSubscriber ''x'' PowerhandlerFn))) \<and>
    sysTimeMgrHandlePwrEventData (\<lambda>_ _. ret ()) POWER_STATE_STANDBY_DEEP_SLEEP POWER_STATE_ON
      (bus_with (IpowerControllerSubscriber ''x'' PowerhandlerFn [])) =
    (case power_message POWER_STATE_STANDBY_DEEP_SLEEP POWER_STATE_ON of
        None \<Rightarrow> (Inr (), bus_with (IpowerControllerSubscriber ''x'' PowerhandlerFn []))
      | Some m \<Rightarrow> invoke_fn (\<lambda>_ _. ret ()) PowerhandlerFn m
          (bus_with (IpowerControllerSubscriber ''x'' PowerhandlerFn [])))"
  by (rule power_backends_agree) (simp_all add: bus_with_def iarm_power_instance_def ipower_instance_def)

text \<open>
  The result of the IARM registrations is inverted: both IARM subscribers convert the result
  code of the bus, zero for success, to a truth value, so \<open>subscribe\<close> returns true exactly when
  the registration failed; the power-controller subscriber returns true on success.
\<close>

theorem iarm_subscribe_inverted:
  fixes s :: "'w bus_scheme"
  assumes "i < length (b_subs s)"
    and "b_subs s ! i = IarmTimerStatusSubscriber sub \<and> name = TIMER_STATUS_MSG \<and>
           c = IARM_Bus_RegisterCall name \<or>
         b_subs s ! i = IarmPowerSubscriber sub f \<and> name = POWER_CHANGE_MSG \<and>
           c = IARM_Bus_RegisterEventHandler"
  shows "fst (subscribe env (Some i) name fptr s) =
    Inr (ret_code env (w_hist s) c \<noteq> IARM_RESULT_SUCCESS)"
proof -
  have "c_string TIMER_STATUS_MSG = TIMER_STATUS_MSG" by code_simp
  with assms show ?thesis
    by (auto simp: subscribe_def deref_def timerstatus_subscribe_def iarmpower_subscribe_def
        put_sub_def prog_simps IARM_RESULT_SUCCESS_def)
qed

theorem iarm_subscribe_inverted_witness:
  "fst (subscribe (calm_env 1) (Some 0) POWER_CHANGE_MSG PowerhandlerFn
      (bus_with (IarmPowerSubscriber ''x'' NullFn))) =
    Inr (ret_code (calm_env 1) (w_hist (bus_with (IarmPowerSubscriber ''x'' NullFn)))
      IARM_Bus_RegisterEventHandler \<noteq> IARM_RESULT_SUCCESS)"
  by (rule iarm_subscribe_inverted) (simp_all add: bus_with_def)

end
