(* ===== verification/Network_Status.thy ===== *)
theory Network_Status
  imports Pub_Sub
begin

text \<open>
  The network status source (\<open>systimerfactory/networkstatussrc.cpp\<close>): the callback that Thunder
  invokes when the internet status changes, the thread that handles a new connection by driving
  chrony, the thread that subscribes to the event, and the destructor. The file-scope variables
  and the shared state behind its mutex are one record. The two threads, the callback and the
  destructor interleave at the granularity of the critical sections; both threads sleep on the one
  condition variable, and each notification wakes the sleepers that it wakes in the program.
\<close>

section \<open>State\<close>

record net = bus +
  lastStatus :: string
  internetUpPending :: bool
  stopProcessing :: bool
  thunder_client :: bool
  m_networkeventsubscribed :: bool

type_synonym ('w, 'a) net_io = "('w net_ext, 'a) bus_io"

definition OFFSET_STEP_THRESHOLD_S :: dbl where
  "OFFSET_STEP_THRESHOLD_S = Fin 1 0"

section \<open>Driving chrony\<close>

definition chrony_active_cmd :: string where
  "chrony_active_cmd = ''/bin/systemctl is-active --quiet chronyd.service''"

text \<open>The first synchronisation is pending (cases A, B and C of the source).\<close>

definition first_sync_pending :: "env \<Rightarrow> ('w, unit) io" where
  "first_sync_pending env =
     bindM (call env (V_secure_system chrony_active_cmd)) (\<lambda>chronyActive.
       if chronyActive \<noteq> 0 then ret ()
       else bindM (call_int env Chronyctl_get_source_count) (\<lambda>(srcCountRet, srcCount).
         if srcCountRet \<noteq> CHRONYCTL_SUCCESS then ret ()
         else if 0 < srcCount then ret ()
         else bindM (call env Chronyctl_online) (\<lambda>_. ret ())))"

text \<open>The clock was synchronised before: step it only on a synchronised, distant reference.\<close>

definition resync :: "env \<Rightarrow> ('w, unit) io" where
  "resync env =
     bindM (call_int env Chronyctl_has_selectable_source) (\<lambda>(selRet, hasSelectable).
       if \<not> (selRet = CHRONYCTL_SUCCESS \<and> hasSelectable \<noteq> 0)
       then bindM (call env (Chronyctl_burst 4 6)) (\<lambda>_.
            bindM (call env (Chronyctl_waitsync 20 1)) (\<lambda>waitRet.
              if waitRet \<noteq> CHRONYCTL_SUCCESS then ret ()
              else bindM (call env Chronyctl_makestep) (\<lambda>_. ret ())))
       else bindM (call_dbl env Chronyctl_get_system_time_offset) (\<lambda>(offRet, off).
            let offset = (if offRet \<noteq> CHRONYCTL_SUCCESS then Fin 0 0 else off)
            in if dbl_greater (fabs offset) OFFSET_STEP_THRESHOLD_S
               then bindM (call env Chronyctl_makestep) (\<lambda>_. ret ())
               else ret ()))"

definition processInternetOnline :: "env \<Rightarrow> ('w, unit) io" where
  "processInternetOnline env =
     bindM (getM (\<lambda>s. file_exists s ''/tmp/clock-event'')) (\<lambda>firstSyncDone.
       if \<not> firstSyncDone then first_sync_pending env else resync env)"

section \<open>The callback\<close>

text \<open>The parameters of the event: the two labels it looks for.\<close>

record json_params =
  status_label :: "string option"
  internetStatus_label :: "string option"

definition reported_status :: "json_params \<Rightarrow> string" where
  "reported_status params = (case status_label params of Some x \<Rightarrow> x
     | None \<Rightarrow> (case internetStatus_label params of Some x \<Rightarrow> x | None \<Rightarrow> []))"

text \<open>The result says whether the callback ends with \<open>cv.notify_one()\<close>.\<close>

definition handle_internetStatusChange :: "json_params \<Rightarrow> 'w net_scheme \<Rightarrow> bool \<times> 'w net_scheme" where
  "handle_internetStatusChange params s =
     (let normalizedStatus = map tolower (reported_status params);
          prev = lastStatus s;
          s1 = s\<lparr>lastStatus := normalizedStatus\<rparr>
      in if normalizedStatus \<noteq> ''fully_connected'' \<or> normalizedStatus = prev then (False, s1)
         else (True, s1\<lparr>internetUpPending := True\<rparr>))"

section \<open>The event processing thread\<close>

text \<open>
  The critical section of \<open>runEventProcessingLoop\<close> from a test of the condition: \<open>None\<close> when the thread
  goes to sleep on the condition variable, otherwise whether it goes on to process (\<open>False\<close> for the
  \<open>break\<close>).
\<close>

definition await_event :: "'w net_scheme \<Rightarrow> (bool \<times> 'w net_scheme) option" where
  "await_event s =
     (if \<not> internetUpPending s \<and> \<not> stopProcessing s then None
      else if stopProcessing s then Some (False, s)
      else Some (True, s\<lparr>internetUpPending := False\<rparr>))"

section \<open>The subscription thread\<close>

definition NETWORK_MANAGER_CALLSIGN :: string where
  "NETWORK_MANAGER_CALLSIGN = ''org.rdk.NetworkManager''"

text \<open>
  The parts of one iteration of \<open>subscribeToInternetEvent\<close>: the test of the loop and of the stop flag,
  which tells whether the function returns; the creation of the client; the attempt, which tells
  whether it succeeded and the function returns; and a test of the stop flag in the timed wait.
\<close>

definition sub_test :: "('w, bool) net_io" where
  "sub_test =
     bindM (getM m_networkeventsubscribed) (\<lambda>subscribed. if subscribed then ret True else getM stopProcessing)"

definition sub_create :: "('w, unit) net_io" where
  "sub_create = modM (\<lambda>s. s\<lparr>thunder_client := True\<rparr>)"

definition sub_call :: "env \<Rightarrow> ('w, bool) net_io" where
  "sub_call env =
     bindM (getM thunder_client) (\<lambda>client. if \<not> client then ret False else
     bindM (call env (Thunder_Subscribe NETWORK_MANAGER_CALLSIGN ''onInternetStatusChange'')) (\<lambda>r.
       if r = 0
       then bindM (modM (\<lambda>s. s\<lparr>m_networkeventsubscribed := True\<rparr>)) (\<lambda>_. ret True)
       else bindM (modM (\<lambda>s. s\<lparr>thunder_client := False\<rparr>)) (\<lambda>_. ret False)))"

text \<open>
  One iteration, from the test of the loop to the end of the timed wait; it returns whether the
  function returns.
\<close>

definition subscribe_iteration :: "env \<Rightarrow> ('w, bool) net_io" where
  "subscribe_iteration env =
     bindM sub_test (\<lambda>returns. if returns then ret True else
     bindM sub_create (\<lambda>_.
     bindM (sub_call env) (\<lambda>subscribed. if subscribed then ret True else getM stopProcessing)))"

text \<open>The loop, with fuel: \<open>None\<close> when the fuel is used up.\<close>

primrec subscribeToInternetEvent :: "nat \<Rightarrow> env \<Rightarrow> ('w, unit option) net_io" where
  "subscribeToInternetEvent 0 env = ret None"
| "subscribeToInternetEvent (Suc n) env =
     bindM (subscribe_iteration env) (\<lambda>returned.
       if returned then ret (Some ()) else subscribeToInternetEvent n env)"

definition subscribeInternetStatusEvent :: "nat \<Rightarrow> env \<Rightarrow> ('w, unit option) net_io" where
  "subscribeInternetStatusEvent n env =
     bindM (call env (SetEnvironment ''THUNDER_ACCESS'' ''127.0.0.1:9998'')) (\<lambda>_.
       subscribeToInternetEvent n env)"

section \<open>The destructor\<close>

definition stop_network :: "'w net_scheme \<Rightarrow> 'w net_scheme" where
  "stop_network s = s\<lparr>stopProcessing := True\<rparr>"

definition release_client :: "env \<Rightarrow> ('w, unit) net_io" where
  "release_client env =
     bindM (getM thunder_client) (\<lambda>client.
       whenM client
         (bindM (call env (Thunder_Unsubscribe ''onInternetStatusChange'')) (\<lambda>_.
            modM (\<lambda>s. s\<lparr>thunder_client := False\<rparr>))))"

section \<open>The threads together\<close>

text \<open>
  Program points. The event processing thread: about to test the condition with the mutex, asleep on
  the condition variable, processing, or returned. The subscription thread: before its first call,
  about to test, to create the client, to subscribe, to test the stop flag after a failed attempt,
  asleep in the timed wait, or returned. The destructor: not called, or after setting the flag,
  after \<open>notify_all\<close>, and at its end.
\<close>

datatype loop_pc = Net_testing | Net_blocked | Processing | Exited

datatype sub_pc =
  Sub_starting | Sub_testing | Sub_creating | Sub_subscribing | Sub_failed | Sub_blocked | Sub_returned

datatype dtor_pc = Alive | Flagged | Notified | Destroyed

record net_pcs =
  loop_pc :: loop_pc
  sub_pc :: sub_pc
  dtor_pc :: dtor_pc

definition net_pcs0 :: net_pcs where
  "net_pcs0 = \<lparr>loop_pc = Net_testing, sub_pc = Sub_starting, dtor_pc = Alive\<rparr>"

text \<open>
  The condition variable: a sleeper that is woken tests its condition again. \<open>notify_one\<close> wakes one of
  the sleepers, any of them, and is lost when there is none; \<open>notify_all\<close> wakes them all.
\<close>

definition wake_loop :: "net_pcs \<Rightarrow> net_pcs" where
  "wake_loop p = (if loop_pc p = Net_blocked then p\<lparr>loop_pc := Net_testing\<rparr> else p)"

definition wake_sub :: "net_pcs \<Rightarrow> net_pcs" where
  "wake_sub p = (if sub_pc p = Sub_blocked then p\<lparr>sub_pc := Sub_failed\<rparr> else p)"

definition notify_one :: "net_pcs \<Rightarrow> net_pcs list" where
  "notify_one p =
     (let woken = (if loop_pc p = Net_blocked then [wake_loop p] else []) @
                  (if sub_pc p = Sub_blocked then [wake_sub p] else [])
      in if woken = [] then [p] else woken)"

definition notify_all :: "net_pcs \<Rightarrow> net_pcs" where
  "notify_all p = wake_sub (wake_loop p)"

text \<open>
  The steps. The callback holds the mutex until it has notified; the destructor notifies without it.
  Both waits may end spuriously, and the timed one by its timeout.
\<close>

datatype net_label =
    Callback json_params | Block | Take | Leave | Loop_spurious | Process
  | Sub_start | Sub_test | Sub_create | Sub_call | Sub_block | Sub_stop | Sub_spurious | Sub_timeout
  | Stop_flag | Stop_notify | Stop_release

inductive net_step :: "env \<Rightarrow> net_pcs \<times> 'w net_scheme \<Rightarrow> net_label \<Rightarrow> net_pcs \<times> 'w net_scheme \<Rightarrow> bool"
  for env where
  callback: "handle_internetStatusChange params s = (notify, t) \<Longrightarrow>
    p' \<in> set (if notify then notify_one p else [p]) \<Longrightarrow> net_step env (p, s) (Callback params) (p', t)"
| block: "loop_pc p = Net_testing \<Longrightarrow> await_event s = None \<Longrightarrow>
    net_step env (p, s) Block (p\<lparr>loop_pc := Net_blocked\<rparr>, s)"
| take: "loop_pc p = Net_testing \<Longrightarrow> await_event s = Some (True, t) \<Longrightarrow>
    net_step env (p, s) Take (p\<lparr>loop_pc := Processing\<rparr>, t)"
| leave: "loop_pc p = Net_testing \<Longrightarrow> await_event s = Some (False, t) \<Longrightarrow>
    net_step env (p, s) Leave (p\<lparr>loop_pc := Exited\<rparr>, t)"
| loop_spurious: "loop_pc p = Net_blocked \<Longrightarrow> net_step env (p, s) Loop_spurious (wake_loop p, s)"
| process: "loop_pc p = Processing \<Longrightarrow> processInternetOnline env s = (Inr (), t) \<Longrightarrow>
    net_step env (p, s) Process (p\<lparr>loop_pc := Net_testing\<rparr>, t)"
| sub_start: "sub_pc p = Sub_starting \<Longrightarrow>
    call env (SetEnvironment ''THUNDER_ACCESS'' ''127.0.0.1:9998'') s = (Inr r, t) \<Longrightarrow>
    net_step env (p, s) Sub_start (p\<lparr>sub_pc := Sub_testing\<rparr>, t)"
| sub_test: "sub_pc p = Sub_testing \<Longrightarrow> sub_test s = (Inr returns, t) \<Longrightarrow>
    net_step env (p, s) Sub_test (p\<lparr>sub_pc := if returns then Sub_returned else Sub_creating\<rparr>, t)"
| sub_create: "sub_pc p = Sub_creating \<Longrightarrow> sub_create s = (Inr (), t) \<Longrightarrow>
    net_step env (p, s) Sub_create (p\<lparr>sub_pc := Sub_subscribing\<rparr>, t)"
| sub_call: "sub_pc p = Sub_subscribing \<Longrightarrow> sub_call env s = (Inr subscribed, t) \<Longrightarrow>
    net_step env (p, s) Sub_call (p\<lparr>sub_pc := if subscribed then Sub_returned else Sub_failed\<rparr>, t)"
| sub_block: "sub_pc p = Sub_failed \<Longrightarrow> \<not> stopProcessing s \<Longrightarrow>
    net_step env (p, s) Sub_block (p\<lparr>sub_pc := Sub_blocked\<rparr>, s)"
| sub_stop: "sub_pc p = Sub_failed \<Longrightarrow> stopProcessing s \<Longrightarrow>
    net_step env (p, s) Sub_stop (p\<lparr>sub_pc := Sub_returned\<rparr>, s)"
| sub_spurious: "sub_pc p = Sub_blocked \<Longrightarrow> net_step env (p, s) Sub_spurious (wake_sub p, s)"
| sub_timeout: "sub_pc p = Sub_blocked \<Longrightarrow>
    net_step env (p, s) Sub_timeout (p\<lparr>sub_pc := if stopProcessing s then Sub_returned else Sub_testing\<rparr>, s)"
| stop_flag: "dtor_pc p = Alive \<Longrightarrow>
    net_step env (p, s) Stop_flag (p\<lparr>dtor_pc := Flagged\<rparr>, stop_network s)"
| stop_notify: "dtor_pc p = Flagged \<Longrightarrow>
    net_step env (p, s) Stop_notify ((notify_all p)\<lparr>dtor_pc := Notified\<rparr>, s)"
| stop_release: "dtor_pc p = Notified \<Longrightarrow> release_client env s = (Inr (), t) \<Longrightarrow>
    net_step env (p, s) Stop_release (p\<lparr>dtor_pc := Destroyed\<rparr>, t)"

inductive_cases net_stepE: "net_step env c l d"

text \<open>
  The two threads start with the initial values of the file-scope variables. Of Thunder the code
  relies on this: a client calls the function it was given only while the client exists.
\<close>

definition net_start :: "net_pcs \<times> 'w net_scheme \<Rightarrow> bool" where
  "net_start c \<longleftrightarrow> fst c = net_pcs0 \<and> lastStatus (snd c) = [] \<and> \<not> internetUpPending (snd c) \<and>
     \<not> stopProcessing (snd c) \<and> \<not> thunder_client (snd c) \<and> \<not> m_networkeventsubscribed (snd c)"

fun client_calls :: "net_label \<Rightarrow> 'w net_scheme \<Rightarrow> bool" where
  "client_calls (Callback params) s = thunder_client s"
| "client_calls _ s = True"

definition client_step :: "env \<Rightarrow> net_pcs \<times> 'w net_scheme \<Rightarrow> net_label \<Rightarrow> net_pcs \<times> 'w net_scheme \<Rightarrow> bool" where
  "client_step env c l d \<longleftrightarrow> net_step env c l d \<and> client_calls l (snd c)"

section \<open>Frame conditions\<close>

lemma keeps_processInternetOnline [keeps_intros]:
  "(\<And>s c r. \<not> visible c \<Longrightarrow> p (s\<lparr>w_hist := w_hist s @ [(c, r)]\<rparr>) = p s) \<Longrightarrow> keeps p (processInternetOnline env)"
  unfolding processInternetOnline_def first_sync_pending_def resync_def Let_def
  by (intro keeps_intros | simp)+

lemma net_step_keeps:
  assumes "net_step env c l d"
    and "\<And>s c r. \<not> visible c \<Longrightarrow> p (s\<lparr>w_hist := w_hist s @ [(c, r)]\<rparr>) = p s"
    and "\<And>s x. p (s\<lparr>lastStatus := x\<rparr>) = p s" "\<And>s b. p (s\<lparr>internetUpPending := b\<rparr>) = p s"
    and "\<And>s b. p (s\<lparr>stopProcessing := b\<rparr>) = p s" "\<And>s b. p (s\<lparr>thunder_client := b\<rparr>) = p s"
    and "\<And>s b. p (s\<lparr>m_networkeventsubscribed := b\<rparr>) = p s"
  shows "p (snd d) = p (snd c)"
proof -
  have "keeps p (processInternetOnline env)" "keeps p (call env (SetEnvironment a b))" "keeps p sub_test"
    "keeps p sub_create" "keeps p (sub_call env)" "keeps p (release_client env)" for a b
    unfolding sub_test_def sub_create_def sub_call_def release_client_def by (intro keeps_intros assms | simp add: assms)+
  note keep = this [THEN keepsD]
  from assms(1) show ?thesis
    by cases (auto simp: handle_internetStatusChange_def await_event_def stop_network_def Let_def assms(3-) dest: keep
      split: if_splits)
qed

section \<open>The latch\<close>

text \<open>
  What the callback and the thread share, seen abstractly: the last status, whether a rising
  edge is pending, and whether to stop.
\<close>

definition net_abs :: "net_pcs \<times> 'w net_scheme \<Rightarrow> string \<times> bool \<times> bool" where
  "net_abs c = (lastStatus (snd c), internetUpPending (snd c), stopProcessing (snd c))"

definition normalized :: "json_params \<Rightarrow> string" where
  "normalized params = map tolower (reported_status params)"

definition rising :: "string \<Rightarrow> string \<Rightarrow> bool" where
  "rising prev new \<longleftrightarrow> new = ''fully_connected'' \<and> prev \<noteq> ''fully_connected''"

fun net_astep :: "net_label \<Rightarrow> string \<times> bool \<times> bool \<Rightarrow> string \<times> bool \<times> bool" where
  "net_astep (Callback params) (prev, pending, stop) =
     (normalized params, pending \<or> rising prev (normalized params), stop)"
| "net_astep Take (prev, pending, stop) = (prev, False, stop)"
| "net_astep Stop_flag (prev, pending, stop) = (prev, pending, True)"
| "net_astep l a = a"

lemma callback_abs:
  assumes "handle_internetStatusChange params s = (notify, t)"
  shows "lastStatus t = normalized params" "notify = rising (lastStatus s) (normalized params)"
    "internetUpPending t \<longleftrightarrow> internetUpPending s \<or> rising (lastStatus s) (normalized params)" "stopProcessing t = stopProcessing s"
    "thunder_client t = thunder_client s"
  using assms by (auto simp: handle_internetStatusChange_def normalized_def rising_def Let_def split: if_splits)

lemma keeps_latch:
  "keeps (\<lambda>s. (lastStatus s, internetUpPending s, stopProcessing s)) (processInternetOnline env)"
  "keeps (\<lambda>s. (lastStatus s, internetUpPending s, stopProcessing s)) (call env c)"
  "keeps (\<lambda>s. (lastStatus s, internetUpPending s, stopProcessing s)) sub_test"
  "keeps (\<lambda>s. (lastStatus s, internetUpPending s, stopProcessing s)) sub_create"
  "keeps (\<lambda>s. (lastStatus s, internetUpPending s, stopProcessing s)) (sub_call env)"
  "keeps (\<lambda>s. (lastStatus s, internetUpPending s, stopProcessing s)) (release_client env)"
  unfolding sub_test_def sub_create_def sub_call_def release_client_def by (intro keeps_intros | simp)+

lemmas latch_kept = keeps_latch [THEN keepsD]

lemma net_step_abs: "net_step env c l d \<Longrightarrow> net_abs d = net_astep l (net_abs c)"
  by (erule net_step.cases)
    (auto simp: net_abs_def callback_abs await_event_def stop_network_def dest: latch_kept split: if_splits)

interpretation netsim: simulation "\<lambda>_. True" "client_step env" "\<lambda>_. True" net_abs net_astep
  by unfold_locales (auto simp: client_step_def intro: net_step_abs)

lemma pending_survives:
  "Take \<notin> set ls \<Longrightarrow> fst (snd a) \<Longrightarrow> fst (snd (fold net_astep ls a))"
proof (induction ls arbitrary: a)
  case (Cons l ls)
  from Cons.prems have "fst (snd (net_astep l a))"
    by (cases "(l, a)" rule: net_astep.cases) auto
  with Cons show ?case by simp
qed simp

section \<open>Sleepers\<close>

text \<open>
  Who can be asleep. After the destructor has set the flag nobody falls asleep any more, so
  \<open>notify_all\<close> leaves nobody asleep.
\<close>

definition stop_inv :: "net_pcs \<times> 'w net_scheme \<Rightarrow> bool" where
  "stop_inv c \<longleftrightarrow> stopProcessing (snd c) = (dtor_pc (fst c) \<noteq> Alive) \<and>
     (dtor_pc (fst c) \<in> {Notified, Destroyed} \<longrightarrow> loop_pc (fst c) \<noteq> Net_blocked \<and> sub_pc (fst c) \<noteq> Sub_blocked)"

lemma notified_pcs:
  assumes "p' \<in> set (if notify then notify_one p else [p])"
  shows "dtor_pc p' = dtor_pc p" "loop_pc p' = Net_blocked \<Longrightarrow> loop_pc p = Net_blocked"
    "sub_pc p' = Sub_blocked \<Longrightarrow> sub_pc p = Sub_blocked"
    "sub_pc p' \<in> {Sub_failed, Sub_blocked} \<longleftrightarrow> sub_pc p \<in> {Sub_failed, Sub_blocked}"
    "notify \<Longrightarrow> sub_pc p \<noteq> Sub_blocked \<Longrightarrow> loop_pc p' \<noteq> Net_blocked"
  using assms by (auto simp: notify_one_def wake_loop_def wake_sub_def Let_def split: if_splits)

lemma stop_inv_step:
  assumes "net_step env c l d" "stop_inv c"
  shows "stop_inv d"
proof -
  have "stopProcessing (snd d) = (stopProcessing (snd c) \<or> l = Stop_flag)"
    using net_step_abs [OF assms(1)] by (cases l) (auto simp: net_abs_def)
  note stop = this
  from assms(1) show ?thesis
  proof cases
    case (callback params s notify t p' p)
    from notified_pcs(1-3) [OF callback(5)] stop assms(2) show ?thesis
      unfolding callback stop_inv_def by auto
  qed (use stop assms(2) in \<open>auto simp: stop_inv_def await_event_def notify_all_def wake_loop_def wake_sub_def
        split: if_splits\<close>)
qed

text \<open>
  While the client exists, the subscription thread is not asleep; so \<open>notify_one\<close> of a callback reaches
  the event processing thread if that is asleep, which therefore never sleeps on a pending signal.
\<close>

definition wake_inv :: "net_pcs \<times> 'w net_scheme \<Rightarrow> bool" where
  "wake_inv c \<longleftrightarrow> (loop_pc (fst c) = Net_blocked \<longrightarrow> \<not> internetUpPending (snd c)) \<and>
     (sub_pc (fst c) \<in> {Sub_failed, Sub_blocked} \<longrightarrow> \<not> thunder_client (snd c))"

lemma keeps_client:
  "keeps thunder_client (processInternetOnline env)" "keeps thunder_client (call env c)" "keeps thunder_client sub_test"
  unfolding sub_test_def by (intro keeps_intros | simp)+

lemmas client_kept = keeps_client [THEN keepsD]

lemma client_after:
  "sub_call env s = (Inr subscribed, t) \<Longrightarrow> \<not> subscribed \<Longrightarrow> \<not> thunder_client t"
  "release_client env s = (Inr (), t) \<Longrightarrow> \<not> thunder_client t"
  by (auto simp: sub_call_def release_client_def prog_simps split: if_splits)

lemma wake_inv_step:
  assumes "client_step env c l d" "wake_inv c"
  shows "wake_inv d"
proof -
  from assms(1) have step: "net_step env c l d" and calls: "client_calls l (snd c)" by (auto simp: client_step_def)
  have "fst (snd (net_abs d)) = fst (snd (net_astep l (net_abs c)))" by (simp add: net_step_abs [OF step])
  note latch = this
  from step show ?thesis
  proof cases
    case (callback params s notify t p' p)
    then have client: "thunder_client s" "thunder_client t" using calls callback_abs(5) by auto
    have sub: "sub_pc p \<notin> {Sub_failed, Sub_blocked}" using assms(2) client callback(1) by (auto simp: wake_inv_def)
    with notified_pcs(4) [OF callback(5)] have "sub_pc p' \<notin> {Sub_failed, Sub_blocked}" by simp
    moreover have "\<not> internetUpPending t" if blocked: "loop_pc p' = Net_blocked"
    proof -
      from notified_pcs(5) [OF callback(5)] sub blocked have "\<not> notify" by auto
      moreover from notified_pcs(2) [OF callback(5) blocked] assms(2) callback(1) have "\<not> internetUpPending s"
        by (simp add: wake_inv_def)
      ultimately show ?thesis using callback_abs [OF callback(4)] by simp
    qed
    ultimately show ?thesis using callback(3) by (auto simp: wake_inv_def)
  qed (use latch assms(2) in \<open>auto simp: wake_inv_def net_abs_def await_event_def notify_all_def wake_loop_def wake_sub_def
        stop_network_def sub_create_def modM_run dest: client_kept client_after split: if_splits\<close>)
qed

interpretation netstop: invariant_system net_start "net_step env" stop_inv
  by unfold_locales (simp add: net_start_def net_pcs0_def stop_inv_def, rule stop_inv_step)

interpretation netwake: invariant_system net_start "client_step env" wake_inv
  by unfold_locales (simp add: net_start_def net_pcs0_def wake_inv_def, rule wake_inv_step)

section \<open>Properties\<close>

text \<open>
  C12: No connection is lost. In every state that the two threads, the callbacks and the destructor
  reach from the start, provided that Thunder calls back only while the client exists, let a callback
  report the change to \<open>fully_connected\<close> while the last status was another. Then, whatever steps follow, as
  long as the event processing thread has not taken the signal, the signal is pending, the thread is
  not asleep on the condition variable, and when it comes to test its condition it takes the signal
  or, after the destructor has set its flag, leaves.
\<close>

theorem internet_up_not_lost:
  fixes s1 :: "'w net_scheme"
  assumes "reach net_start (client_step env) (p1, s1)" "client_step env (p1, s1) (Callback params) c2"
    and "map tolower (reported_status params) = ''fully_connected''" "lastStatus s1 \<noteq> ''fully_connected''"
    and "run (client_step env) c2 ls (p, s)" "Take \<notin> set ls"
  shows "internetUpPending s \<and> loop_pc p \<noteq> Net_blocked \<and>
    (loop_pc p = Net_testing \<longrightarrow>
       (if stopProcessing s then client_step env (p, s) Leave (p\<lparr>loop_pc := Exited\<rparr>, s)
        else client_step env (p, s) Take (p\<lparr>loop_pc := Processing\<rparr>, s\<lparr>internetUpPending := False\<rparr>)))"
proof -
  have "wake_inv c2" using netwake.step_inv [OF netwake.reach_inv [OF assms(1)] assms(2)] .
  with netwake.run_inv [OF assms(5)] have inv: "wake_inv (p, s)" by blast
  have "fst (snd (net_abs c2))"
    using assms(2-4) net_step_abs [of env "(p1, s1)" "Callback params" c2]
    by (simp add: client_step_def net_abs_def rising_def normalized_def)
  moreover have "net_abs (p, s) = fold net_astep ls (net_abs c2)" by (rule netsim.run_abs [OF assms(5)]) simp
  ultimately have "fst (snd (net_abs (p, s)))" using pending_survives [OF assms(6), of "net_abs c2"] by simp
  then have pending: "internetUpPending s" by (simp add: net_abs_def)
  moreover from inv pending have "loop_pc p \<noteq> Net_blocked" by (simp add: wake_inv_def)
  ultimately show ?thesis
    by (auto simp: client_step_def await_event_def intro: net_step.intros)
qed

definition net0 :: net where
  "net0 = \<lparr>w_fs = (\<lambda>_. None), w_hist = [], w_touched = [], b_subs = [], b_pInstance = None,
     b_threads = [], lastStatus = [], internetUpPending = False, stopProcessing = False,
     thunder_client = False, m_networkeventsubscribed = False\<rparr>"

definition up_params :: json_params where
  "up_params = \<lparr>status_label = None, internetStatus_label = Some ''FULLY_CONNECTED''\<rparr>"

definition down_params :: json_params where
  "down_params = \<lparr>status_label = Some ''no_internet'', internetStatus_label = None\<rparr>"

text \<open>The connection comes up and goes down again while the event processing thread sleeps.\<close>

theorem internet_up_not_lost_witness:
  "\<exists>p s. run (client_step (calm_env 1)) (net_pcs0, net0)
      [Sub_start, Sub_test, Sub_create, Block, Callback up_params, Callback down_params] (p, s) \<and>
    loop_pc p = Net_testing \<and>
    client_step (calm_env 1) (p, s) Take (p\<lparr>loop_pc := Processing\<rparr>, s\<lparr>internetUpPending := False\<rparr>)"
proof -
  have texts: "map tolower (reported_status up_params) = ''fully_connected''"
    "map tolower (reported_status down_params) = ''no_internet''" by code_simp+
  define s1 where "s1 = net0\<lparr>w_hist := [(SetEnvironment ''THUNDER_ACCESS'' ''127.0.0.1:9998'', 0)], thunder_client := True\<rparr>"
  define s2 where "s2 = s1\<lparr>lastStatus := ''fully_connected'', internetUpPending := True\<rparr>"
  define s3 where "s3 = s2\<lparr>lastStatus := ''no_internet''\<rparr>"
  define p0 where "p0 = \<lparr>loop_pc = Net_testing, sub_pc = Sub_subscribing, dtor_pc = Alive\<rparr>"
  define p1 where "p1 = p0\<lparr>loop_pc := Net_blocked\<rparr>"
  have "client_step (calm_env 1) (net_pcs0, net0) Sub_start (net_pcs0\<lparr>sub_pc := Sub_testing\<rparr>, s1\<lparr>thunder_client := False\<rparr>)"
    by (simp add: client_step_def net_step.simps call_run s1_def net0_def net_pcs0_def calm_env_def)
  moreover have "client_step (calm_env 1) (net_pcs0\<lparr>sub_pc := Sub_testing\<rparr>, s1\<lparr>thunder_client := False\<rparr>) Sub_test
      (net_pcs0\<lparr>sub_pc := Sub_creating\<rparr>, s1\<lparr>thunder_client := False\<rparr>)"
    by (auto simp: client_step_def net_step.simps sub_test_def prog_simps s1_def net0_def net_pcs0_def)
  moreover have "client_step (calm_env 1) (net_pcs0\<lparr>sub_pc := Sub_creating\<rparr>, s1\<lparr>thunder_client := False\<rparr>) Sub_create (p0, s1)"
    by (simp add: client_step_def net_step.simps sub_create_def modM_run s1_def net0_def net_pcs0_def p0_def)
  moreover have "client_step (calm_env 1) (p0, s1) Block (p1, s1)"
    by (simp add: client_step_def net_step.simps await_event_def s1_def net0_def p0_def p1_def)
  ultimately have pre: "run (client_step (calm_env 1)) (net_pcs0, net0) [Sub_start, Sub_test, Sub_create, Block] (p1, s1)"
    by (blast intro: run_cons run_nil)
  have up: "client_step (calm_env 1) (p1, s1) (Callback up_params) (p0, s2)"
    using texts by (simp add: client_step_def net_step.simps handle_internetStatusChange_def Let_def notify_one_def
        wake_loop_def p1_def p0_def s2_def s1_def net0_def ex_bool_eq)
  have down: "run (client_step (calm_env 1)) (p0, s2) [Callback down_params] (p0, s3)"
    by (rule run_cons [OF _ run_nil])
      (use texts in \<open>simp add: client_step_def net_step.simps handle_internetStatusChange_def Let_def s3_def s2_def s1_def net0_def ex_bool_eq\<close>)
  have "net_start (net_pcs0, net0)" by (simp add: net_start_def net0_def)
  from run_reach [OF pre reach_init [of net_start, OF this]] have "reach net_start (client_step (calm_env 1)) (p1, s1)" .
  from internet_up_not_lost [OF this up texts(1) _ down]
  have "client_step (calm_env 1) (p0, s3) Take (p0\<lparr>loop_pc := Processing\<rparr>, s3\<lparr>internetUpPending := False\<rparr>)"
    by (simp add: p0_def s3_def s2_def s1_def net0_def)
  moreover have "run (client_step (calm_env 1)) (net_pcs0, net0)
      ([Sub_start, Sub_test, Sub_create, Block] @ [Callback up_params, Callback down_params]) (p0, s3)"
    using run_append [OF pre run_cons [of "client_step (calm_env 1)", OF up down]] .
  ultimately show ?thesis by (intro exI [of _ p0] exI [of _ s3]) (simp add: p0_def)
qed

text \<open>
  The proviso is needed: if a callback could come while the subscription thread sleeps between two
  attempts, \<open>notify_one\<close> could wake that thread and leave the other asleep with the signal pending.
\<close>

theorem notify_one_misdirected:
  assumes "loop_pc p = Net_blocked" "sub_pc p = Sub_blocked" "lastStatus s \<noteq> ''fully_connected''"
    and "map tolower (reported_status params) = ''fully_connected''"
  shows "\<exists>t. net_step env (p, s) (Callback params) (p\<lparr>sub_pc := Sub_failed\<rparr>, t) \<and> internetUpPending t"
  using assms
  by (intro exI [of _ "s\<lparr>lastStatus := ''fully_connected'', internetUpPending := True\<rparr>"])
    (auto simp: handle_internetStatusChange_def Let_def notify_one_def wake_sub_def intro!: net_step.callback [where notify = True])

text \<open>
  C29: The destructor wakes both threads. In every state that the threads, the callbacks and the
  destructor reach from the start, once the destructor has called \<open>notify_all\<close>, neither thread is asleep
  on the condition variable, neither can fall asleep again, and a thread that comes to test its
  condition returns.
\<close>

theorem network_shutdown_wakes:
  fixes s :: "'w net_scheme"
  assumes "reach net_start (net_step env) (p, s)" "dtor_pc p = Notified \<or> dtor_pc p = Destroyed"
  shows "loop_pc p \<noteq> Net_blocked \<and> sub_pc p \<noteq> Sub_blocked \<and>
    (\<nexists>c. net_step env (p, s) Block c) \<and> (\<nexists>c. net_step env (p, s) Sub_block c) \<and>
    (loop_pc p = Net_testing \<longrightarrow> net_step env (p, s) Leave (p\<lparr>loop_pc := Exited\<rparr>, s)) \<and>
    (sub_pc p = Sub_testing \<longrightarrow> net_step env (p, s) Sub_test (p\<lparr>sub_pc := Sub_returned\<rparr>, s)) \<and>
    (sub_pc p = Sub_failed \<longrightarrow> net_step env (p, s) Sub_stop (p\<lparr>sub_pc := Sub_returned\<rparr>, s))"
proof -
  from netstop.reach_inv [OF assms(1)] assms(2)
  have "stopProcessing s" "loop_pc p \<noteq> Net_blocked" "sub_pc p \<noteq> Sub_blocked" by (auto simp: stop_inv_def)
  then show ?thesis
    by (auto simp: net_step.simps await_event_def sub_test_def prog_simps)
qed

text \<open>A shutdown while the event processing thread sleeps.\<close>

theorem network_shutdown_wakes_witness:
  "\<exists>p s. run (net_step (calm_env 1)) (net_pcs0, net0) [Block, Stop_flag, Stop_notify] (p, s) \<and>
    loop_pc p = Net_testing \<and> net_step (calm_env 1) (p, s) Leave (p\<lparr>loop_pc := Exited\<rparr>, s)"
proof -
  define s1 where "s1 = stop_network net0"
  define p1 where "p1 = net_pcs0\<lparr>dtor_pc := Notified\<rparr>"
  have run: "run (net_step (calm_env 1)) (net_pcs0, net0) [Block, Stop_flag, Stop_notify] (p1, s1)"
    by (rule run_cons [where t = "(net_pcs0\<lparr>loop_pc := Net_blocked\<rparr>, net0)"],
        simp add: net_step.simps await_event_def net0_def net_pcs0_def,
        rule run_cons [where t = "(net_pcs0\<lparr>loop_pc := Net_blocked, dtor_pc := Flagged\<rparr>, s1)"],
        simp add: net_step.simps s1_def net_pcs0_def,
        rule run_cons [where t = "(p1, s1)"],
        simp add: net_step.simps notify_all_def wake_loop_def wake_sub_def p1_def net_pcs0_def, rule run_nil)
  have "net_start (net_pcs0, net0)" by (simp add: net_start_def net0_def)
  from network_shutdown_wakes [OF run_reach [OF run reach_init [of net_start, OF this]]] run show ?thesis
    by (intro exI [of _ p1] exI [of _ s1]) (simp add: p1_def net_pcs0_def)
qed

text \<open>Whether a report of a sequence changes to \<open>fully_connected\<close>.\<close>

fun rises :: "string \<Rightarrow> string list \<Rightarrow> bool" where
  "rises prev [] = False"
| "rises prev (x # xs) \<longleftrightarrow> x = ''fully_connected'' \<and> prev \<noteq> ''fully_connected'' \<or> rises x xs"

text \<open>
  C30: The callback is edge-triggered. After any sequence of status reports the signal is pending
  exactly when it was before or some report in the sequence says \<open>fully_connected\<close> (in any case
  of letters) while the report before it did not; repeated reports do not signal again.
\<close>

theorem callback_edge_triggered:
  "internetUpPending (fold (\<lambda>p s. snd (handle_internetStatusChange p s)) ps s) \<longleftrightarrow>
     internetUpPending s \<or> rises (lastStatus s) (map (\<lambda>p. map tolower (reported_status p)) ps)"
proof (induction ps arbitrary: s)
  case (Cons p ps)
  obtain notify t where "handle_internetStatusChange p s = (notify, t)" by (cases "handle_internetStatusChange p s")
  with Cons [of t] callback_abs [OF this] show ?case by (auto simp: rising_def normalized_def)
qed simp

text \<open>
  C6: When the clock is stepped. Handling a new connection always returns and changes nothing but
  the call history. Chrony is asked to step the clock, once, if the clock was synchronised before and,
  by chrony's answers, either it has a selectable source and the measured offset is larger than one
  second, or it has none (or does not say) and the wait for one, which follows a burst, succeeds;
  in every other case it is not asked.
\<close>

theorem makestep_policy:
  "\<exists>cs. processInternetOnline env s = (Inr (), s\<lparr>w_hist := w_hist s @ cs\<rparr>) \<and>
    count_list (map fst cs) Chronyctl_makestep =
      (let sel = ret_code env (w_hist s) Chronyctl_has_selectable_source;
           h1 = w_hist s @ [(Chronyctl_has_selectable_source, sel)];
           h2 = h1 @ [(Chronyctl_burst 4 6, ret_code env h1 (Chronyctl_burst 4 6))]
       in if file_exists s ''/tmp/clock-event'' \<and>
            (if sel = CHRONYCTL_SUCCESS \<and> out_int env (w_hist s) Chronyctl_has_selectable_source \<noteq> 0
             then ret_code env h1 Chronyctl_get_system_time_offset = CHRONYCTL_SUCCESS \<and>
               dbl_greater (fabs (out_dbl env h1 Chronyctl_get_system_time_offset)) (Fin 1 0)
             else ret_code env h2 (Chronyctl_waitsync 20 1) = CHRONYCTL_SUCCESS)
          then 1 else 0)"
  by (auto simp: processInternetOnline_def first_sync_pending_def resync_def call_int_def call_dbl_def
      prog_simps Let_def CHRONYCTL_SUCCESS_def OFFSET_STEP_THRESHOLD_S_def fabs_def dbl_greater_def)

text \<open>
  C27: When sources are put online. While the first synchronisation is pending, chrony's sources
  are marked online if and only if chronyd is running and has, as it reports successfully, no
  source at all; the clock is never stepped.
\<close>

theorem online_policy:
  assumes "\<not> file_exists s ''/tmp/clock-event''"
  shows "\<exists>cs. processInternetOnline env s = (Inr (), s\<lparr>w_hist := w_hist s @ cs\<rparr>) \<and>
    Chronyctl_makestep \<notin> fst ` set cs \<and>
    (Chronyctl_online \<in> fst ` set cs) =
      (let h = w_hist s @ [(V_secure_system chrony_active_cmd, 0)] in
       ret_code env (w_hist s) (V_secure_system chrony_active_cmd) = 0 \<and>
       ret_code env h Chronyctl_get_source_count = CHRONYCTL_SUCCESS \<and>
       out_int env h Chronyctl_get_source_count \<le> 0)"
  using assms
  by (auto simp: processInternetOnline_def first_sync_pending_def call_int_def prog_simps Let_def
      CHRONYCTL_SUCCESS_def)

theorem online_policy_witness:
  "\<exists>cs. processInternetOnline (calm_env 0) net0 = (Inr (), net0\<lparr>w_hist := w_hist net0 @ cs\<rparr>) \<and>
    Chronyctl_makestep \<notin> fst ` set cs \<and>
    (Chronyctl_online \<in> fst ` set cs) =
      (let h = w_hist net0 @ [(V_secure_system chrony_active_cmd, 0)] in
       ret_code (calm_env 0) (w_hist net0) (V_secure_system chrony_active_cmd) = 0 \<and>
       ret_code (calm_env 0) h Chronyctl_get_source_count = CHRONYCTL_SUCCESS \<and>
       out_int (calm_env 0) h Chronyctl_get_source_count \<le> 0)"
  by (rule online_policy) (simp add: net0_def file_exists_def)

text \<open>The number of attempts to subscribe so far, and what an iteration of the loop does.\<close>

definition subscribe_call :: xcall where
  "subscribe_call = Thunder_Subscribe NETWORK_MANAGER_CALLSIGN ''onInternetStatusChange''"

definition attempts :: "hist \<Rightarrow> nat" where
  "attempts h = length (filter (\<lambda>c. fst c = subscribe_call) h)"

lemma subscribe_iteration_run:
  fixes env s
  assumes "\<not> m_networkeventsubscribed s" "\<not> stopProcessing s"
  defines "r \<equiv> ret_code env (w_hist s) subscribe_call"
  shows "subscribe_iteration env s =
    (Inr (r = 0), s\<lparr>w_hist := w_hist s @ [(subscribe_call, r)], thunder_client := (r = 0),
       m_networkeventsubscribed := (r = 0)\<rparr>)"
  using assms by (simp add: subscribe_iteration_def sub_test_def sub_create_def sub_call_def prog_simps subscribe_call_def)

lemma subscribeToInternetEvent_run:
  fixes s :: "'w net_scheme"
  assumes "\<And>h. k \<le> attempts h \<Longrightarrow> ret_code env h subscribe_call = 0"
    and "\<not> m_networkeventsubscribed s" "\<not> stopProcessing s" "k \<le> attempts (w_hist s) + n"
  shows "\<exists>h. subscribeToInternetEvent (Suc n) env s =
    (Inr (Some ()), s\<lparr>w_hist := h, thunder_client := True, m_networkeventsubscribed := True\<rparr>)"
  using assms(2-)
proof (induction n arbitrary: s)
  case 0
  then show ?case
    using assms(1) by (auto simp: subscribe_iteration_run bindM_run ret_run)
next
  case (Suc n)
  define r where "r = ret_code env (w_hist s) subscribe_call"
  define t where "t = s\<lparr>w_hist := w_hist s @ [(subscribe_call, r)], thunder_client := False,
       m_networkeventsubscribed := False\<rparr>"
  show ?case
  proof (cases "r = 0")
    case True
    with Suc.prems show ?thesis
      by (auto simp: subscribe_iteration_run bindM_run ret_run r_def)
  next
    case False
    with Suc.prems have "subscribeToInternetEvent (Suc (Suc n)) env s = subscribeToInternetEvent (Suc n) env t"
      by (simp add: subscribe_iteration_run bindM_run r_def t_def)
    moreover have "\<exists>h. subscribeToInternetEvent (Suc n) env t =
        (Inr (Some ()), t\<lparr>w_hist := h, thunder_client := True, m_networkeventsubscribed := True\<rparr>)"
      using Suc.prems by (intro Suc.IH) (auto simp: t_def attempts_def)
    ultimately show ?thesis by (auto simp: t_def)
  qed
qed

text \<open>
  C28: The subscription loop ends. If the network manager accepts the subscription from the k-th
  attempt on, then without a shutdown the loop returns within \<open>k + 1\<close> iterations, subscribed and
  with a live client, and with nothing else changed but the call history.
\<close>

theorem subscription_terminates:
  fixes s :: "'w net_scheme"
  assumes "\<And>h. k \<le> attempts h \<Longrightarrow> ret_code env h subscribe_call = 0"
    and "\<not> m_networkeventsubscribed s" "\<not> stopProcessing s"
  shows "\<exists>h. subscribeInternetStatusEvent (Suc k) env s =
    (Inr (Some ()), s\<lparr>w_hist := h, thunder_client := True, m_networkeventsubscribed := True\<rparr>)"
proof -
  let ?c = "SetEnvironment ''THUNDER_ACCESS'' ''127.0.0.1:9998''"
  define t where "t = s\<lparr>w_hist := w_hist s @ [(?c, ret_code env (w_hist s) ?c)]\<rparr>"
  have "\<exists>h. subscribeToInternetEvent (Suc k) env t =
    (Inr (Some ()), t\<lparr>w_hist := h, thunder_client := True, m_networkeventsubscribed := True\<rparr>)"
    using assms by (intro subscribeToInternetEvent_run [where k = k]) (auto simp: t_def)
  then show ?thesis
    by (auto simp: subscribeInternetStatusEvent_def bindM_run call_run t_def
        simp del: subscribeToInternetEvent.simps)
qed

definition late_env :: "nat \<Rightarrow> env" where
  "late_env k = (calm_env 1)\<lparr>ret_code := (\<lambda>h c. if c = subscribe_call \<and> attempts h < k then 2 else 0)\<rparr>"

theorem subscription_terminates_witness:
  "\<exists>h. subscribeInternetStatusEvent (Suc 3) (late_env 3) net0 =
    (Inr (Some ()), net0\<lparr>w_hist := h, thunder_client := True, m_networkeventsubscribed := True\<rparr>)"
  by (rule subscription_terminates) (auto simp: late_env_def net0_def)

end
