(* ===== verification/Sys_Time_Mgr.thy ===== *)
theory Sys_Time_Mgr
  imports Factory Network_Status
begin

text \<open>
  The manager (\<open>systimemgr.h\<close>, \<open>systimemgr.cpp\<close>): its state, construction and initialisation, the
  event handlers and the table that selects them, publishing and queries, and the reaction to
  power changes. Every member function is a program over the manager's record; the threads that
  call them are in \<open>Ntp_Monitor\<close>, \<open>Path_Monitor\<close>, \<open>Mgr_Main\<close> and \<open>Daemon\<close>. A lock guard has no counterpart here: each program is one critical
  section of \<open>g_state_mutex\<close>.
\<close>

section \<open>States and events\<close>

datatype sysTimeMgrState =
    eSYSMGR_STATE_INIT | eSYSMGR_STATE_NTP_WAIT | eSYSMGR_STATE_NTP_FAIL
  | eSYSMGR_STATE_NTP_ACQUIRED | eSYSMGR_STATE_DTT_ACQUIRED
  | eSYSMGR_STATE_SECURE_TIME_ACQUIRED | eSYSMGR_STATE_RUNNING

datatype sysTimeMgrEvent =
    eSYSMGR_EVENT_ADD_TIMESRC | eSYSMGR_EVENT_DELETE_TIMESRC | eSYSMGR_EVENT_ADD_TIMESYNC
  | eSYSMGR_EVENT_DELETE_TIMESSYNC | eSYSMGR_EVENT_TIMER_EXPIRY | eSYSMGR_EVENT_NTP_AVAILABLE
  | eSYSMGR_EVENT_DTT_TIME_AVAILABLE | eSYSMGR_EVENT_SECURE_TIME_AVAILABLE | eSYSMGR_EVENT_UNKNOWN

text \<open>The enumerators' values order the keys of the maps.\<close>

fun state_code :: "sysTimeMgrState \<Rightarrow> nat" where
  "state_code eSYSMGR_STATE_INIT = 0"
| "state_code eSYSMGR_STATE_NTP_WAIT = 1"
| "state_code eSYSMGR_STATE_NTP_FAIL = 2"
| "state_code eSYSMGR_STATE_NTP_ACQUIRED = 3"
| "state_code eSYSMGR_STATE_DTT_ACQUIRED = 4"
| "state_code eSYSMGR_STATE_SECURE_TIME_ACQUIRED = 5"
| "state_code eSYSMGR_STATE_RUNNING = 6"

fun event_code :: "sysTimeMgrEvent \<Rightarrow> nat" where
  "event_code eSYSMGR_EVENT_ADD_TIMESRC = 0"
| "event_code eSYSMGR_EVENT_DELETE_TIMESRC = 1"
| "event_code eSYSMGR_EVENT_ADD_TIMESYNC = 2"
| "event_code eSYSMGR_EVENT_DELETE_TIMESSYNC = 3"
| "event_code eSYSMGR_EVENT_TIMER_EXPIRY = 4"
| "event_code eSYSMGR_EVENT_NTP_AVAILABLE = 5"
| "event_code eSYSMGR_EVENT_DTT_TIME_AVAILABLE = 6"
| "event_code eSYSMGR_EVENT_SECURE_TIME_AVAILABLE = 7"
| "event_code eSYSMGR_EVENT_UNKNOWN = 8"

lemma state_code_inj: "state_code a = state_code b \<longleftrightarrow> a = b"
  by (cases a; cases b) simp_all

lemma event_code_inj: "event_code a = event_code b \<longleftrightarrow> a = b"
  by (cases a; cases b) simp_all

instantiation sysTimeMgrState :: linorder
begin

definition less_eq_sysTimeMgrState :: "sysTimeMgrState \<Rightarrow> sysTimeMgrState \<Rightarrow> bool" where
  "less_eq_sysTimeMgrState a b \<longleftrightarrow> state_code a \<le> state_code b"

definition less_sysTimeMgrState :: "sysTimeMgrState \<Rightarrow> sysTimeMgrState \<Rightarrow> bool" where
  "less_sysTimeMgrState a b \<longleftrightarrow> state_code a < state_code b"

instance
  by standard (auto simp: less_eq_sysTimeMgrState_def less_sysTimeMgrState_def state_code_inj)

end

instantiation sysTimeMgrEvent :: linorder
begin

definition less_eq_sysTimeMgrEvent :: "sysTimeMgrEvent \<Rightarrow> sysTimeMgrEvent \<Rightarrow> bool" where
  "less_eq_sysTimeMgrEvent a b \<longleftrightarrow> event_code a \<le> event_code b"

definition less_sysTimeMgrEvent :: "sysTimeMgrEvent \<Rightarrow> sysTimeMgrEvent \<Rightarrow> bool" where
  "less_sysTimeMgrEvent a b \<longleftrightarrow> event_code a < event_code b"

instance
  by standard (auto simp: less_eq_sysTimeMgrEvent_def less_sysTimeMgrEvent_def event_code_inj)

end

section \<open>The object\<close>

datatype memfunc =
    TimerExpiry | NtpFailed | NtpAquired | DttAquired | UpdateSecureTime | UpdateTime
  | SecureTimeAcquired | UpdateClockRealTime

type_synonym state_table = "(sysTimeMgrState, (sysTimeMgrEvent, memfunc) smap) smap"

record sysTimeMsg =
  q_event :: sysTimeMgrEvent
  q_args :: "TimerMsg option"

text \<open>\<open>mgr_exists\<close> is whether the static \<open>pInstance\<close> is set.\<close>

record mgr = net +
  mgr_exists :: bool
  stateMachine :: state_table
  m_pathEventMap :: "(string, sysTimeMgrEvent) smap"
  m_state :: sysTimeMgrState
  m_event :: sysTimeMgrEvent
  m_timerInterval :: nat
  m_timequality :: qualityOfTime
  m_timerSrc :: "timeSrc option list"
  m_timerSync :: "timeSync option list"
  m_publish :: "publisher option"
  m_subscriber :: "nat option"
  m_tmrsubscriber :: "nat option"
  m_timersrc :: string
  m_cfgfile :: string
  m_chronyRfcEnabled :: bool
  m_queue :: "sysTimeMsg list"

type_synonym ('w, 'a) mgr_io = "('w mgr_ext, 'a) net_io"

definition m_directory :: string where
  "m_directory = ''/tmp/systimemgr''"

definition new_SysTimeMgr :: "string \<Rightarrow> ('w, unit) mgr_io" where
  "new_SysTimeMgr cfgfile =
     bindM (getM (\<lambda>s. file_exists s ''/opt/secure/RFC/chrony/chronyd_enabled'')) (\<lambda>chrony.
     modM (\<lambda>s. s\<lparr>m_state := eSYSMGR_STATE_INIT, m_event := eSYSMGR_EVENT_UNKNOWN,
       m_timerInterval := 600000, m_timequality := eTIMEQUALILTY_UNKNOWN, m_publish := None,
       m_subscriber := None, m_tmrsubscriber := None, m_timersrc := ''Last Known'',
       m_cfgfile := cfgfile, m_chronyRfcEnabled := chrony, stateMachine := [],
       m_pathEventMap := [], m_timerSrc := [], m_timerSync := [], m_queue := []\<rparr>))"

definition get_instance :: "('w, unit) mgr_io" where
  "get_instance =
     bindM (getM mgr_exists) (\<lambda>e.
       whenM (\<not> e) (bindM (new_SysTimeMgr ''/etc/systimemgr.conf'') (\<lambda>_.
         modM (\<lambda>s. s\<lparr>mgr_exists := True\<rparr>))))"

definition destroy_SysTimeMgr :: "env \<Rightarrow> ('w, unit) mgr_io" where
  "destroy_SysTimeMgr env =
     bindM (getM m_chronyRfcEnabled) (\<lambda>chrony.
       whenM chrony (bindM (call env Chronyctl_cleanup) (\<lambda>_. ret ())))"

section \<open>Publishing and queries\<close>

text \<open>The character arrays of a \<open>TimerMsg\<close> on the stack hold whatever was there.\<close>

definition uninitialised :: "env \<Rightarrow> hist \<Rightarrow> nat \<Rightarrow> string" where
  "uninitialised env h k =
     map (\<lambda>i. if i < length (stack_bytes env h) then stack_bytes env h ! i else nul)
       [k * cTIMER_STATUS_MESSAGE_LENGTH ..< Suc k * cTIMER_STATUS_MESSAGE_LENGTH]"

definition put_text :: "string \<Rightarrow> string \<Rightarrow> string" where
  "put_text x buf = snprintf_s cTIMER_STATUS_MESSAGE_LENGTH x buf"

definition zeros :: string where
  "zeros = replicate cTIMER_STATUS_MESSAGE_LENGTH nul"

text \<open>The current time twice, formatted twice for the log.\<close>

definition log_times :: "env \<Rightarrow> ('w, int) io" where
  "log_times env =
     bindM (realtime_seconds env) (\<lambda>timeinSec.
     bindM (time_null env) (\<lambda>monotimeinSec.
     bindM (strftime_localtime env timeinSec) (\<lambda>_.
     bindM (strftime_localtime env monotimeinSec) (\<lambda>_.
     ret timeinSec))))"

definition publishStatus :: "env \<Rightarrow> publishEvent \<Rightarrow> string \<Rightarrow> ('w, unit) mgr_io" where
  "publishStatus env event message =
     bindM (getM (\<lambda>s. (m_timequality s, m_timersrc s, w_hist s))) (\<lambda>(quality, timersrc, h).
     bindM (log_times env) (\<lambda>timeinSec.
     bindM (getM m_publish) (\<lambda>pub.
     deref pub (\<lambda>p. publish env p cTIMER_STATUS_UPDATE
       \<lparr>msg_event = publishEvent_code event, msg_quality = quality_code quality,
        msg_timerSrc = put_text timersrc (uninitialised env h 0),
        msg_currentTime = put_text (show_int timeinSec) (uninitialised env h 1),
        msg_message = put_text message zeros\<rparr>))))"

definition quality_text :: "qualityOfTime \<Rightarrow> string" where
  "quality_text q = (case q of
       eTIMEQUALILTY_POOR \<Rightarrow> ''Poor'' | eTIMEQUALILTY_GOOD \<Rightarrow> ''Good''
     | eTIMEQUALILTY_SECURE \<Rightarrow> ''Secure'' | eTIMEQUALILTY_UNKNOWN \<Rightarrow> ''Unknown'')"

definition getTimeStatus :: "env \<Rightarrow> TimerMsg \<Rightarrow> ('w, TimerMsg) mgr_io" where
  "getTimeStatus env pMsg =
     bindM (getM (\<lambda>s. (m_timequality s, m_timersrc s))) (\<lambda>(quality, timersrc).
     bindM (log_times env) (\<lambda>timeinSec.
     ret (pMsg\<lparr>msg_quality := quality_code quality,
       msg_message := put_text (quality_text quality) zeros,
       msg_timerSrc := put_text timersrc (msg_timerSrc pMsg),
       msg_currentTime := put_text (show_int timeinSec) (msg_currentTime pMsg)\<rparr>)))"

text \<open>The function registered on the bus: the argument points to the caller's message.\<close>

definition static_getTimeStatus :: "env \<Rightarrow> TimerMsg option \<Rightarrow> ('w, int \<times> TimerMsg option) mgr_io" where
  "static_getTimeStatus env args =
     bindM get_instance (\<lambda>_.
     deref args (\<lambda>pMsg. bindM (getTimeStatus env pMsg) (\<lambda>m. ret (0, Some m))))"

section \<open>The event handlers\<close>

definition updateTimeSync :: "env \<Rightarrow> int \<Rightarrow> ('w, unit) mgr_io" where
  "updateTimeSync env t =
     bindM (getM m_timerSync) (\<lambda>ys.
     bindM (mapM (\<lambda>p. deref p (\<lambda>y. bindM (sync_updateTime env y t) (\<lambda>y'. ret (Some y')))) ys) (\<lambda>ys'.
     modM (\<lambda>s. s\<lparr>m_timerSync := ys'\<rparr>)))"

text \<open>One iteration of the loop of \<open>timerExpiry\<close> over the sources.\<close>

definition read_source ::
    "env \<Rightarrow> int \<times> int \<times> timeSrc option list \<Rightarrow> timeSrc option \<Rightarrow>
     ('w, int \<times> int \<times> timeSrc option list) mgr_io" where
  "read_source env = (\<lambda>(reftime, filetime, srcs) p. deref p (\<lambda>src.
     bindM (getTimeSec env src) (\<lambda>(v, src').
       ret (if isreference src then (v, filetime, srcs @ [Some src'])
            else (reftime, if v \<noteq> 0 then v else filetime, srcs @ [Some src'])))))"

definition timerExpiry :: "env \<Rightarrow> ('w, unit) mgr_io" where
  "timerExpiry env =
     bindM (getM m_timerSrc) (\<lambda>ps.
     bindM (foldM (read_source env) (0, 0, []) ps) (\<lambda>(reftime, filetime, ps').
     bindM (modM (\<lambda>s. s\<lparr>m_timerSrc := ps'\<rparr>)) (\<lambda>_.
     bindM (checked_ll (reftime - filetime)) (\<lambda>d.
     updateTimeSync env (if d \<le> 600 then reftime else 0)))))"

definition check_sources :: "env \<Rightarrow> ('w, unit) mgr_io" where
  "check_sources env =
     bindM (getM m_timerSrc) (\<lambda>ps.
     bindM (mapM (\<lambda>p. deref p (\<lambda>src. bindM (checkTime env src) (\<lambda>(_, src'). ret (Some src')))) ps) (\<lambda>ps'.
     modM (\<lambda>s. s\<lparr>m_timerSrc := ps'\<rparr>)))"

definition updateTime :: "env \<Rightarrow> ('w, unit) mgr_io" where
  "updateTime env = bindM (updateTimeSync env 0) (\<lambda>_. check_sources env)"

definition ntpFailed :: "env \<Rightarrow> ('w, unit) mgr_io" where
  "ntpFailed env =
     bindM (updateTimeSync env 0) (\<lambda>_.
     bindM (modM (\<lambda>s. s\<lparr>m_state := eSYSMGR_STATE_NTP_FAIL\<rparr>)) (\<lambda>_.
     publishStatus env ePUBLISH_NTP_FAIL ''Poor''))"

definition ntpAquired :: "env \<Rightarrow> ('w, unit) mgr_io" where
  "ntpAquired env =
     bindM (updateTimeSync env 0) (\<lambda>_.
     bindM (modM (\<lambda>s. s\<lparr>m_timequality := eTIMEQUALILTY_GOOD, m_state := eSYSMGR_STATE_NTP_ACQUIRED,
       m_timersrc := ''NTP''\<rparr>)) (\<lambda>_.
     publishStatus env ePUBLISH_NTP_SUCCESS ''Good''))"

definition updateSecureTime :: "env \<Rightarrow> ('w, unit) mgr_io" where
  "updateSecureTime env =
     bindM (timerExpiry env) (\<lambda>_.
     bindM (modM (\<lambda>s. s\<lparr>m_state := eSYSMGR_STATE_RUNNING, m_timequality := eTIMEQUALILTY_SECURE\<rparr>)) (\<lambda>_.
     publishStatus env ePUBLISH_SECURE_TIME_SUCCESS ''Secure''))"

definition secureTimeAcquired :: "env \<Rightarrow> ('w, unit) mgr_io" where
  "secureTimeAcquired env =
     bindM (updateTimeSync env 0) (\<lambda>_.
     modM (\<lambda>s. s\<lparr>m_timequality := eTIMEQUALILTY_GOOD, m_state := eSYSMGR_STATE_SECURE_TIME_ACQUIRED\<rparr>))"

definition dttAquired :: "env \<Rightarrow> ('w, unit) mgr_io" where
  "dttAquired env =
     bindM (updateTimeSync env 0) (\<lambda>_.
     bindM (modM (\<lambda>s. s\<lparr>m_timequality := eTIMEQUALILTY_GOOD, m_state := eSYSMGR_STATE_DTT_ACQUIRED,
       m_timersrc := ''DTT''\<rparr>)) (\<lambda>_.
     publishStatus env ePUBLISH_DTT_SUCCESS ''Good''))"

text \<open>One iteration of the loop of \<open>updateClockRealTime\<close>: the first clock provider is asked.\<close>

definition read_clock ::
    "env \<Rightarrow> int \<times> bool \<times> timeSrc option list \<Rightarrow> timeSrc option \<Rightarrow>
     ('w, int \<times> bool \<times> timeSrc option list) mgr_io" where
  "read_clock env = (\<lambda>(locTime, clock_acquired, srcs) p. deref p (\<lambda>src.
     bindM (if isclockProvider src \<and> \<not> clock_acquired
            then bindM (getTimeSec env src) (\<lambda>(v, src'). ret (v, True, src'))
            else ret (locTime, clock_acquired, src)) (\<lambda>(locTime', acq', src').
     bindM (checkTime env src') (\<lambda>(_, src'').
     ret (locTime', acq', srcs @ [Some src''])))))"

definition updateClockRealTime :: "env \<Rightarrow> ('w, unit) mgr_io" where
  "updateClockRealTime env =
     bindM (getM m_timerSrc) (\<lambda>ps.
     bindM (foldM (read_clock env) (0, False, []) ps) (\<lambda>(locTime, _, ps').
     bindM (modM (\<lambda>s. s\<lparr>m_timerSrc := ps'\<rparr>)) (\<lambda>_.
     bindM (whenM (locTime \<noteq> 0) (bindM (call env (Clock_settime locTime)) (\<lambda>_. ret ()))) (\<lambda>_.
     updateTimeSync env 0))))"

fun handler :: "env \<Rightarrow> memfunc \<Rightarrow> ('w, unit) mgr_io" where
  "handler env TimerExpiry = timerExpiry env"
| "handler env NtpFailed = ntpFailed env"
| "handler env NtpAquired = ntpAquired env"
| "handler env DttAquired = dttAquired env"
| "handler env UpdateSecureTime = updateSecureTime env"
| "handler env UpdateTime = updateTime env"
| "handler env SecureTimeAcquired = secureTimeAcquired env"
| "handler env UpdateClockRealTime = updateClockRealTime env"

definition runStateMachine :: "env \<Rightarrow> sysTimeMgrEvent \<Rightarrow> ('w, unit) mgr_io" where
  "runStateMachine env event =
     bindM (getM (\<lambda>s. case smap_find (stateMachine s) (m_state s) of
                         None \<Rightarrow> None | Some row \<Rightarrow> smap_find row event)) (\<lambda>f.
       case f of
         None \<Rightarrow> ret ()
       | Some fn \<Rightarrow> bindM (modM (\<lambda>s. s\<lparr>m_event := event\<rparr>)) (\<lambda>_. handler env fn))"

section \<open>Initialisation\<close>

text \<open>
  \<open>setInitialTime\<close> in three parts: setting the clock and reporting how it went, the comparison
  with the real-time clock before it, and the whole.
\<close>

definition step_clock :: "env \<Rightarrow> int \<Rightarrow> ('w, unit) io" where
  "step_clock env locTime =
     bindM (call env (Clock_settime locTime)) (\<lambda>r.
       if r \<noteq> 0
       then t2CountNotify env ''SYST_ERROR_SYSTIME_FAIL'' 1
       else bindM (whenM (\<not> MILESTONE_SUPPORT_DISABLED env)
              (bindM (call env (LogMilestone ''SYSTEM_TIME_SET'')) (\<lambda>_. ret ()))) (\<lambda>_.
            bindM (clock_gettime env) (\<lambda>up. case up of None \<Rightarrow> ret ()
              | Some (sec, nsec) \<Rightarrow>
                  t2ValNotify env ''SYST_INFO_SETSYSTIME_split''
                    (show_int ((sec * 1000 + trunc_div nsec 1000000) mod 2 ^ 64)))))"

definition initial_clock :: "env \<Rightarrow> int \<Rightarrow> ('w, unit) mgr_io" where
  "initial_clock env locTime =
     bindM (clock_gettime env) (\<lambda>ts.
     bindM (case ts of None \<Rightarrow> ret None
            | Some (sec, nsec) \<Rightarrow> bindM (chrono_seconds sec nsec) (\<lambda>t. ret (Some t))) (\<lambda>currenttime.
       if (case currenttime of None \<Rightarrow> False | Some t \<Rightarrow> locTime < t)
       then publishStatus env ePUBLISH_TIME_INITIAL ''Poor''
       else bindM (step_clock env locTime) (\<lambda>_.
            publishStatus env ePUBLISH_TIME_INITIAL ''Poor'')))"

definition setInitialTime :: "env \<Rightarrow> ('w, unit) mgr_io" where
  "setInitialTime env =
     bindM (getM m_timerSync) (\<lambda>ps.
     bindM (foldM (\<lambda>(v, ys) p. deref p (\<lambda>y. bindM (sync_getTime env y) (\<lambda>(v', y').
              ret (v', ys @ [Some y'])))) (0, []) ps) (\<lambda>(locTime, ps').
     bindM (modM (\<lambda>s. s\<lparr>m_timerSync := ps'\<rparr>)) (\<lambda>_.
     bindM (create_stream env ''/tmp/systimeset'') (\<lambda>_.
       if locTime = 0 then ret ()
       else bindM (modM (\<lambda>s. s\<lparr>m_timequality := eTIMEQUALILTY_POOR\<rparr>)) (\<lambda>_.
            initial_clock env locTime)))))"

text \<open>\<open>cfgFile >> category >> type >> objargs\<close>, until one of the three fails.\<close>

definition read_entry :: "string \<Rightarrow> ((string \<times> string \<times> string) \<times> string) option" where
  "read_entry s = (case read_word s of None \<Rightarrow> None
     | Some (category, r1) \<Rightarrow> (case read_word r1 of None \<Rightarrow> None
     | Some (type, r2) \<Rightarrow> (case read_word r2 of None \<Rightarrow> None
     | Some (objargs, r3) \<Rightarrow> Some ((category, type, objargs), r3))))"

lemma read_entry_shorter: "read_entry s = Some (e, r) \<Longrightarrow> length r < length s"
  by (auto simp: read_entry_def split: option.splits dest!: read_word_shorter)

function read_entries :: "string \<Rightarrow> (string \<times> string \<times> string) list" where
  "read_entries s = (case read_entry s of None \<Rightarrow> [] | Some (e, r) \<Rightarrow> e # read_entries r)"
  by pat_completeness auto
termination
  by (relation "measure length") (auto dest: read_entry_shorter)

declare read_entries.simps [simp del]

definition configure :: "env \<Rightarrow> string \<times> string \<times> string \<Rightarrow> ('w, unit) mgr_io" where
  "configure env = (\<lambda>(category, type, objargs).
     if category = ''timesrc''
     then modM (\<lambda>s. s\<lparr>m_timerSrc := m_timerSrc s @ [createTimeSrc env type (m_directory @ objargs)]\<rparr>)
     else if category = ''timesync''
     then modM (\<lambda>s. s\<lparr>m_timerSync := m_timerSync s @ [createTimeSync env type (m_directory @ objargs)]\<rparr>)
     else ret ())"

definition load_config :: "env \<Rightarrow> ('w, unit) mgr_io" where
  "load_config env =
     bindM (getM m_cfgfile) (\<lambda>cfg.
     bindM (open_read env (c_string cfg)) (\<lambda>f. case f of
         None \<Rightarrow> ret ()
       | Some text \<Rightarrow> seqM (map (configure env) (read_entries text))))"

text \<open>The publisher and the two subscribers; the build option selects the type.\<close>

definition connect_bus :: "env \<Rightarrow> ('w, unit) mgr_io" where
  "connect_bus env =
     (let type = (if IARM_SUPPORT_DISABLED env then ''test'' else ''iarm'') in
     bindM (createPublish env type IARM_BUS_SYSTIME_MGR_NAME) (\<lambda>pub.
     bindM (modM (\<lambda>s. s\<lparr>m_publish := pub\<rparr>)) (\<lambda>_.
     bindM (createSubscriber env type IARM_BUS_SYSTIME_MGR_NAME TIMER_STATUS_MSG) (\<lambda>tmr.
     bindM (modM (\<lambda>s. s\<lparr>m_tmrsubscriber := tmr\<rparr>)) (\<lambda>_.
     bindM (createSubscriber env type IARM_BUS_SYSTIME_MGR_NAME POWER_CHANGE_MSG) (\<lambda>pwr.
     bindM (modM (\<lambda>s. s\<lparr>m_subscriber := pwr\<rparr>)) (\<lambda>_.
     bindM (subscribe env tmr TIMER_STATUS_MSG GetTimeStatusFn) (\<lambda>_.
     bindM (subscribe env pwr POWER_CHANGE_MSG PowerhandlerFn) (\<lambda>_. ret ())))))))))"

definition path_events :: "(string, sysTimeMgrEvent) smap \<Rightarrow> (string, sysTimeMgrEvent) smap" where
  "path_events m = fold (\<lambda>(k, v). smap_insert k v)
     [(''ntp'', eSYSMGR_EVENT_NTP_AVAILABLE), (''stt'', eSYSMGR_EVENT_NTP_AVAILABLE),
      (''drm'', eSYSMGR_EVENT_SECURE_TIME_AVAILABLE), (''dtt'', eSYSMGR_EVENT_DTT_TIME_AVAILABLE)] m"

text \<open>\<open>stateMachine[state][event] = f\<close>.\<close>

definition table_set :: "sysTimeMgrState \<times> sysTimeMgrEvent \<times> memfunc \<Rightarrow> state_table \<Rightarrow> state_table" where
  "table_set = (\<lambda>(st, ev, f) m. smap_assign st (smap_assign ev f (smap_index [] m st)) m)"

definition transitions :: "(sysTimeMgrState \<times> sysTimeMgrEvent \<times> memfunc) list" where
  "transitions =
    [(eSYSMGR_STATE_RUNNING, eSYSMGR_EVENT_TIMER_EXPIRY, TimerExpiry),
     (eSYSMGR_STATE_NTP_WAIT, eSYSMGR_EVENT_TIMER_EXPIRY, NtpFailed),
     (eSYSMGR_STATE_NTP_WAIT, eSYSMGR_EVENT_NTP_AVAILABLE, NtpAquired),
     (eSYSMGR_STATE_NTP_WAIT, eSYSMGR_EVENT_SECURE_TIME_AVAILABLE, SecureTimeAcquired),
     (eSYSMGR_STATE_NTP_ACQUIRED, eSYSMGR_EVENT_SECURE_TIME_AVAILABLE, UpdateSecureTime),
     (eSYSMGR_STATE_NTP_ACQUIRED, eSYSMGR_EVENT_TIMER_EXPIRY, UpdateTime),
     (eSYSMGR_STATE_NTP_FAIL, eSYSMGR_EVENT_DTT_TIME_AVAILABLE, DttAquired),
     (eSYSMGR_STATE_NTP_FAIL, eSYSMGR_EVENT_TIMER_EXPIRY, UpdateTime),
     (eSYSMGR_STATE_NTP_FAIL, eSYSMGR_EVENT_NTP_AVAILABLE, NtpAquired),
     (eSYSMGR_STATE_NTP_FAIL, eSYSMGR_EVENT_SECURE_TIME_AVAILABLE, SecureTimeAcquired),
     (eSYSMGR_STATE_DTT_ACQUIRED, eSYSMGR_EVENT_TIMER_EXPIRY, UpdateClockRealTime),
     (eSYSMGR_STATE_DTT_ACQUIRED, eSYSMGR_EVENT_SECURE_TIME_AVAILABLE, SecureTimeAcquired),
     (eSYSMGR_STATE_DTT_ACQUIRED, eSYSMGR_EVENT_NTP_AVAILABLE, NtpAquired),
     (eSYSMGR_STATE_SECURE_TIME_ACQUIRED, eSYSMGR_EVENT_NTP_AVAILABLE, UpdateSecureTime),
     (eSYSMGR_STATE_SECURE_TIME_ACQUIRED, eSYSMGR_EVENT_TIMER_EXPIRY, UpdateTime)]"

definition initialize :: "env \<Rightarrow> ('w, unit) mgr_io" where
  "initialize env =
     bindM (whenM (T2_EVENT_ENABLED env) (bindM (call env T2_init) (\<lambda>_. ret ()))) (\<lambda>_.
     bindM (load_config env) (\<lambda>_.
     bindM (getM m_chronyRfcEnabled) (\<lambda>chrony.
     bindM (whenM chrony (bindM (call env Chronyctl_init) (\<lambda>_. ret ()))) (\<lambda>_.
     bindM (connect_bus env) (\<lambda>_.
     bindM (modM (\<lambda>s. s\<lparr>m_pathEventMap := path_events (m_pathEventMap s)\<rparr>)) (\<lambda>_.
     bindM (setInitialTime env) (\<lambda>_.
     modM (\<lambda>s. s\<lparr>stateMachine := fold table_set transitions (stateMachine s),
       m_state := eSYSMGR_STATE_NTP_WAIT\<rparr>))))))))"

section \<open>Power changes\<close>

definition deepsleepon :: "('w, unit) mgr_io" where
  "deepsleepon = ret ()"

text \<open>The commands after the critical section of \<open>deepsleepoff\<close>.\<close>

definition restart_timesync :: "env \<Rightarrow> ('w, unit) io" where
  "restart_timesync env =
     bindM (call env (V_secure_system ''/bin/systemctl is-active --quiet systemd-timesyncd.service'')) (\<lambda>r.
       if r = 0
       then bindM (call env (V_secure_system ''/bin/systemctl reset-failed systemd-timesyncd.service'')) (\<lambda>_.
            bindM (call env (V_secure_system ''/bin/systemctl restart systemd-timesyncd.service'')) (\<lambda>_.
            ret ()))
       else bindM (call env (V_secure_system chrony_active_cmd)) (\<lambda>r2.
         if r2 = 0
         then bindM (call env (Chronyctl_burst 4 6)) (\<lambda>_.
              bindM (call env (Chronyctl_waitsync 20 1)) (\<lambda>_.
              bindM (call env Chronyctl_makestep) (\<lambda>_. ret ())))
         else ret ()))"

definition deepsleepoff_locked :: "env \<Rightarrow> ('w, unit) mgr_io" where
  "deepsleepoff_locked env =
     bindM (modM (\<lambda>s. if m_timequality s = eTIMEQUALILTY_SECURE
              then s\<lparr>m_timequality := eTIMEQUALILTY_GOOD, m_state := eSYSMGR_STATE_NTP_ACQUIRED\<rparr> else s)) (\<lambda>_.
     bindM (modM (\<lambda>s. s\<lparr>m_timersrc := ''Last Known''\<rparr>)) (\<lambda>_.
     bindM (getM m_timequality) (\<lambda>q.
     publishStatus env ePUBLISH_DEEP_SLEEP_ON (quality_text q))))"

definition deepsleepoff :: "env \<Rightarrow> ('w, unit) mgr_io" where
  "deepsleepoff env = bindM (deepsleepoff_locked env) (\<lambda>_. restart_timesync env)"

definition powerhandler :: "env \<Rightarrow> string \<Rightarrow> ('w, int) mgr_io" where
  "powerhandler env message =
     bindM get_instance (\<lambda>_.
     bindM (whenM (message = ''DEEP_SLEEP_ON'') deepsleepon) (\<lambda>_.
     bindM (whenM (message = ''DEEP_SLEEP_OFF'') (deepsleepoff env)) (\<lambda>_. ret 1)))"

text \<open>What a registered function pointer means, for the power subscribers.\<close>

definition registered_fns :: "env \<Rightarrow> funcPtr \<Rightarrow> string \<Rightarrow> ('w, unit) mgr_io" where
  "registered_fns env f msg =
     (case f of PowerhandlerFn \<Rightarrow> bindM (powerhandler env msg) (\<lambda>_. ret ())
      | _ \<Rightarrow> throwM IndeterminateRead)"

end
