(* ===== verification/Ntp_Monitor.thy ===== *)
theory Ntp_Monitor
  imports Sys_Time_Mgr
begin

text \<open>
  The threads of the manager that watch NTP: \<open>runNTPSyncMonitor\<close> polls the kernel until the clock
  is disciplined and leaves three files behind, and \<open>runTimer\<close> sends a timer event on each period;
  both report the offset chrony measures. The monitor is a loop with fuel, one unit for each poll.
\<close>

section \<open>The programs\<close>

unbundle bit_operations_syntax

text \<open>Constants of \<open>sys/timex.h\<close>.\<close>

definition TIME_ERROR :: int where
  "TIME_ERROR = 5"

definition STA_UNSYNC :: int where
  "STA_UNSYNC = 64"

text \<open>The offset is formatted into an array of 16 characters, for telemetry.\<close>

definition report_offset :: "env \<Rightarrow> ('w, unit) io" where
  "report_offset env =
     bindM (call_dbl env Chronyctl_get_offset) (\<lambda>(r, offset).
       whenM (r = CHRONYCTL_SUCCESS)
         (t2ValNotify env ''SYST_INFO_NTP_DELTA_split'' (take 15 (c_string (printf_f3 env offset)))))"

text \<open>\<open>open(path, O_CREAT | O_WRONLY)\<close> and \<open>close\<close>.\<close>

definition create_file :: "env \<Rightarrow> string \<Rightarrow> ('w, unit) io" where
  "create_file env path =
     bindM (call_int env (Open_write path)) (\<lambda>(fd, t).
       whenM (0 \<le> fd) (modM (\<lambda>s. if w_fs s path = None then put_file path [] t s else s)))"

definition poll_sync :: "env \<Rightarrow> ('w, bool) io" where
  "poll_sync env =
     bindM (call_int env Adjtimex) (\<lambda>(adjtimex_state, tx_status).
       ret (if adjtimex_state < 0 then False
            else \<not> (adjtimex_state = TIME_ERROR \<or> tx_status AND STA_UNSYNC \<noteq> 0)))"

definition record_sync :: "env \<Rightarrow> ('w, unit) io" where
  "record_sync env =
     bindM (touch_file env (m_directory @ ''/ntp'')) (\<lambda>_.
     bindM (create_file env ''/tmp/clock-event'') (\<lambda>_.
     bindM (write_stream env ''/tmp/ntp_status'' (''Synchronized'' @ [CHR 0x0A])) (\<lambda>_.
     report_offset env)))"

primrec runNTPSyncMonitor :: "nat \<Rightarrow> env \<Rightarrow> ('w, unit option) io" where
  "runNTPSyncMonitor 0 env = ret None"
| "runNTPSyncMonitor (Suc n) env =
     bindM (poll_sync env) (\<lambda>synced.
       if synced then bindM (record_sync env) (\<lambda>_. ret (Some ()))
       else runNTPSyncMonitor n env)"

definition sendMessage :: "sysTimeMgrEvent \<Rightarrow> TimerMsg option \<Rightarrow> ('w, unit) mgr_io" where
  "sendMessage event args =
     modM (\<lambda>s. s\<lparr>m_queue := m_queue s @ [\<lparr>q_event = event, q_args = args\<rparr>]\<rparr>)"

text \<open>One iteration of \<open>runTimer\<close>, after its sleep.\<close>

definition timer_iteration :: "env \<Rightarrow> ('w, unit) mgr_io" where
  "timer_iteration env =
     bindM (getM m_chronyRfcEnabled) (\<lambda>chrony.
     bindM (whenM chrony (report_offset env)) (\<lambda>_.
     sendMessage eSYSMGR_EVENT_TIMER_EXPIRY None))"

section \<open>Lemmas\<close>

lemma report_offset_run: "\<exists>h. report_offset env s = (Inr (), s\<lparr>w_hist := h\<rparr>)"
  by (auto simp: report_offset_def t2ValNotify_def call_dbl_def prog_simps)

lemma timer_iteration_run:
  "\<exists>h. timer_iteration env s =
     (Inr (), s\<lparr>w_hist := h, m_queue := m_queue s @ [\<lparr>q_event = eSYSMGR_EVENT_TIMER_EXPIRY, q_args = None\<rparr>]\<rparr>)"
proof (cases "m_chronyRfcEnabled s")
  case True
  with report_offset_run [of env s] show ?thesis
    by (auto simp: timer_iteration_def sendMessage_def bindM_run getM_run modM_run whenM_run)
next
  case False
  then show ?thesis
    by (auto simp: timer_iteration_def sendMessage_def bindM_run getM_run modM_run whenM_run
        intro: exI [of _ "w_hist s"])
qed

text \<open>What the kernel says on a poll with history \<open>h\<close>.\<close>

definition disciplined :: "env \<Rightarrow> hist \<Rightarrow> bool" where
  "disciplined env h \<longleftrightarrow> 0 \<le> ret_code env h Adjtimex \<and> ret_code env h Adjtimex \<noteq> TIME_ERROR \<and>
     \<not> bit (out_int env h Adjtimex) 6"

lemma and_STA_UNSYNC: "(v AND STA_UNSYNC \<noteq> 0) = bit v 6"
  using and_exp_eq_0_iff_not_bit [of v 6] by (simp add: STA_UNSYNC_def)

lemma poll_sync_run:
  "poll_sync env s = (Inr (disciplined env (w_hist s)),
     s\<lparr>w_hist := w_hist s @ [(Adjtimex, ret_code env (w_hist s) Adjtimex)]\<rparr>)"
  by (auto simp: poll_sync_def call_int_def prog_simps disciplined_def and_STA_UNSYNC)

definition touch_works :: "env \<Rightarrow> bool" where
  "touch_works env \<longleftrightarrow> (\<forall>h path. 0 \<le> ret_code env h (Open_write path) \<and> ret_code env h (Futimens path) = 0)"

text \<open>
  What the monitor leaves behind: the NTP notification file has been touched once and exists, the
  file that marks the first synchronisation exists, the status file says so, and no other file has
  changed.
\<close>

definition sync_marks :: "'w world_scheme \<Rightarrow> 'w world_scheme \<Rightarrow> bool" where
  "sync_marks s t \<longleftrightarrow>
    w_touched t = w_touched s @ [''/tmp/systimemgr/ntp''] \<and>
    file_exists t ''/tmp/systimemgr/ntp'' \<and> file_exists t ''/tmp/clock-event'' \<and>
    map_option content (w_fs t ''/tmp/ntp_status'') = Some (''Synchronized'' @ [CHR 0x0A]) \<and>
    (\<forall>q. q \<notin> {''/tmp/systimemgr/ntp'', ''/tmp/clock-event'', ''/tmp/ntp_status''} \<longrightarrow> w_fs t q = w_fs s q)"

lemma sync_marks_hist [simp]: "sync_marks (s\<lparr>w_hist := h\<rparr>) t = sync_marks s t"
  by (simp add: sync_marks_def)

lemma record_sync_run:
  fixes s :: "'w world_scheme"
  assumes "files_work env" "touch_works env"
  shows "\<exists>t. record_sync env s = (Inr (), t) \<and> sync_marks s t"
proof -
  have path: "m_directory @ ''/ntp'' = ''/tmp/systimemgr/ntp''" by (simp add: m_directory_def)
  obtain s1 where s1: "touch_file env ''/tmp/systimemgr/ntp'' s = (Inr True, s1)"
    "w_touched s1 = w_touched s @ [''/tmp/systimemgr/ntp'']" "file_exists s1 ''/tmp/systimemgr/ntp''"
    "\<forall>q. q \<noteq> ''/tmp/systimemgr/ntp'' \<longrightarrow> w_fs s1 q = w_fs s q"
    using assms(2) by (simp add: touch_file_def touch_works_def call_int_def prog_simps put_file_def file_exists_def)
  obtain s2 where s2: "create_file env ''/tmp/clock-event'' s1 = (Inr (), s2)"
    "w_touched s2 = w_touched s1" "file_exists s2 ''/tmp/clock-event''"
    "\<forall>q. q \<noteq> ''/tmp/clock-event'' \<longrightarrow> w_fs s2 q = w_fs s1 q"
    using assms(2) by (simp add: create_file_def touch_works_def call_int_def prog_simps put_file_def file_exists_def)
  have "0 \<le> ret_code env (w_hist s2) (Open_trunc ''/tmp/ntp_status'')"
    "\<And>h. 0 \<le> ret_code env h (Write ''/tmp/ntp_status'')"
    using assms(1) by (simp_all add: files_work_def)
  from write_stream_run [OF this, of "''Synchronized'' @ [CHR 0x0A]"]
  obtain h tm where s3: "write_stream env ''/tmp/ntp_status'' (''Synchronized'' @ [CHR 0x0A]) s2 =
      (Inr True, put_file ''/tmp/ntp_status'' (''Synchronized'' @ [CHR 0x0A]) tm (s2\<lparr>w_hist := h\<rparr>))" by blast
  define t where "t = put_file ''/tmp/ntp_status'' (''Synchronized'' @ [CHR 0x0A]) tm (s2\<lparr>w_hist := h\<rparr>)"
  obtain h' where "report_offset env t = (Inr (), t\<lparr>w_hist := h'\<rparr>)" using report_offset_run by blast
  with s1(1) s2(1) s3 have run: "record_sync env s = (Inr (), t\<lparr>w_hist := h'\<rparr>)"
    by (simp add: record_sync_def path bindM_run t_def)
  have "w_touched (t\<lparr>w_hist := h'\<rparr>) = w_touched s @ [''/tmp/systimemgr/ntp'']"
    "file_exists (t\<lparr>w_hist := h'\<rparr>) ''/tmp/systimemgr/ntp''" "file_exists (t\<lparr>w_hist := h'\<rparr>) ''/tmp/clock-event''"
    "map_option content (w_fs (t\<lparr>w_hist := h'\<rparr>) ''/tmp/ntp_status'') = Some (''Synchronized'' @ [CHR 0x0A])"
    using s1 s2 by (simp_all add: t_def put_file_def file_exists_def)
  moreover have "w_fs (t\<lparr>w_hist := h'\<rparr>) q = w_fs s q"
    if "q \<notin> {''/tmp/systimemgr/ntp'', ''/tmp/clock-event'', ''/tmp/ntp_status''}" for q
    using s1(4) s2(4) that by (simp add: t_def put_file_def)
  ultimately have "sync_marks s (t\<lparr>w_hist := h'\<rparr>)" unfolding sync_marks_def by blast
  with run show ?thesis by blast
qed

definition polls :: "hist \<Rightarrow> nat" where
  "polls h = length (filter (\<lambda>c. fst c = Adjtimex) h)"

text \<open>The loop up to the first poll that finds the clock disciplined.\<close>

lemma monitor_until:
  fixes s :: "'w world_scheme"
  assumes "\<And>h. k \<le> polls h \<Longrightarrow> disciplined env h" "k \<le> polls (w_hist s) + n"
  shows "\<exists>h. runNTPSyncMonitor (Suc n) env s =
    bindM (record_sync env) (\<lambda>_. ret (Some ())) (s\<lparr>w_hist := h\<rparr>)"
  using assms(2)
proof (induction n arbitrary: s)
  case 0
  with assms(1) show ?case by (auto simp: bindM_run poll_sync_run)
next
  case (Suc n)
  define t where "t = s\<lparr>w_hist := w_hist s @ [(Adjtimex, ret_code env (w_hist s) Adjtimex)]\<rparr>"
  show ?case
  proof (cases "disciplined env (w_hist s)")
    case True
    then show ?thesis by (auto simp: bindM_run poll_sync_run)
  next
    case False
    then have "runNTPSyncMonitor (Suc (Suc n)) env s = runNTPSyncMonitor (Suc n) env t"
      by (simp add: bindM_run poll_sync_run t_def)
    moreover have "k \<le> polls (w_hist t) + n"
      using Suc.prems by (simp add: t_def polls_def)
    ultimately show ?thesis using Suc.IH [of t] by (auto simp: t_def)
  qed
qed

section \<open>Properties\<close>

text \<open>
  C20: The monitor ends and leaves its marks. If the kernel reports a disciplined clock from the
  k-th poll on, the monitor returns within \<open>k + 1\<close> polls; it has touched the NTP notification file
  exactly once, so the path monitor is told, the file that marks the first synchronisation exists,
  the status file says so, and no other file has changed.
\<close>

theorem ntp_monitor_reports:
  fixes s :: "'w world_scheme"
  assumes "files_work env" "touch_works env" "\<And>h. k \<le> polls h \<Longrightarrow> disciplined env h"
  shows "\<exists>t. runNTPSyncMonitor (Suc k) env s = (Inr (Some ()), t) \<and> sync_marks s t"
proof -
  from monitor_until [OF assms(3) le_add2] obtain h where
    h: "runNTPSyncMonitor (Suc k) env s = bindM (record_sync env) (\<lambda>_. ret (Some ())) (s\<lparr>w_hist := h\<rparr>)" by blast
  from record_sync_run [OF assms(1,2), of "s\<lparr>w_hist := h\<rparr>"] obtain t where
    "record_sync env (s\<lparr>w_hist := h\<rparr>) = (Inr (), t)" "sync_marks s t" by auto
  with h show ?thesis by (auto simp: bindM_run ret_run simp del: runNTPSyncMonitor.simps)
qed

definition slow_ntp_env :: "nat \<Rightarrow> env" where
  "slow_ntp_env k = (calm_env 1)\<lparr>ret_code := (\<lambda>h c. if c = Adjtimex \<and> polls h < k then TIME_ERROR else 0)\<rparr>"

theorem ntp_monitor_reports_witness:
  "\<exists>t. runNTPSyncMonitor (Suc 5) (slow_ntp_env 5) empty_world = (Inr (Some ()), t) \<and> sync_marks empty_world t"
  by (rule ntp_monitor_reports)
    (auto simp: files_work_def touch_works_def slow_ntp_env_def calm_env_def disciplined_def TIME_ERROR_def
      bit_1_iff)

text \<open>
  Nothing is announced before the clock is disciplined. As long as no poll has found it so, the
  monitor is still polling and has changed nothing but the call history.
\<close>

lemma ntp_monitor_waits:
  fixes s :: "'w world_scheme"
  assumes "\<And>h. polls h < polls (w_hist s) + n \<Longrightarrow> \<not> disciplined env h"
  shows "\<exists>h. runNTPSyncMonitor n env s = (Inr None, s\<lparr>w_hist := h\<rparr>)"
  using assms
proof (induction n arbitrary: s)
  case 0
  then show ?case by (auto simp: ret_run intro: exI [of _ "w_hist s"])
next
  case (Suc n)
  define t where "t = s\<lparr>w_hist := w_hist s @ [(Adjtimex, ret_code env (w_hist s) Adjtimex)]\<rparr>"
  have "\<not> disciplined env (w_hist s)" by (rule Suc.prems) simp
  then have "runNTPSyncMonitor (Suc n) env s = runNTPSyncMonitor n env t"
    by (simp add: bindM_run poll_sync_run t_def)
  moreover have "\<exists>h. runNTPSyncMonitor n env t = (Inr None, t\<lparr>w_hist := h\<rparr>)"
    by (rule Suc.IH, rule Suc.prems) (simp add: t_def polls_def)
  ultimately show ?case by (auto simp: t_def)
qed

end
