(* ===== verification/Mgr_Correct.thy ===== *)
theory Mgr_Correct
  imports Sys_Time_Mgr
begin

text \<open>
  The correctness of the manager: frame conditions of its programs, the table of the state
  machine, the refinement of an abstract state machine on state, quality and source, and the
  states in which the threads start. Total correctness is in \<open>Mgr_Total\<close> and \<open>Mgr_Boot\<close>, what
  clients see in \<open>Mgr_Clients\<close>.
\<close>

section \<open>Frame conditions\<close>

lemma keeps_log_times [keeps_intros]:
  "(\<And>s c r. \<not> visible c \<Longrightarrow> p (s\<lparr>w_hist := w_hist s @ [(c, r)]\<rparr>) = p s) \<Longrightarrow> keeps p (log_times env)"
  unfolding log_times_def by (intro keeps_intros | simp)+

lemma keeps_publishStatus [keeps_intros]:
  "(\<And>s h. p (s\<lparr>w_hist := h\<rparr>) = p s) \<Longrightarrow> keeps p (publishStatus env event message)"
  unfolding publishStatus_def by (intro keeps_intros | simp)+

lemma keeps_updateTimeSync [keeps_intros]:
  assumes "\<And>s c r. \<not> visible c \<Longrightarrow> p (s\<lparr>w_hist := w_hist s @ [(c, r)]\<rparr>) = p s"
    and "\<And>s f. p (s\<lparr>w_fs := f\<rparr>) = p s" and "\<And>s t. p (s\<lparr>w_touched := t\<rparr>) = p s"
    and "\<And>s x. p (s\<lparr>m_timerSync := x\<rparr>) = p s"
  shows "keeps p (updateTimeSync env t)"
  unfolding updateTimeSync_def by (intro keeps_intros assms | simp)+

lemma keeps_sources [keeps_intros]:
  assumes "\<And>s c r. \<not> visible c \<Longrightarrow> p (s\<lparr>w_hist := w_hist s @ [(c, r)]\<rparr>) = p s"
    and "\<And>s f. p (s\<lparr>w_fs := f\<rparr>) = p s" and "\<And>s t. p (s\<lparr>w_touched := t\<rparr>) = p s"
    and "\<And>s x. p (s\<lparr>m_timerSrc := x\<rparr>) = p s"
  shows "keeps p (read_source env v x)" "keeps p (check_sources env)" "keeps p (read_clock env w x)"
proof -
  show "keeps p (read_source env v x)" "keeps p (read_clock env w x)"
    by (cases v; cases w; simp add: read_source_def read_clock_def; intro keeps_intros assms; simp)+
  show "keeps p (check_sources env)"
    unfolding check_sources_def by (intro keeps_intros assms | simp)+
qed

lemma keeps_timerExpiry [keeps_intros]:
  assumes "\<And>s c r. \<not> visible c \<Longrightarrow> p (s\<lparr>w_hist := w_hist s @ [(c, r)]\<rparr>) = p s"
    and "\<And>s f. p (s\<lparr>w_fs := f\<rparr>) = p s" and "\<And>s t. p (s\<lparr>w_touched := t\<rparr>) = p s"
    and "\<And>s x. p (s\<lparr>m_timerSrc := x\<rparr>) = p s" and "\<And>s x. p (s\<lparr>m_timerSync := x\<rparr>) = p s"
  shows "keeps p (timerExpiry env)" "keeps p (updateTime env)"
  unfolding timerExpiry_def updateTime_def by (intro keeps_intros assms | simp)+

lemma keeps_updateClockRealTime [keeps_intros]:
  assumes "\<And>s h. p (s\<lparr>w_hist := h\<rparr>) = p s"
    and "\<And>s f. p (s\<lparr>w_fs := f\<rparr>) = p s" and "\<And>s t. p (s\<lparr>w_touched := t\<rparr>) = p s"
    and "\<And>s x. p (s\<lparr>m_timerSrc := x\<rparr>) = p s" and "\<And>s x. p (s\<lparr>m_timerSync := x\<rparr>) = p s"
  shows "keeps p (updateClockRealTime env)"
  unfolding updateClockRealTime_def by (intro keeps_intros assms | simp)+

lemma keeps_handler [keeps_intros]:
  assumes "\<And>s h. p (s\<lparr>w_hist := h\<rparr>) = p s"
    and "\<And>s f. p (s\<lparr>w_fs := f\<rparr>) = p s" and "\<And>s t. p (s\<lparr>w_touched := t\<rparr>) = p s"
    and "\<And>s x. p (s\<lparr>m_timerSrc := x\<rparr>) = p s" and "\<And>s x. p (s\<lparr>m_timerSync := x\<rparr>) = p s"
    and "\<And>s x. p (s\<lparr>m_state := x\<rparr>) = p s" and "\<And>s x. p (s\<lparr>m_timequality := x\<rparr>) = p s"
    and "\<And>s x. p (s\<lparr>m_timersrc := x\<rparr>) = p s"
  shows "keeps p (handler env f)"
  by (cases f)
    (auto simp: ntpFailed_def ntpAquired_def dttAquired_def updateSecureTime_def
      secureTimeAcquired_def assms intro!: keeps_intros assms)

lemma keeps_deepsleepoff [keeps_intros]:
  assumes "\<And>s h. p (s\<lparr>w_hist := h\<rparr>) = p s"
    and "\<And>s x. p (s\<lparr>m_state := x\<rparr>) = p s" and "\<And>s x. p (s\<lparr>m_timequality := x\<rparr>) = p s"
    and "\<And>s x. p (s\<lparr>m_timersrc := x\<rparr>) = p s"
  shows "keeps p (deepsleepoff env)"
  unfolding deepsleepoff_def deepsleepoff_locked_def restart_timesync_def
  by (intro keeps_intros assms | simp add: assms)+

lemma keeps_initial_clock [keeps_intros]:
  "(\<And>s h. p (s\<lparr>w_hist := h\<rparr>) = p s) \<Longrightarrow> keeps p (initial_clock env t)"
  unfolding initial_clock_def step_clock_def by (intro keeps_intros | simp)+

lemma keeps_setInitialTime [keeps_intros]:
  assumes "\<And>s h. p (s\<lparr>w_hist := h\<rparr>) = p s"
    and "\<And>s f. p (s\<lparr>w_fs := f\<rparr>) = p s" and "\<And>s t. p (s\<lparr>w_touched := t\<rparr>) = p s"
    and "\<And>s x. p (s\<lparr>m_timerSync := x\<rparr>) = p s" and "\<And>s x. p (s\<lparr>m_timequality := x\<rparr>) = p s"
  shows "keeps p (setInitialTime env)"
  unfolding setInitialTime_def by (intro keeps_intros assms | simp add: assms)+

lemma keeps_load_config [keeps_intros]:
  assumes "\<And>s c r. \<not> visible c \<Longrightarrow> p (s\<lparr>w_hist := w_hist s @ [(c, r)]\<rparr>) = p s"
    and "\<And>s x. p (s\<lparr>m_timerSrc := x\<rparr>) = p s" and "\<And>s x. p (s\<lparr>m_timerSync := x\<rparr>) = p s"
  shows "keeps p (load_config env)"
proof -
  have "keeps p (configure env e)" for e
    unfolding configure_def by (cases e) (auto intro!: keeps_intros simp: assms)
  then show ?thesis
    unfolding load_config_def by (auto intro!: keeps_intros simp: assms)
qed

lemma keeps_connect_bus [keeps_intros]:
  assumes "\<And>s c r. \<not> visible c \<Longrightarrow> p (s\<lparr>w_hist := w_hist s @ [(c, r)]\<rparr>) = p s"
    and "\<And>s x. p (s\<lparr>b_subs := x\<rparr>) = p s" "\<And>s x. p (s\<lparr>b_pInstance := x\<rparr>) = p s"
    and "\<And>s x. p (s\<lparr>b_threads := x\<rparr>) = p s" "\<And>s x. p (s\<lparr>m_publish := x\<rparr>) = p s"
    and "\<And>s x. p (s\<lparr>m_tmrsubscriber := x\<rparr>) = p s" "\<And>s x. p (s\<lparr>m_subscriber := x\<rparr>) = p s"
  shows "keeps p (connect_bus env)"
  unfolding connect_bus_def Let_def by (intro keeps_intros assms | simp add: assms)+

section \<open>The table\<close>

definition machine :: state_table where
  "machine = fold table_set transitions []"

definition lookup_fn :: "state_table \<Rightarrow> sysTimeMgrState \<Rightarrow> sysTimeMgrEvent \<Rightarrow> memfunc option" where
  "lookup_fn m st ev = (case smap_find m st of None \<Rightarrow> None | Some row \<Rightarrow> smap_find row ev)"

text \<open>What the table should say.\<close>

fun next_fn :: "sysTimeMgrState \<Rightarrow> sysTimeMgrEvent \<Rightarrow> memfunc option" where
  "next_fn eSYSMGR_STATE_NTP_WAIT eSYSMGR_EVENT_TIMER_EXPIRY = Some NtpFailed"
| "next_fn eSYSMGR_STATE_NTP_WAIT eSYSMGR_EVENT_NTP_AVAILABLE = Some NtpAquired"
| "next_fn eSYSMGR_STATE_NTP_WAIT eSYSMGR_EVENT_SECURE_TIME_AVAILABLE = Some SecureTimeAcquired"
| "next_fn eSYSMGR_STATE_NTP_FAIL eSYSMGR_EVENT_TIMER_EXPIRY = Some UpdateTime"
| "next_fn eSYSMGR_STATE_NTP_FAIL eSYSMGR_EVENT_NTP_AVAILABLE = Some NtpAquired"
| "next_fn eSYSMGR_STATE_NTP_FAIL eSYSMGR_EVENT_DTT_TIME_AVAILABLE = Some DttAquired"
| "next_fn eSYSMGR_STATE_NTP_FAIL eSYSMGR_EVENT_SECURE_TIME_AVAILABLE = Some SecureTimeAcquired"
| "next_fn eSYSMGR_STATE_NTP_ACQUIRED eSYSMGR_EVENT_TIMER_EXPIRY = Some UpdateTime"
| "next_fn eSYSMGR_STATE_NTP_ACQUIRED eSYSMGR_EVENT_SECURE_TIME_AVAILABLE = Some UpdateSecureTime"
| "next_fn eSYSMGR_STATE_DTT_ACQUIRED eSYSMGR_EVENT_TIMER_EXPIRY = Some UpdateClockRealTime"
| "next_fn eSYSMGR_STATE_DTT_ACQUIRED eSYSMGR_EVENT_NTP_AVAILABLE = Some NtpAquired"
| "next_fn eSYSMGR_STATE_DTT_ACQUIRED eSYSMGR_EVENT_SECURE_TIME_AVAILABLE = Some SecureTimeAcquired"
| "next_fn eSYSMGR_STATE_SECURE_TIME_ACQUIRED eSYSMGR_EVENT_TIMER_EXPIRY = Some UpdateTime"
| "next_fn eSYSMGR_STATE_SECURE_TIME_ACQUIRED eSYSMGR_EVENT_NTP_AVAILABLE = Some UpdateSecureTime"
| "next_fn eSYSMGR_STATE_RUNNING eSYSMGR_EVENT_TIMER_EXPIRY = Some TimerExpiry"
| "next_fn _ _ = None"

text \<open>Assignments to the nested map, looked up: the last one to a pair of keys counts.\<close>

definition table_wf :: "state_table \<Rightarrow> bool" where
  "table_wf m \<longleftrightarrow> smap_wf m \<and> (\<forall>row \<in> snd ` set m. smap_wf row)"

lemma table_wf_row: "table_wf m \<Longrightarrow> smap_wf (smap_index [] m st)"
  by (auto simp: table_wf_def smap_index_def smap_find_def dest!: map_of_SomeD split: option.split)

lemma smap_assign_values: "snd ` set (smap_assign k v m) \<subseteq> insert v (snd ` set m)"
  by (induction k v m rule: smap_assign.induct) auto

lemma table_wf_set: "table_wf m \<Longrightarrow> table_wf (table_set (st, ev, f) m)"
proof -
  assume m: "table_wf m"
  let ?row = "smap_assign ev f (smap_index [] m st)"
  have "smap_wf ?row" using table_wf_row [OF m] by (rule smap_wf_assign)
  moreover have "\<forall>row \<in> snd ` set m. smap_wf row" "smap_wf m"
    using m by (simp_all add: table_wf_def)
  ultimately have "\<forall>row \<in> insert ?row (snd ` set m). smap_wf row" by blast
  then have "\<forall>row \<in> snd ` set (smap_assign st ?row m). smap_wf row"
    using smap_assign_values [of st ?row m] by (meson subsetD)
  then show ?thesis
    unfolding table_wf_def table_set_def prod.case by (simp add: smap_wf_assign \<open>smap_wf m\<close>)
qed

lemma lookup_table_set:
  assumes "table_wf m"
  shows "lookup_fn (table_set (st, ev, f) m) st' ev' =
    (if st' = st \<and> ev' = ev then Some f else lookup_fn m st' ev')"
proof -
  have "smap_wf m" "smap_wf (smap_index [] m st)"
    using assms table_wf_row by (auto simp: table_wf_def)
  then show ?thesis
    by (auto simp: lookup_fn_def table_set_def smap_find_assign smap_index_def smap.look_empty
        split: option.splits)
qed

lemma lookup_machine: "lookup_fn machine st ev = next_fn st ev"
proof -
  have wf: "table_wf (fold table_set ts m)" if "table_wf m" for ts m
    using that
  proof (induction ts arbitrary: m)
    case (Cons t ts)
    then show ?case by (cases t) (simp add: table_wf_set)
  qed simp
  have last: "lookup_fn (fold table_set ts m) st ev =
      (case map_of (rev (map (\<lambda>(a, b, f). ((a, b), f)) ts)) (st, ev) of
         None \<Rightarrow> lookup_fn m st ev | Some f \<Rightarrow> Some f)" if "table_wf m" for ts m
    using that
  proof (induction ts arbitrary: m)
    case (Cons t ts)
    then show ?case
      by (cases t) (auto simp: table_wf_set lookup_table_set map_add_def split: option.split)
  qed simp
  have "table_wf []" by (simp add: table_wf_def)
  from last [OF this, of transitions]
  have "lookup_fn machine st ev = map_of (rev (map (\<lambda>(a, b, f). ((a, b), f)) transitions)) (st, ev)"
    by (simp add: machine_def lookup_fn_def smap_find_def split: option.split)
  then show ?thesis
    by (cases st; cases ev) (simp_all add: transitions_def)
qed

lemma runStateMachine_run:
  assumes "stateMachine s = machine"
  shows "runStateMachine env ev s = (case next_fn (m_state s) ev of
     None \<Rightarrow> (Inr (), s) | Some f \<Rightarrow> handler env f (s\<lparr>m_event := ev\<rparr>))"
  using lookup_machine [of "m_state s" ev, unfolded lookup_fn_def] assms
  by (simp add: runStateMachine_def prog_simps split: option.split)

section \<open>The abstract state machine\<close>

text \<open>What clients can observe of the manager: its state, the quality and the source of time.\<close>

type_synonym status = "sysTimeMgrState \<times> qualityOfTime \<times> string"

definition status :: "'w mgr_scheme \<Rightarrow> status" where
  "status s = (m_state s, m_timequality s, m_timersrc s)"

fun spec_fn :: "memfunc \<Rightarrow> status \<Rightarrow> status" where
  "spec_fn NtpFailed (_, q, src) = (eSYSMGR_STATE_NTP_FAIL, q, src)"
| "spec_fn NtpAquired _ = (eSYSMGR_STATE_NTP_ACQUIRED, eTIMEQUALILTY_GOOD, ''NTP'')"
| "spec_fn DttAquired _ = (eSYSMGR_STATE_DTT_ACQUIRED, eTIMEQUALILTY_GOOD, ''DTT'')"
| "spec_fn UpdateSecureTime (_, _, src) = (eSYSMGR_STATE_RUNNING, eTIMEQUALILTY_SECURE, src)"
| "spec_fn SecureTimeAcquired (_, _, src) = (eSYSMGR_STATE_SECURE_TIME_ACQUIRED, eTIMEQUALILTY_GOOD, src)"
| "spec_fn TimerExpiry a = a"
| "spec_fn UpdateTime a = a"
| "spec_fn UpdateClockRealTime a = a"

definition spec_event :: "sysTimeMgrEvent \<Rightarrow> status \<Rightarrow> status" where
  "spec_event ev a = (case next_fn (fst a) ev of None \<Rightarrow> a | Some f \<Rightarrow> spec_fn f a)"

definition spec_power :: "string \<Rightarrow> status \<Rightarrow> status" where
  "spec_power msg = (\<lambda>(st, q, src).
     if msg = ''DEEP_SLEEP_OFF''
     then (if q = eTIMEQUALILTY_SECURE
           then (eSYSMGR_STATE_NTP_ACQUIRED, eTIMEQUALILTY_GOOD, ''Last Known'')
           else (st, q, ''Last Known''))
     else (st, q, src))"

lemma status_simps [simp]:
  "status (s\<lparr>w_hist := h\<rparr>) = status s" "status (s\<lparr>w_fs := f\<rparr>) = status s"
  "status (s\<lparr>w_touched := ts\<rparr>) = status s" "status (s\<lparr>m_timerSync := ys\<rparr>) = status s"
  "status (s\<lparr>m_timerSrc := xs\<rparr>) = status s" "status (s\<lparr>m_event := ev\<rparr>) = status s"
  by (simp_all add: status_def)

text \<open>
  A program that updates the state between two parts that keep the status has made the update,
  or stopped before it.
\<close>

lemma bind_mod_status:
  assumes "keeps p m" "keeps p k" "\<And>s. p (g s) = G (p s)"
    and "bindM m (\<lambda>_. bindM (modM g) (\<lambda>_. k)) s = (r, t)"
  shows "p t = G (p s) \<or> (\<exists>e. r = Inl e) \<and> p t = p s"
proof -
  obtain x u where m: "m s = (x, u)" by (cases "m s")
  with assms(1) have u: "p u = p s" by (rule keepsD)
  show ?thesis
  proof (cases x)
    case (Inl e)
    with m u assms(4) show ?thesis by (auto simp: bindM_run)
  next
    case (Inr y)
    with m assms(4) have "k (g u) = (r, t)" by (simp add: bindM_run modM_run)
    with assms(2) have "p t = p (g u)" by (rule keepsD)
    with assms(3) u show ?thesis by simp
  qed
qed

lemma bind_mod_last:
  assumes "keeps p m" "\<And>s. p (g s) = G (p s)" "bindM m (\<lambda>_. modM g) s = (r, t)"
  shows "p t = G (p s) \<or> (\<exists>e. r = Inl e) \<and> p t = p s"
proof (rule bind_mod_status [where g = g and G = G, OF assms(1) keeps_ret [of p "()"] assms(2)])
  show "bindM m (\<lambda>_. bindM (modM g) (\<lambda>_. ret ())) s = (r, t)"
    using assms(3) by (simp add: bindM_run modM_run ret_run)
qed

lemma handler_status:
  assumes "handler env f s = (r, t)"
  shows "status t = spec_fn f (status s) \<or> (\<exists>e. r = Inl e) \<and> status t = status s"
proof -
  have keep: "keeps status (updateTimeSync env v)" "keeps status (timerExpiry env)"
    "keeps status (publishStatus env e m)" "keeps status (updateTime env)"
    "keeps status (updateClockRealTime env)" for v e m
    by (intro keeps_intros | simp)+
  show ?thesis
  proof (cases f)
    case NtpFailed
    show ?thesis
      unfolding NtpFailed
      by (rule bind_mod_status [OF keep(1,3) _ assms [unfolded NtpFailed handler.simps ntpFailed_def]])
        (simp add: status_def)
  next
    case NtpAquired
    show ?thesis
      unfolding NtpAquired
      by (rule bind_mod_status [OF keep(1,3) _ assms [unfolded NtpAquired handler.simps ntpAquired_def]])
        (simp add: status_def)
  next
    case DttAquired
    show ?thesis
      unfolding DttAquired
      by (rule bind_mod_status [OF keep(1,3) _ assms [unfolded DttAquired handler.simps dttAquired_def]])
        (simp add: status_def)
  next
    case UpdateSecureTime
    show ?thesis
      unfolding UpdateSecureTime
      by (rule bind_mod_status [OF keep(2,3) _ assms [unfolded UpdateSecureTime handler.simps updateSecureTime_def]])
        (simp add: status_def)
  next
    case SecureTimeAcquired
    show ?thesis
      unfolding SecureTimeAcquired
      by (rule bind_mod_last [OF keep(1) _ assms [unfolded SecureTimeAcquired handler.simps
            secureTimeAcquired_def]]) (simp add: status_def)
  qed (use assms keepsD [OF keep(2), of s r t] keepsD [OF keep(4), of s r t]
        keepsD [OF keep(5), of s r t] in auto)
qed

lemma deepsleepoff_status:
  assumes "deepsleepoff env s = (r, t)"
  shows "status t = spec_power ''DEEP_SLEEP_OFF'' (status s)"
proof -
  define s' where "s' = (if m_timequality s = eTIMEQUALILTY_SECURE
    then s\<lparr>m_timequality := eTIMEQUALILTY_GOOD, m_state := eSYSMGR_STATE_NTP_ACQUIRED\<rparr> else s)
      \<lparr>m_timersrc := ''Last Known''\<rparr>"
  have run: "deepsleepoff env s =
      bindM (publishStatus env ePUBLISH_DEEP_SLEEP_ON (quality_text (m_timequality s'))) (\<lambda>_.
        restart_timesync env) s'"
    by (simp add: deepsleepoff_def deepsleepoff_locked_def prog_simps s'_def)
  have keep: "keeps status (bindM (publishStatus env e m) (\<lambda>_. restart_timesync env))" for e m
    unfolding restart_timesync_def by (intro keeps_intros | simp)+
  have "status t = status s'"
    by (rule keepsD [OF keep assms [unfolded run]])
  then show ?thesis by (simp add: s'_def status_def spec_power_def)
qed

section \<open>Runs of the manager\<close>

datatype mgr_label = Handle sysTimeMgrEvent | Power string

inductive mgr_step :: "env \<Rightarrow> 'w mgr_scheme \<Rightarrow> mgr_label \<Rightarrow> 'w mgr_scheme \<Rightarrow> bool" for env where
  handle: "runStateMachine env ev s = (Inr (), t) \<Longrightarrow> mgr_step env s (Handle ev) t"
| power: "powerhandler env msg s = (Inr r, t) \<Longrightarrow> mgr_step env s (Power msg) t"

inductive_simps mgr_step_handle [simp]: "mgr_step env s (Handle ev) t"
inductive_simps mgr_step_power [simp]: "mgr_step env s (Power msg) t"

fun spec_label :: "mgr_label \<Rightarrow> status \<Rightarrow> status" where
  "spec_label (Handle ev) = spec_event ev"
| "spec_label (Power msg) = spec_power msg"

definition ready :: "'w mgr_scheme \<Rightarrow> bool" where
  "ready s \<longleftrightarrow> mgr_exists s \<and> stateMachine s = machine"

lemma powerhandler_run:
  "mgr_exists s \<Longrightarrow> powerhandler env msg s =
     (if msg = ''DEEP_SLEEP_OFF'' then bindM (deepsleepoff env) (\<lambda>_. ret 1) s else (Inr 1, s))"
  by (simp add: powerhandler_def get_instance_def deepsleepon_def prog_simps)

lemma powerhandler_keeps:
  assumes "mgr_exists s" "powerhandler env msg s = (r, t)"
    and "keeps p (deepsleepoff env)"
  shows "p t = p s"
proof (cases "msg = ''DEEP_SLEEP_OFF''")
  case True
  have "keeps p (bindM (deepsleepoff env) (\<lambda>_. ret (1::int)))"
    by (intro keeps_bindM assms(3) keeps_ret)
  moreover have "bindM (deepsleepoff env) (\<lambda>_. ret 1) s = (r, t)"
    using True assms(1,2) by (simp add: powerhandler_run)
  ultimately show ?thesis by (rule keepsD)
next
  case False
  with assms(1,2) show ?thesis by (simp add: powerhandler_run)
qed

lemma powerhandler_status:
  assumes "mgr_exists s" "powerhandler env msg s = (r, t)"
  shows "status t = spec_power msg (status s)"
proof (cases "msg = ''DEEP_SLEEP_OFF''")
  case True
  obtain r' t' where d: "deepsleepoff env s = (r', t')" by (cases "deepsleepoff env s")
  with True assms have "t = t'"
    by (cases r') (auto simp: powerhandler_run bindM_run ret_run)
  with True deepsleepoff_status [OF d] show ?thesis by simp
next
  case False
  with assms show ?thesis
    by (simp add: powerhandler_run spec_power_def split: prod.split)
qed

lemma runStateMachine_status:
  assumes "stateMachine s = machine" "runStateMachine env ev s = (r, t)"
  shows "status t = spec_event ev (status s) \<or> (\<exists>e. r = Inl e) \<and> status t = status s"
proof (cases "next_fn (m_state s) ev")
  case None
  with assms show ?thesis by (simp add: runStateMachine_run spec_event_def status_def)
next
  case (Some f)
  with assms have "handler env f (s\<lparr>m_event := ev\<rparr>) = (r, t)" by (simp add: runStateMachine_run)
  from handler_status [OF this] Some show ?thesis
    by (simp add: spec_event_def status_def)
qed

lemma mgr_step_ready: "ready s \<Longrightarrow> mgr_step env s l t \<Longrightarrow> ready t"
proof (cases l)
  case (Handle ev)
  assume s: "ready s" "mgr_step env s l t"
  have k: "keeps (\<lambda>s. (mgr_exists s, stateMachine s)) (handler env f)" for f
    by (intro keeps_intros) simp_all
  from s Handle show ?thesis
    by (auto simp: ready_def runStateMachine_run split: option.splits dest: keepsD [OF k])
next
  case (Power msg)
  assume s: "ready s" "mgr_step env s l t"
  have k: "keeps (\<lambda>s. (mgr_exists s, stateMachine s)) (deepsleepoff env)"
    by (intro keeps_intros) simp_all
  from s Power powerhandler_keeps [OF _ _ k] show ?thesis
    by (fastforce simp: ready_def)
qed

lemma mgr_step_status: "ready s \<Longrightarrow> mgr_step env s l t \<Longrightarrow> status t = spec_label l (status s)"
  by (cases l) (auto simp: ready_def dest: runStateMachine_status powerhandler_status)

interpretation mgrsim: simulation ready "mgr_step env" ready status spec_label
  by unfold_locales (auto intro: mgr_step_ready mgr_step_status)

section \<open>Starting up\<close>

text \<open>What \<open>main\<close> does before it starts the threads.\<close>

definition boot :: "env \<Rightarrow> ('w, unit) mgr_io" where
  "boot env = bindM get_instance (\<lambda>_. initialize env)"

lemma setInitialTime_quality:
  assumes "setInitialTime env s = (r, t)"
  shows "m_timequality t = m_timequality s \<or> m_timequality t = eTIMEQUALILTY_POOR"
proof -
  let ?get = "foldM (\<lambda>(v, ys) p. deref p (\<lambda>y. bindM (sync_getTime env y) (\<lambda>(v', y').
              ret (v', ys @ [Some y'])))) (0, []) (m_timerSync s)"
  have keep: "keeps m_timequality ?get" "keeps m_timequality (create_stream env path)"
    "keeps m_timequality (initial_clock env v)" for path v
    by (intro keeps_intros | simp)+
  obtain x u where get: "?get s = (x, u)" by (cases "?get s")
  have u: "m_timequality u = m_timequality s" by (rule keepsD [OF keep(1) get])
  show ?thesis
  proof (cases x)
    case (Inl e)
    with assms get u show ?thesis by (simp add: setInitialTime_def bindM_run getM_run)
  next
    case (Inr y)
    obtain v ps where y: "y = (v, ps)" by (cases y)
    obtain x' w where cr: "create_stream env ''/tmp/systimeset'' (u\<lparr>m_timerSync := ps\<rparr>) = (x', w)"
      by (cases "create_stream env ''/tmp/systimeset'' (u\<lparr>m_timerSync := ps\<rparr>)")
    have w: "m_timequality w = m_timequality s" using keepsD [OF keep(2) cr] u by simp
    have fin: "m_timequality t = eTIMEQUALILTY_POOR"
      if "initial_clock env v (w\<lparr>m_timequality := eTIMEQUALILTY_POOR\<rparr>) = (r, t)"
      using keepsD [OF keep(3) that] by simp
    from assms get Inr y cr w fin show ?thesis
      by (auto simp: setInitialTime_def bindM_run getM_run modM_run ret_run split: sum.splits if_splits)
  qed
qed

text \<open>The part of \<open>initialize\<close> before the time is set.\<close>

definition init_prefix :: "env \<Rightarrow> ('w, unit) mgr_io" where
  "init_prefix env =
     bindM (whenM (T2_EVENT_ENABLED env) (bindM (call env T2_init) (\<lambda>_. ret ()))) (\<lambda>_.
     bindM (load_config env) (\<lambda>_.
     bindM (getM m_chronyRfcEnabled) (\<lambda>chrony.
     bindM (whenM chrony (bindM (call env Chronyctl_init) (\<lambda>_. ret ()))) (\<lambda>_.
     bindM (connect_bus env) (\<lambda>_.
     modM (\<lambda>s. s\<lparr>m_pathEventMap := path_events (m_pathEventMap s)\<rparr>))))))"

lemma initialize_split:
  "initialize env = bindM (init_prefix env) (\<lambda>_. bindM (setInitialTime env) (\<lambda>_.
     modM (\<lambda>s. s\<lparr>stateMachine := fold table_set transitions (stateMachine s),
       m_state := eSYSMGR_STATE_NTP_WAIT\<rparr>)))"
  by (simp add: initialize_def init_prefix_def bindM_assoc)

lemma initialize_result:
  assumes "initialize env s = (Inr (), t)" "stateMachine s = []"
  shows "stateMachine t = machine" "m_state t = eSYSMGR_STATE_NTP_WAIT"
    "m_timersrc t = m_timersrc s" "mgr_exists t = mgr_exists s"
    "m_timequality t = m_timequality s \<or> m_timequality t = eTIMEQUALILTY_POOR"
proof -
  let ?p = "\<lambda>s :: 'a mgr_scheme. (stateMachine s, m_timersrc s, mgr_exists s)"
  have k1: "keeps (\<lambda>s. (?p s, m_timequality s)) (init_prefix env)"
    unfolding init_prefix_def by (intro keeps_intros | simp)+
  have k2: "keeps ?p (setInitialTime env)"
    by (intro keeps_intros) simp_all
  obtain x u where u: "init_prefix env s = (x, u)" by (cases "init_prefix env s")
  obtain y w where w: "setInitialTime env u = (y, w)" by (cases "setInitialTime env u")
  have "t = w\<lparr>stateMachine := fold table_set transitions (stateMachine w),
       m_state := eSYSMGR_STATE_NTP_WAIT\<rparr>"
    using assms(1) u w by (cases x; cases y) (simp_all add: initialize_split bindM_run modM_run)
  moreover have "?p w = ?p s" using keepsD [OF k1 u] keepsD [OF k2 w] by simp
  moreover have "m_timequality w = m_timequality s \<or> m_timequality w = eTIMEQUALILTY_POOR"
    using keepsD [OF k1 u] setInitialTime_quality [OF w] by auto
  ultimately show "stateMachine t = machine" "m_state t = eSYSMGR_STATE_NTP_WAIT"
    "m_timersrc t = m_timersrc s" "mgr_exists t = mgr_exists s"
    "m_timequality t = m_timequality s \<or> m_timequality t = eTIMEQUALILTY_POOR"
    using assms(2) by (simp_all add: machine_def)
qed

text \<open>The states in which \<open>main\<close> starts the threads.\<close>

definition booted :: "env \<Rightarrow> 'w mgr_scheme \<Rightarrow> bool" where
  "booted env t \<longleftrightarrow> (\<exists>s. \<not> mgr_exists s \<and> boot env s = (Inr (), t))"

lemma booted_status:
  assumes "booted env t"
  shows "ready t \<and> status t \<in> {eSYSMGR_STATE_NTP_WAIT} \<times> {eTIMEQUALILTY_POOR, eTIMEQUALILTY_UNKNOWN} \<times> {''Last Known''}"
proof -
  from assms obtain s where s: "\<not> mgr_exists s" "boot env s = (Inr (), t)"
    by (auto simp: booted_def)
  obtain s' where s': "initialize env s' = (Inr (), t)" "stateMachine s' = []" "mgr_exists s'"
    "m_timersrc s' = ''Last Known''" "m_timequality s' = eTIMEQUALILTY_UNKNOWN"
    using s by (simp add: boot_def get_instance_def new_SysTimeMgr_def prog_simps)
  from initialize_result [OF s'(1,2)] s'(3-5) show ?thesis
    by (auto simp: ready_def status_def)
qed

section \<open>Invariant\<close>

text \<open>The quality that goes with each state.\<close>

definition quality_ok :: "status \<Rightarrow> bool" where
  "quality_ok = (\<lambda>(st, q, _).
     (st = eSYSMGR_STATE_RUNNING \<longleftrightarrow> q = eTIMEQUALILTY_SECURE) \<and>
     (st \<in> {eSYSMGR_STATE_NTP_ACQUIRED, eSYSMGR_STATE_DTT_ACQUIRED, eSYSMGR_STATE_SECURE_TIME_ACQUIRED}
        \<longleftrightarrow> q = eTIMEQUALILTY_GOOD) \<and>
     (st \<in> {eSYSMGR_STATE_INIT, eSYSMGR_STATE_NTP_WAIT, eSYSMGR_STATE_NTP_FAIL}
        \<longleftrightarrow> q \<in> {eTIMEQUALILTY_POOR, eTIMEQUALILTY_UNKNOWN}))"

lemma spec_event_cases:
  "spec_event ev (st, q, src) = (case next_fn st ev of None \<Rightarrow> (st, q, src) | Some f \<Rightarrow> spec_fn f (st, q, src))"
  by (simp add: spec_event_def)

lemma spec_label_quality_ok: "quality_ok a \<Longrightarrow> quality_ok (spec_label l a)"
proof (cases l)
  case (Handle ev)
  assume "quality_ok a"
  obtain st q src where a: "a = (st, q, src)" by (cases a)
  from \<open>quality_ok a\<close> show ?thesis
    unfolding Handle a spec_label.simps spec_event_cases
    by (cases st; cases ev) (auto simp: quality_ok_def)
next
  case (Power msg)
  assume "quality_ok a"
  with Power show ?thesis
    by (cases a; cases "fst (snd a)") (auto simp: quality_ok_def spec_power_def)
qed

interpretation qual: invariant_system "booted env" "mgr_step env" "\<lambda>s. ready s \<and> quality_ok (status s)"
proof unfold_locales
  show "ready s \<and> quality_ok (status s)" if "booted env s" for s :: "'a mgr_scheme"
    using booted_status [OF that] by (auto simp: quality_ok_def)
  show "ready t \<and> quality_ok (status t)"
    if "ready s \<and> quality_ok (status s)" "mgr_step env s l t" for s t :: "'a mgr_scheme" and l
    using that mgr_step_ready mgr_step_status spec_label_quality_ok by metis
qed

section \<open>Both sources of time lead to the running state\<close>

text \<open>
  How far the daemon is: \<open>knows st\<close> are the availability events a state has already accounted for.
\<close>

fun knows :: "sysTimeMgrState \<Rightarrow> sysTimeMgrEvent set" where
  "knows eSYSMGR_STATE_NTP_ACQUIRED = {eSYSMGR_EVENT_NTP_AVAILABLE}"
| "knows eSYSMGR_STATE_SECURE_TIME_ACQUIRED = {eSYSMGR_EVENT_SECURE_TIME_AVAILABLE}"
| "knows eSYSMGR_STATE_RUNNING = {eSYSMGR_EVENT_NTP_AVAILABLE, eSYSMGR_EVENT_SECURE_TIME_AVAILABLE}"
| "knows _ = {}"

lemma knows_grows:
  assumes "st \<noteq> eSYSMGR_STATE_INIT"
  shows "knows (fst (spec_event ev (st, q, src))) =
      knows st \<union> ({ev} \<inter> {eSYSMGR_EVENT_NTP_AVAILABLE, eSYSMGR_EVENT_SECURE_TIME_AVAILABLE}) \<and>
    fst (spec_event ev (st, q, src)) \<noteq> eSYSMGR_STATE_INIT"
  unfolding spec_event_cases using assms by (cases st; cases ev) auto

lemma knows_events:
  "fst a \<noteq> eSYSMGR_STATE_INIT \<Longrightarrow>
   knows (fst (fold spec_label (map Handle evs) a)) =
     knows (fst a) \<union> (set evs \<inter> {eSYSMGR_EVENT_NTP_AVAILABLE, eSYSMGR_EVENT_SECURE_TIME_AVAILABLE}) \<and>
   fst (fold spec_label (map Handle evs) a) \<noteq> eSYSMGR_STATE_INIT"
proof (induction evs arbitrary: a)
  case (Cons ev evs)
  obtain st q src where a: "a = (st, q, src)" by (cases a)
  with Cons.prems have st: "st \<noteq> eSYSMGR_STATE_INIT" by simp
  from knows_grows [OF st, of ev q src] Cons.IH [of "spec_event ev a"] show ?case
    unfolding a by auto
qed simp

end
