(* ===== verification/Mgr_Total.thy ===== *)
theory Mgr_Total
  imports Mgr_Correct
begin

text \<open>
  Total correctness of the manager in a well-behaved environment: with no null pointers among
  its objects and room in its stores, every handler returns, and what it broadcasts is exactly
  what the table says.
\<close>

section \<open>Well-formed managers\<close>

text \<open>No null pointer, times of this era on file, and room for \<open>n\<close> more updates of the stores.\<close>

definition mgr_wf :: "nat \<Rightarrow> 'w mgr_scheme \<Rightarrow> bool" where
  "mgr_wf n s \<longleftrightarrow> w_ok s \<and> m_publish s \<noteq> None \<and> None \<notin> set (m_timerSrc s) \<and>
     (\<forall>p \<in> set (m_timerSync s). \<exists>y. p = Some y \<and> sync_room n y)"

lemma w_ok_mgr [simp]:
  "w_ok (s\<lparr>m_timerSync := x\<rparr>) = w_ok s" "w_ok (s\<lparr>m_timerSrc := y\<rparr>) = w_ok s"
  "w_ok (s\<lparr>m_state := a\<rparr>) = w_ok s" "w_ok (s\<lparr>m_timequality := q\<rparr>) = w_ok s"
  "w_ok (s\<lparr>m_timersrc := z\<rparr>) = w_ok s" "w_ok (s\<lparr>m_event := e\<rparr>) = w_ok s"
  by (simp_all add: w_ok_def)

lemma mgr_wf_simps [simp]:
  "mgr_wf n (s\<lparr>w_hist := h\<rparr>) = mgr_wf n s" "mgr_wf n (s\<lparr>m_state := a\<rparr>) = mgr_wf n s"
  "mgr_wf n (s\<lparr>m_timequality := q\<rparr>) = mgr_wf n s" "mgr_wf n (s\<lparr>m_timersrc := z\<rparr>) = mgr_wf n s"
  "mgr_wf n (s\<lparr>m_event := e\<rparr>) = mgr_wf n s"
  by (simp_all add: mgr_wf_def)

lemma sync_room_mono: "sync_room n y \<Longrightarrow> k \<le> n \<Longrightarrow> sync_room k y"
  by (auto simp: sync_room_def split: timeSync.splits)

lemma mgr_wf_mono: "mgr_wf n s \<Longrightarrow> k \<le> n \<Longrightarrow> mgr_wf k s"
  by (auto simp: mgr_wf_def dest: sync_room_mono)

section \<open>Publishing\<close>

lemma visible_calls_mgr [simp]:
  "visible_calls (s\<lparr>m_timerSync := x\<rparr>) = visible_calls s" "visible_calls (s\<lparr>m_timerSrc := y\<rparr>) = visible_calls s"
  "visible_calls (s\<lparr>m_state := a\<rparr>) = visible_calls s" "visible_calls (s\<lparr>m_timequality := q\<rparr>) = visible_calls s"
  "visible_calls (s\<lparr>m_timersrc := z\<rparr>) = visible_calls s" "visible_calls (s\<lparr>m_event := e\<rparr>) = visible_calls s"
  by (simp_all add: visible_calls_def)

text \<open>A message as a client reads it: the codes, and the texts up to their terminators.\<close>

definition announces :: "TimerMsg \<Rightarrow> publishEvent \<Rightarrow> string \<Rightarrow> qualityOfTime \<Rightarrow> string \<Rightarrow> bool" where
  "announces m ev message q src \<longleftrightarrow>
     msg_event m = publishEvent_code ev \<and> msg_quality m = quality_code q \<and>
     c_string (msg_message m) = take 79 (c_string message) \<and>
     c_string (msg_timerSrc m) = take 79 (c_string src) \<and>
     (\<exists>v. valid_time v \<and> c_string (msg_currentTime m) = show_int v) \<and>
     length (msg_message m) = 80 \<and> length (msg_timerSrc m) = 80 \<and> length (msg_currentTime m) = 80"

lemma length_uninitialised [simp]: "length (uninitialised env h k) = 80"
  by (simp add: uninitialised_def cTIMER_STATUS_MESSAGE_LENGTH_def)

lemma length_put_text: "length buf = 80 \<Longrightarrow> length (put_text x buf) = 80"
  by (simp add: put_text_def cTIMER_STATUS_MESSAGE_LENGTH_def length_snprintf)

lemma c_string_put_text: "c_string (put_text x buf) = take 79 (c_string x)"
  by (simp add: put_text_def cTIMER_STATUS_MESSAGE_LENGTH_def c_string_snprintf)

lemma log_times_run:
  fixes s :: "'w world_scheme"
  assumes "sane_clock env"
  shows "\<exists>h. log_times env s = (Inr (wall_clock env (w_hist s)), s\<lparr>w_hist := h\<rparr>) \<and>
    visible_calls (s\<lparr>w_hist := h\<rparr>) = visible_calls s"
proof -
  obtain h where h: "realtime_seconds env s = (Inr (wall_clock env (w_hist s)), s\<lparr>w_hist := h\<rparr>)"
    "visible_calls (s\<lparr>w_hist := h\<rparr>) = visible_calls s"
    using realtime_seconds_run [OF assms] by blast
  have "valid_time (out_int env h' Time_null)" for h' using assms by (simp add: sane_clock_time)
  with h wall_clock_sane [OF assms] show ?thesis
    by (auto simp: log_times_def time_null_def call_int_def prog_simps valid_time_localtime [OF assms] visible_calls_def)
qed

lemma c_string_show_int: "c_string (show_int v) = show_int v"
proof (rule c_string_no_nul)
  have "\<not> is_digit nul" by code_simp
  then have "nul \<notin> set (show_nat n)" for n using show_nat_digits [of nul n] by blast
  then show "nul \<notin> set (show_int v)" by (auto simp: show_int_def nul_def)
qed

lemma publishStatus_run:
  fixes s :: "'w mgr_scheme"
  assumes "sane_clock env" "m_publish s = Some p"
  shows "\<exists>h m. publishStatus env ev message s = (Inr (), s\<lparr>w_hist := h\<rparr>) \<and>
    announces m ev message (m_timequality s) (m_timersrc s) \<and>
    visible_calls (s\<lparr>w_hist := h\<rparr>) = visible_calls s @
      (case p of TestPublish _ \<Rightarrow> [] | IarmPublish pub \<Rightarrow>
        [IARM_Bus_BroadcastEvent (c_string pub) cTIMER_STATUS_UPDATE m])"
proof -
  obtain v h where v: "log_times env s = (Inr v, s\<lparr>w_hist := h\<rparr>)" "valid_time v"
    "visible_calls (s\<lparr>w_hist := h\<rparr>) = visible_calls s"
    using log_times_run [OF assms(1)] wall_clock_sane [OF assms(1)] by blast
  define m where "m = \<lparr>msg_event = publishEvent_code ev, msg_quality = quality_code (m_timequality s),
        msg_timerSrc = put_text (m_timersrc s) (uninitialised env (w_hist s) 0),
        msg_currentTime = put_text (show_int v) (uninitialised env (w_hist s) 1),
        msg_message = put_text message zeros\<rparr>"
  have "length (show_int v) \<le> 79"
    using show_int_length [OF valid_time_ll [OF v(2)]] by simp
  then have "announces m ev message (m_timequality s) (m_timersrc s)"
    using v(2) by (auto simp: announces_def m_def c_string_put_text c_string_show_int length_put_text
        zeros_def cTIMER_STATUS_MESSAGE_LENGTH_def)
  moreover have run: "publishStatus env ev message s =
      publish env p cTIMER_STATUS_UPDATE m (s\<lparr>w_hist := h\<rparr>)"
    using v(1) assms(2) by (simp add: publishStatus_def prog_simps m_def deref_def)
  moreover from v(3) have "visible_calls (s\<lparr>w_hist := h @ [(c, r)]\<rparr>) =
      visible_calls s @ (if visible c then [c] else [])" for c r
    by (simp add: visible_calls_def)
  ultimately show ?thesis
    using v(3) by (cases p) (auto simp: prog_simps)
qed

lemma publishStatus_safe:
  assumes "sane_clock env"
  shows "safe (mgr_wf n) (publishStatus env ev message) (\<lambda>_. mgr_wf n)"
proof (rule safeI)
  fix s :: "'w mgr_scheme" assume s: "mgr_wf n s"
  then obtain p where "m_publish s = Some p" by (auto simp: mgr_wf_def)
  from publishStatus_run [OF assms this] s
  show "\<exists>x t. publishStatus env ev message s = (Inr x, t) \<and> mgr_wf n t" by fastforce
qed

section \<open>Every handler returns\<close>

lemma updateTimeSync_safe:
  assumes "sane_clock env" "valid_time v"
  shows "safe (mgr_wf (Suc n)) (updateTimeSync env v) (\<lambda>_. mgr_wf n)"
proof (rule safeI)
  fix s :: "'w mgr_scheme" assume s: "mgr_wf (Suc n) s"
  let ?m = "mapM (\<lambda>p. deref p (\<lambda>y. bindM (sync_updateTime env y v) (\<lambda>y'. ret (Some y')))) (m_timerSync s)"
  have "\<forall>p \<in> set (m_timerSync s). \<exists>y. p = Some y \<and> sync_room (Suc n) y" "w_ok s"
    using s by (simp_all add: mgr_wf_def)
  then obtain ys t where t: "?m s = (Inr ys, t)" "w_ok t" "\<forall>p \<in> set ys. \<exists>y. p = Some y \<and> sync_room n y"
    using safeD [OF tsync.update_all_safe [OF assms, of "m_timerSync s" n]] by blast
  have "keeps (\<lambda>s :: 'w mgr_scheme. (m_publish s, m_timerSrc s)) ?m"
    by (intro keeps_intros) simp_all
  from keepsD [OF this t(1)] t s
  show "\<exists>x t. updateTimeSync env v s = (Inr x, t) \<and> mgr_wf n t"
    by (auto simp: updateTimeSync_def bindM_run getM_run modM_run mgr_wf_def)
qed

lemma getTimeSec_keeps_parts:
  "keeps (\<lambda>s :: 'w mgr_scheme. (m_publish s, m_timerSync s)) (getTimeSec env src)"
  by (intro keeps_intros) simp_all

text \<open>The loops over the sources: the publisher and the stores are not touched.\<close>

definition src_inv :: "nat \<Rightarrow> 'w mgr_scheme \<Rightarrow> bool" where
  "src_inv n s \<longleftrightarrow> w_ok s \<and> m_publish s \<noteq> None \<and>
     (\<forall>p \<in> set (m_timerSync s). \<exists>y. p = Some y \<and> sync_room n y)"

lemma mgr_wf_src_inv: "mgr_wf n s \<longleftrightarrow> src_inv n s \<and> None \<notin> set (m_timerSrc s)"
  by (auto simp: mgr_wf_def src_inv_def)

lemma src_inv_sources [simp]: "src_inv n (s\<lparr>m_timerSrc := x\<rparr>) = src_inv n s"
  by (simp add: src_inv_def)

lemma getTimeSec_src_inv:
  assumes "sane_clock env" "sane_rpc env"
  shows "safe (src_inv n) (getTimeSec env src) (\<lambda>(v, src') s. src_inv n s \<and> valid_time v)"
proof (rule safeI)
  fix s :: "'w mgr_scheme" assume s: "src_inv n s"
  then have "w_ok s" by (simp add: src_inv_def)
  from safeD [OF getTimeSec_sane [OF assms] this, of src]
  obtain v src' t where t: "getTimeSec env src s = (Inr (v, src'), t)" "w_ok t" "valid_time v" by auto
  have "src_inv n t"
    using keepsD [OF getTimeSec_keeps_parts t(1)] t s by (simp add: src_inv_def)
  with t
  show "\<exists>x t. getTimeSec env src s = (Inr x, t) \<and>
     (case x of (v, src') \<Rightarrow> \<lambda>s. src_inv n s \<and> valid_time v) t" by auto
qed

lemma read_source_safe:
  assumes "sane_clock env" "sane_rpc env" "p \<noteq> None"
  shows "safe (\<lambda>s. src_inv n s \<and> (case v of (a, b, xs) \<Rightarrow> valid_time a \<and> valid_time b \<and> None \<notin> set xs))
     (read_source env v p)
     (\<lambda>v s. src_inv n s \<and> (case v of (a, b, xs) \<Rightarrow> valid_time a \<and> valid_time b \<and> None \<notin> set xs))"
proof -
  obtain src where p: "p = Some src" using assms(3) by auto
  obtain a b xs where v: "v = (a, b, xs)" by (cases v)
  show ?thesis
  proof (rule safeI)
    fix s :: "'w mgr_scheme"
    assume s: "src_inv n s \<and> (case v of (a, b, xs) \<Rightarrow> valid_time a \<and> valid_time b \<and> None \<notin> set xs)"
    then have "src_inv n s" by simp
    from safeD [OF getTimeSec_src_inv [OF assms(1,2)] this, of src]
    obtain t' src' t where "getTimeSec env src s = (Inr (t', src'), t)" "src_inv n t" "valid_time t'"
      by auto
    with s v p show "\<exists>x t. read_source env v p s = (Inr x, t) \<and> src_inv n t \<and>
        (case x of (a, b, xs) \<Rightarrow> valid_time a \<and> valid_time b \<and> None \<notin> set xs)"
      by (auto simp: read_source_def deref_def bindM_run ret_run)
  qed
qed

lemma timerExpiry_safe:
  assumes "sane_clock env" "sane_rpc env"
  shows "safe (mgr_wf (Suc n)) (timerExpiry env) (\<lambda>_. mgr_wf n)"
proof (rule safeI)
  fix s :: "'w mgr_scheme" assume s: "mgr_wf (Suc n) s"
  define I where "I = (\<lambda>(v :: int \<times> int \<times> timeSrc option list) (s :: 'w mgr_scheme). src_inv (Suc n) s \<and>
     (case v of (a, b, xs) \<Rightarrow> valid_time a \<and> valid_time b \<and> None \<notin> set xs))"
  have "safe (I v) (read_source env v p) I" if "p \<in> set (m_timerSrc s)" for v p
  proof -
    have "p \<noteq> None" using s that by (metis mgr_wf_src_inv)
    then show ?thesis unfolding I_def by (intro read_source_safe assms)
  qed
  then have all: "safe (I (0, 0, [])) (foldM (read_source env) (0, 0, []) (m_timerSrc s)) I"
    by (rule safe_foldM)
  have "I (0, 0, []) s" using s by (simp add: mgr_wf_src_inv I_def)
  from safeD [OF all this] obtain ref fl ps t where
    t: "foldM (read_source env) (0, 0, []) (m_timerSrc s) s = (Inr (ref, fl, ps), t)"
    and I: "src_inv (Suc n) t" "valid_time ref" "valid_time fl" "None \<notin> set ps"
    by (auto simp: I_def)
  have "is_ll (ref - fl)"
    using I(2,3) by (simp add: is_ll_def valid_time_def time_bound_def
        LLONG_MIN_def LLONG_MAX_def)
  then have run: "timerExpiry env s =
      updateTimeSync env (if ref - fl \<le> 600 then ref else 0) (t\<lparr>m_timerSrc := ps\<rparr>)"
    using t by (simp add: timerExpiry_def checked_ll_def bindM_run getM_run modM_run ret_run)
  have "mgr_wf (Suc n) (t\<lparr>m_timerSrc := ps\<rparr>)" "valid_time (if ref - fl \<le> 600 then ref else 0)"
    using I by (simp_all add: mgr_wf_src_inv)
  then show "\<exists>x t. timerExpiry env s = (Inr x, t) \<and> mgr_wf n t"
    unfolding run using safeD [OF updateTimeSync_safe [OF assms(1)]] by blast
qed

lemma checkTime_src_inv:
  assumes "sane_clock env" "sane_rpc env"
  shows "safe (src_inv n) (checkTime env src) (\<lambda>_. src_inv n)"
  unfolding checkTime_def
  by (rule safe_bindM [OF getTimeSec_src_inv [OF assms]]) (auto intro: safe_ret)

lemma check_sources_safe:
  assumes "sane_clock env" "sane_rpc env"
  shows "safe (mgr_wf n) (check_sources env) (\<lambda>_. mgr_wf n)"
proof (rule safeI)
  fix s :: "'w mgr_scheme" assume s: "mgr_wf n s"
  let ?m = "mapM (\<lambda>p. deref p (\<lambda>src. bindM (checkTime env src) (\<lambda>(_, src'). ret (Some src')))) (m_timerSrc s)"
  have "safe (src_inv n) (deref p (\<lambda>src. bindM (checkTime env src) (\<lambda>(_, src'). ret (Some src'))))
      (\<lambda>y s. src_inv n s \<and> y \<noteq> None)" if "p \<in> set (m_timerSrc s)" for p
  proof -
    from s that obtain src where p: "p = Some src" by (metis mgr_wf_src_inv not_None_eq)
    show ?thesis
      unfolding p deref_def option.case
      by (rule safe_bindM [OF checkTime_src_inv [OF assms]]) (auto intro: safe_ret)
  qed
  then have all: "safe (src_inv n) ?m (\<lambda>ys t. src_inv n t \<and> list_all2 (\<lambda>_ y. y \<noteq> None) (m_timerSrc s) ys)"
    by (intro safe_mapM)
  have "src_inv n s" using s by (simp add: mgr_wf_src_inv)
  from safeD [OF all this] obtain ys t where "?m s = (Inr ys, t)" "src_inv n t" "list_all2 (\<lambda>_ y. y \<noteq> None) (m_timerSrc s) ys"
    by blast
  moreover from this(3) have "None \<notin> set ys"
    by (auto simp: list_all2_conv_all_nth in_set_conv_nth)
  ultimately show "\<exists>x t. check_sources env s = (Inr x, t) \<and> mgr_wf n t"
    by (auto simp: check_sources_def bindM_run getM_run modM_run mgr_wf_src_inv)
qed

lemma read_clock_safe:
  assumes "sane_clock env" "sane_rpc env" "p \<noteq> None"
  shows "safe (\<lambda>s. src_inv n s \<and> (case v of (a, b, xs) \<Rightarrow> valid_time a \<and> None \<notin> set xs))
     (read_clock env v p)
     (\<lambda>v s. src_inv n s \<and> (case v of (a, b, xs) \<Rightarrow> valid_time a \<and> None \<notin> set xs))"
proof -
  obtain src where p: "p = Some src" using assms(3) by auto
  obtain a b xs where v: "v = (a, b, xs)" by (cases v)
  have ask: "safe (\<lambda>s. src_inv n s \<and> valid_time a)
      (if isclockProvider src \<and> \<not> b
       then bindM (getTimeSec env src) (\<lambda>(v, src'). ret (v, True, src')) else ret (a, b, src))
      (\<lambda>(a', _, _) s. src_inv n s \<and> valid_time a')"
  proof (cases "isclockProvider src \<and> \<not> b")
    case True
    have "safe (src_inv n) (bindM (getTimeSec env src) (\<lambda>(v, src'). ret (v, True, src')))
        (\<lambda>(a', _, _) s. src_inv n s \<and> valid_time a')"
      by (rule safe_bindM [OF getTimeSec_src_inv [OF assms(1,2)]]) (auto intro: safe_ret)
    with True show ?thesis by (auto intro: safe_strengthen)
  qed (auto intro: safe_ret)
  have rest: "safe (\<lambda>s. src_inv n s \<and> valid_time a')
      (bindM (checkTime env src') (\<lambda>(_, src''). ret (a', b', xs @ [Some src''])))
      (\<lambda>(a, _, ys) s. src_inv n s \<and> valid_time a \<and> (None \<notin> set xs \<longrightarrow> None \<notin> set ys))" for a' b' src'
  proof (cases "valid_time a'")
    case True
    show ?thesis
      by (rule safe_strengthen [OF safe_bindM [OF checkTime_src_inv [OF assms(1,2)]]])
        (auto intro!: safe_ret simp: True)
  qed (simp add: safe_def)
  have "safe (\<lambda>s. src_inv n s \<and> valid_time a) (read_clock env v p)
      (\<lambda>(a, _, ys) s. src_inv n s \<and> valid_time a \<and> (None \<notin> set xs \<longrightarrow> None \<notin> set ys))"
    unfolding p v read_clock_def deref_def option.case prod.case
  proof (rule safe_bindM [OF ask])
    show "safe ((\<lambda>(a', _, _) s. src_inv n s \<and> valid_time a') x)
      (case x of (locTime', acq', src') \<Rightarrow> bindM (checkTime env src') (\<lambda>(_, src'').
         ret (locTime', acq', xs @ [Some src''])))
      (\<lambda>(a, _, ys) s. src_inv n s \<and> valid_time a \<and> (None \<notin> set xs \<longrightarrow> None \<notin> set ys))" for x
      by (cases x) (auto intro: rest)
  qed
  then show ?thesis
    unfolding safe_def v by fastforce
qed

lemma updateClockRealTime_safe:
  assumes "sane_clock env" "sane_rpc env"
  shows "safe (mgr_wf (Suc n)) (updateClockRealTime env) (\<lambda>_. mgr_wf n)"
proof (rule safeI)
  fix s :: "'w mgr_scheme" assume s: "mgr_wf (Suc n) s"
  define I where "I = (\<lambda>(v :: int \<times> bool \<times> timeSrc option list) (s :: 'w mgr_scheme).
     src_inv (Suc n) s \<and> (case v of (a, b, xs) \<Rightarrow> valid_time a \<and> None \<notin> set xs))"
  have "safe (I v) (read_clock env v p) I" if "p \<in> set (m_timerSrc s)" for v p
  proof -
    have "p \<noteq> None" using s that by (metis mgr_wf_src_inv)
    then show ?thesis unfolding I_def by (intro read_clock_safe assms)
  qed
  then have all: "safe (I (0, False, [])) (foldM (read_clock env) (0, False, []) (m_timerSrc s)) I"
    by (rule safe_foldM)
  have "I (0, False, []) s" using s by (simp add: mgr_wf_src_inv I_def)
  from safeD [OF all this] obtain v b ps t where
    t: "foldM (read_clock env) (0, False, []) (m_timerSrc s) s = (Inr (v, b, ps), t)"
    and I: "src_inv (Suc n) t" "None \<notin> set ps"
    by (auto simp: I_def)
  obtain h where run: "updateClockRealTime env s = updateTimeSync env 0 (t\<lparr>m_timerSrc := ps, w_hist := h\<rparr>)"
    using t by (cases "v = 0")
      (auto simp: updateClockRealTime_def prog_simps intro: that [of "w_hist t"] that)
  have "mgr_wf (Suc n) (t\<lparr>m_timerSrc := ps, w_hist := h\<rparr>)"
    using I by (simp add: mgr_wf_src_inv src_inv_def)
  from safeD [OF updateTimeSync_safe [OF assms(1) valid_time_0] this]
  show "\<exists>x t. updateClockRealTime env s = (Inr x, t) \<and> mgr_wf n t"
    unfolding run .
qed

lemma safe_modM_wf: "(\<And>s. mgr_wf n (g s) = mgr_wf n s) \<Longrightarrow> safe (mgr_wf n) (modM g) (\<lambda>_. mgr_wf n)"
  by (rule safe_modM) simp

lemma handler_safe:
  assumes "sane_clock env" "sane_rpc env"
  shows "safe (mgr_wf (Suc n)) (handler env f) (\<lambda>_. mgr_wf n)"
proof -
  note rules = updateTimeSync_safe [OF assms(1) valid_time_0] publishStatus_safe [OF assms(1)]
    timerExpiry_safe [OF assms] check_sources_safe [OF assms] updateClockRealTime_safe [OF assms]
  show ?thesis
    by (cases f)
      (simp_all only: handler.simps ntpFailed_def ntpAquired_def dttAquired_def updateSecureTime_def
        secureTimeAcquired_def updateTime_def,
       (rule rules safe_bindM safe_modM_wf, (simp; fail)?)+)
qed

end
