(* ===== verification/Mgr_Boot.thy ===== *)
theory Mgr_Boot
  imports Mgr_Total
begin

text \<open>
  Starting the daemon: reading the configuration, connecting to the bus, setting the initial
  time. With a configuration of known types and readable stores the start succeeds and leaves a
  well-formed manager; and the properties of the running manager, with the start as the initial
  state.
\<close>

section \<open>The configuration\<close>

definition configured_src :: "env \<Rightarrow> (string \<times> string \<times> string) list \<Rightarrow> timeSrc option list" where
  "configured_src env es = [createTimeSrc env ty (m_directory @ a). (c, ty, a) \<leftarrow> es, c = ''timesrc'']"

definition configured_sync :: "env \<Rightarrow> (string \<times> string \<times> string) list \<Rightarrow> timeSync option list" where
  "configured_sync env es = [createTimeSync env ty (m_directory @ a). (c, ty, a) \<leftarrow> es, c = ''timesync'']"

lemma configured_Cons:
  "configured_src env (e # es) = configured_src env [e] @ configured_src env es"
  "configured_sync env (e # es) = configured_sync env [e] @ configured_sync env es"
  "configured_src env [] = []" "configured_sync env [] = []"
  by (simp_all add: configured_src_def configured_sync_def)

lemma configure_run:
  "configure env e s = (Inr (), s\<lparr>m_timerSrc := m_timerSrc s @ configured_src env [e],
     m_timerSync := m_timerSync s @ configured_sync env [e]\<rparr>)"
  by (cases e) (simp add: configure_def modM_run ret_run configured_src_def configured_sync_def)

lemma configure_all:
  "seqM (map (configure env) es) s = (Inr (), s\<lparr>m_timerSrc := m_timerSrc s @ configured_src env es,
     m_timerSync := m_timerSync s @ configured_sync env es\<rparr>)"
proof (induction es arbitrary: s)
  case Nil
  then show ?case by (simp add: configured_Cons ret_run)
next
  case (Cons e es)
  then show ?case
    using configured_Cons(1,2) [of env e es] by (simp add: bindM_run configure_run)
qed

text \<open>The entries of the configuration file as the manager reads them; none when it cannot.\<close>

definition config_entries :: "env \<Rightarrow> 'w mgr_scheme \<Rightarrow> (string \<times> string \<times> string) list" where
  "config_entries env s =
     (let path = c_string (m_cfgfile s) in
      case w_fs s path of None \<Rightarrow> []
      | Some f \<Rightarrow> if 0 \<le> ret_code env (w_hist s) (Open_read path) then read_entries (content f) else [])"

lemma load_config_run:
  "\<exists>h. load_config env s = (Inr (), s\<lparr>w_hist := h,
     m_timerSrc := m_timerSrc s @ configured_src env (config_entries env s),
     m_timerSync := m_timerSync s @ configured_sync env (config_entries env s)\<rparr>)"
  by (auto simp: load_config_def open_read_def prog_simps configure_all config_entries_def Let_def
      configured_Cons split: option.splits)

section \<open>The bus\<close>

definition bus_works :: "env \<Rightarrow> bool" where
  "bus_works env \<longleftrightarrow> (IARM_SUPPORT_DISABLED env \<or> ENABLE_IARM env) \<and>
     (\<forall>h name. ret_code env h (Thread_create name) = 0)"

lemma iarm_connect_run: "\<exists>h. iarm_connect env name s = (Inr (), s\<lparr>w_hist := h\<rparr>)"
  by (auto simp: iarm_connect_def prog_simps)

lemma createPublish_safe:
  assumes "type = ''test'' \<or> type = ''iarm'' \<and> ENABLE_IARM env"
  shows "safe (\<lambda>_. True) (createPublish env type args) (\<lambda>p _. p \<noteq> None)"
proof (rule safeI)
  fix s :: "'w world_scheme"
  show "\<exists>x t. createPublish env type args s = (Inr x, t) \<and> x \<noteq> None"
    using assms iarm_connect_run [of env args s]
    by (auto simp: createPublish_def new_IarmPublish_def bindM_run ret_run)
qed

text \<open>A new subscriber's pointer is valid, and other pointers stay so.\<close>

abbreviation ptr_ok :: "nat \<Rightarrow> nat \<Rightarrow> 'w bus_scheme \<Rightarrow> bool" where
  "ptr_ok n k s \<equiv> k < length (b_subs s) \<and> n \<le> length (b_subs s)"

lemma new_sub_safe:
  "safe (\<lambda>s. n \<le> length (b_subs s)) (new_IarmSubscriber o') (ptr_ok n)"
  "safe (\<lambda>s. n \<le> length (b_subs s)) (alloc_sub o') (ptr_ok n)"
  by (simp_all add: safe_def new_IarmSubscriber_def alloc_sub_def bindM_run modM_run ret_run)

lemma connected_safe:
  "safe (ptr_ok n k) (bindM (iarm_connect env name) (\<lambda>_. ret k)) (ptr_ok n)"
proof (rule safeI)
  fix s :: "'w bus_scheme" assume "ptr_ok n k s"
  with iarm_connect_run [of env name s]
  show "\<exists>x t. bindM (iarm_connect env name) (\<lambda>_. ret k) s = (Inr x, t) \<and> ptr_ok n x t"
    by (auto simp: bindM_run ret_run)
qed

lemma createSubscriber_safe:
  assumes "type = ''test'' \<or> type = ''iarm'' \<and> ENABLE_IARM env"
    and "subtype = TIMER_STATUS_MSG \<or> subtype = POWER_CHANGE_MSG"
  shows "safe (\<lambda>s. n \<le> length (b_subs s)) (createSubscriber env type args subtype)
    (\<lambda>p s. \<exists>k. p = Some k \<and> ptr_ok n k s)"
proof -
  have some: "safe P (bindM m (\<lambda>i. ret (Some i))) (\<lambda>p s. \<exists>k. p = Some k \<and> ptr_ok n k s)"
    if "safe P m (ptr_ok n)" for P and m :: "('w, nat) bus_io"
    by (rule safe_bindM [OF that]) (auto intro: safe_ret)
  show ?thesis
    using assms
    by (auto simp: createSubscriber_def new_IarmTimerStatusSubscriber_def new_IarmPowerSubscriber_def
        new_IpowerControllerSubscriber_def
        intro!: some new_sub_safe safe_bindM [OF new_sub_safe(1) connected_safe])
qed

lemma subscribe_safe:
  assumes "\<And>h name. ret_code env h (Thread_create name) = 0"
  shows "safe (ptr_ok n k) (subscribe env (Some k) name fptr) (\<lambda>_ s. n \<le> length (b_subs s))"
proof (rule safeI)
  fix s :: "'w bus_scheme" assume "ptr_ok n k s"
  then show "\<exists>x t. subscribe env (Some k) name fptr s = (Inr x, t) \<and> n \<le> length (b_subs t)"
    using assms by (cases "b_subs s ! k")
      (auto simp: subscribe_def deref_def timerstatus_subscribe_def iarmpower_subscribe_def
        ipower_subscribe_def sysTimeMgrInitPwrEvt_def start_thread_def put_sub_def prog_simps)
qed

text \<open>The part of \<open>connect_bus\<close> after the publisher.\<close>

definition connect_subs :: "env \<Rightarrow> string \<Rightarrow> ('w, unit) mgr_io" where
  "connect_subs env type =
     bindM (createSubscriber env type IARM_BUS_SYSTIME_MGR_NAME TIMER_STATUS_MSG) (\<lambda>tmr.
     bindM (modM (\<lambda>s. s\<lparr>m_tmrsubscriber := tmr\<rparr>)) (\<lambda>_.
     bindM (createSubscriber env type IARM_BUS_SYSTIME_MGR_NAME POWER_CHANGE_MSG) (\<lambda>pwr.
     bindM (modM (\<lambda>s. s\<lparr>m_subscriber := pwr\<rparr>)) (\<lambda>_.
     bindM (subscribe env tmr TIMER_STATUS_MSG GetTimeStatusFn) (\<lambda>_.
     bindM (subscribe env pwr POWER_CHANGE_MSG PowerhandlerFn) (\<lambda>_. ret ()))))))"

lemma safe_ptr: "(\<And>k. safe (P k) (f (Some k)) Q) \<Longrightarrow> safe (\<lambda>s. \<exists>k. p = Some k \<and> P k s) (f p) Q"
  by (auto simp: safe_def)

lemma safe_set:
  "safe P' m Q \<Longrightarrow> (\<And>s. P s \<Longrightarrow> P' (g s)) \<Longrightarrow> safe P (bindM (modM g) (\<lambda>_. m)) Q"
  by (simp add: safe_def bindM_run modM_run)

lemma connect_subs_safe:
  assumes type: "type = ''test'' \<or> type = ''iarm'' \<and> ENABLE_IARM env"
    and threads: "\<And>h name. ret_code env h (Thread_create name) = 0"
  shows "safe (\<lambda>_ :: 'w mgr_scheme. True) (connect_subs env type) (\<lambda>_ _. True)"
proof -
  have tmr: "safe (ptr_ok (Suc i) j) (subscribe env (Some i) name f) (\<lambda>_. ptr_ok 0 j)" for i j name f
    by (rule safe_strengthen [OF safe_weaken [OF subscribe_safe [OF threads, where n = "Suc j"]]]) auto
  have pwr: "safe (ptr_ok 0 j) (bindM (subscribe env (Some j) name f) (\<lambda>_. ret ())) (\<lambda>_ _. True)" for j name f
    by (rule safe_bindM [OF subscribe_safe [OF threads]]) (rule safe_ret, simp)
  have first: "safe (\<lambda>_. True) (createSubscriber env type IARM_BUS_SYSTIME_MGR_NAME TIMER_STATUS_MSG)
      (\<lambda>p s. \<exists>k. p = Some k \<and> Suc k \<le> length (b_subs s))"
    by (rule safe_strengthen [OF safe_weaken [OF createSubscriber_safe [OF type, where n = 0]]]) auto
  have second: "safe (\<lambda>s. Suc i \<le> length (b_subs s))
      (createSubscriber env type IARM_BUS_SYSTIME_MGR_NAME POWER_CHANGE_MSG)
      (\<lambda>p s. \<exists>k. p = Some k \<and> ptr_ok (Suc i) k s)" for i
    by (rule createSubscriber_safe [OF type]) simp
  show ?thesis
    unfolding connect_subs_def
    by (rule safe_bindM [OF first], rule safe_ptr, rule safe_set,
        rule safe_bindM [OF second], rule safe_ptr, rule safe_set,
        rule safe_bindM [OF tmr pwr]) simp_all
qed

lemma connect_bus_safe:
  assumes "bus_works env"
  shows "safe (\<lambda>_ :: 'w mgr_scheme. True) (connect_bus env) (\<lambda>_ s. m_publish s \<noteq> None)"
proof -
  define type where "type = (if IARM_SUPPORT_DISABLED env then ''test'' else ''iarm'')"
  have type: "type = ''test'' \<or> type = ''iarm'' \<and> ENABLE_IARM env"
    and threads: "\<And>h name. ret_code env h (Thread_create name) = 0"
    using assms by (auto simp: bus_works_def type_def)
  have split: "connect_bus env = bindM (createPublish env type IARM_BUS_SYSTIME_MGR_NAME) (\<lambda>pub.
      bindM (modM (\<lambda>s. s\<lparr>m_publish := pub\<rparr>)) (\<lambda>_. connect_subs env type))"
    by (simp add: connect_bus_def connect_subs_def type_def Let_def)
  have "keeps m_publish (connect_subs env type)"
    unfolding connect_subs_def by (intro keeps_intros | simp)+
  from safe_keeps [OF connect_subs_safe [OF type threads] this]
  have subs: "safe (\<lambda>s :: 'w mgr_scheme. m_publish s = p) (connect_subs env type) (\<lambda>_ s. m_publish s = p)" for p
    by simp
  have "safe (\<lambda>_ :: 'w mgr_scheme. p \<noteq> None) (bindM (modM (\<lambda>s. s\<lparr>m_publish := p\<rparr>)) (\<lambda>_. connect_subs env type))
      (\<lambda>_ s. m_publish s \<noteq> None)" for p
  proof (cases p)
    case (Some y)
    show ?thesis
      unfolding Some by (rule safe_set [OF safe_weaken [OF subs [of "Some y"]]]) auto
  qed (simp add: safe_def)
  then show ?thesis
    unfolding split by (rule safe_bindM [OF createPublish_safe [OF type]])
qed

section \<open>The initial time\<close>

lemma visible_calls_notify:
  "\<exists>h. t2ValNotify env m x w = (Inr (), w\<lparr>w_hist := h\<rparr>) \<and> visible_calls (w\<lparr>w_hist := h\<rparr>) = visible_calls w"
  "\<exists>h. t2CountNotify env m i w = (Inr (), w\<lparr>w_hist := h\<rparr>) \<and> visible_calls (w\<lparr>w_hist := h\<rparr>) = visible_calls w"
  by (auto simp: t2ValNotify_def t2CountNotify_def prog_simps visible_calls_def intro: exI [of _ "w_hist w"])

lemma step_clock_run:
  "\<exists>h. step_clock env v s = (Inr (), s\<lparr>w_hist := h\<rparr>) \<and>
     visible_calls (s\<lparr>w_hist := h\<rparr>) = visible_calls s @ [Clock_settime v]"
  by (auto simp: step_clock_def t2CountNotify_def t2ValNotify_def clock_gettime_def prog_simps
      visible_calls_def)

lemma initial_clock_run:
  fixes s :: "'w mgr_scheme"
  assumes "sane_clock env" "m_publish s = Some p"
  shows "\<exists>h m. initial_clock env v s = (Inr (), s\<lparr>w_hist := h\<rparr>) \<and>
    announces m ePUBLISH_TIME_INITIAL ''Poor'' (m_timequality s) (m_timersrc s) \<and>
    visible_calls (s\<lparr>w_hist := h\<rparr>) = visible_calls s @
      (if ret_code env (w_hist s) Clock_gettime = 0 \<and> v < out_int env (w_hist s) Clock_gettime
       then [] else [Clock_settime v]) @
      (case p of TestPublish _ \<Rightarrow> [] | IarmPublish pub \<Rightarrow>
        [IARM_Bus_BroadcastEvent (c_string pub) cTIMER_STATUS_UPDATE m])"
proof -
  define ok where "ok \<longleftrightarrow> ret_code env (w_hist s) Clock_gettime = 0"
  define late where "late \<longleftrightarrow> ok \<and> v < out_int env (w_hist s) Clock_gettime"
  define s1 where "s1 = s\<lparr>w_hist := w_hist s @ [(Clock_gettime, ret_code env (w_hist s) Clock_gettime)]\<rparr>"
  have run: "initial_clock env v s =
      (if late then publishStatus env ePUBLISH_TIME_INITIAL ''Poor'' s1
       else bindM (step_clock env v) (\<lambda>_. publishStatus env ePUBLISH_TIME_INITIAL ''Poor'') s1)"
    by (simp add: initial_clock_def clock_gettime_def prog_simps chrono_seconds_sane [OF assms(1)]
        s1_def late_def ok_def)
  obtain h2 where step: "step_clock env v s1 = (Inr (), s\<lparr>w_hist := h2\<rparr>)"
    "visible_calls (s\<lparr>w_hist := h2\<rparr>) = visible_calls s @ [Clock_settime v]"
    using step_clock_run [of env v s1] by (auto simp: s1_def)
  define s2 where "s2 = (if late then s1 else s\<lparr>w_hist := h2\<rparr>)"
  have s2: "m_publish s2 = Some p" "m_timequality s2 = m_timequality s" "m_timersrc s2 = m_timersrc s"
    "s2\<lparr>w_hist := h\<rparr> = s\<lparr>w_hist := h\<rparr>"
    "visible_calls s2 = visible_calls s @ (if late then [] else [Clock_settime v])" for h
    using assms(2) step(2) by (simp_all add: s2_def s1_def)
  have "initial_clock env v s = publishStatus env ePUBLISH_TIME_INITIAL ''Poor'' s2"
    using run step(1) by (simp add: s2_def bindM_run)
  with publishStatus_run [OF assms(1) s2(1), of ePUBLISH_TIME_INITIAL "''Poor''"] s2(2-5)
  show ?thesis by (auto simp: late_def ok_def)
qed

lemma setInitialTime_safe:
  assumes "sane_clock env"
  shows "safe (\<lambda>s. mgr_wf n s \<and> (\<forall>y. Some y \<in> set (m_timerSync s) \<longrightarrow> sync_readable s y))
    (setInitialTime env) (\<lambda>_. mgr_wf n)"
proof (rule safeI)
  fix s :: "'w mgr_scheme"
  assume s: "mgr_wf n s \<and> (\<forall>y. Some y \<in> set (m_timerSync s) \<longrightarrow> sync_readable s y)"
  let ?get = "foldM (\<lambda>(v, ys) p. deref p (\<lambda>y. bindM (sync_getTime env y) (\<lambda>(v', y').
              ret (v', ys @ [Some y'])))) (0, []) (m_timerSync s)"
  from s have "\<forall>p \<in> set (m_timerSync s). \<exists>y. p = Some y \<and> sync_readable s y \<and> sync_room n y"
    and "w_ok s" by (force simp: mgr_wf_def)+
  from tsync.get_all_safe [OF assms this, of 0 "[]"]
  obtain v ys t where t: "?get s = (Inr (v, ys), t)" "w_ok t"
    "\<forall>p \<in> set ys. \<exists>y. p = Some y \<and> sync_room n y" by auto
  have "keeps (\<lambda>s :: 'w mgr_scheme. (m_publish s, m_timerSrc s)) ?get"
    by (intro keeps_intros) simp_all
  from keepsD [OF this t(1)] t s have wf_t: "mgr_wf n (t\<lparr>m_timerSync := ys\<rparr>)"
    by (auto simp: mgr_wf_def)
  then have "w_ok (t\<lparr>m_timerSync := ys\<rparr>)" by (simp add: mgr_wf_def)
  from safeD [OF create_stream_sane [OF assms] this, of "''/tmp/systimeset''"]
  obtain b u where u: "create_stream env ''/tmp/systimeset'' (t\<lparr>m_timerSync := ys\<rparr>) = (Inr b, u)" "w_ok u"
    by auto
  have "keeps (\<lambda>s :: 'w mgr_scheme. (m_publish s, m_timerSrc s, m_timerSync s)) (create_stream env ''/tmp/systimeset'')"
    by (intro keeps_intros) simp_all
  from keepsD [OF this u(1)] u(2) wf_t have wf_u: "mgr_wf n u"
    by (simp add: mgr_wf_def)
  then obtain p where p: "m_publish (u\<lparr>m_timequality := eTIMEQUALILTY_POOR\<rparr>) = Some p"
    by (auto simp: mgr_wf_def)
  from initial_clock_run [OF assms p, of v] t(1) u(1) wf_u
  show "\<exists>x t. setInitialTime env s = (Inr x, t) \<and> mgr_wf n t"
    by (cases "v = 0") (fastforce simp: setInitialTime_def bindM_run getM_run modM_run ret_run)+
qed

section \<open>Starting up succeeds\<close>

text \<open>Every entry names a type the build knows, and every store's file can be read as a time.\<close>

definition config_ok :: "env \<Rightarrow> 'w world_scheme \<Rightarrow> (string \<times> string \<times> string) list \<Rightarrow> bool" where
  "config_ok env s es \<longleftrightarrow> (\<forall>(c, ty, a) \<in> set es.
     (c = ''timesrc'' \<longrightarrow> ty \<in> src_types env) \<and>
     (c = ''timesync'' \<longrightarrow> ty \<in> sync_types env \<and>
        (\<forall>y. createTimeSync env ty (m_directory @ a) = Some y \<longrightarrow> sync_readable s y)))"

definition boot_ok :: "env \<Rightarrow> 'w mgr_scheme \<Rightarrow> bool" where
  "boot_ok env s \<longleftrightarrow> \<not> mgr_exists s \<and> w_ok s \<and> bus_works env \<and>
     (\<forall>f. w_fs s ''/etc/systimemgr.conf'' = Some f \<longrightarrow> config_ok env s (read_entries (content f)))"

lemma configured_ok:
  assumes "config_ok env s es" "n \<le> 1000000000"
  shows "None \<notin> set (configured_src env es)"
    "\<forall>p \<in> set (configured_sync env es). \<exists>y. p = Some y \<and> sync_room n y \<and> sync_readable s y"
proof -
  have "createTimeSrc env ty (m_directory @ a) \<noteq> None" if "(''timesrc'', ty, a) \<in> set es" for ty a
    using assms(1) that createTimeSrc_null [of env ty "m_directory @ a"] by (auto simp: config_ok_def)
  then show "None \<notin> set (configured_src env es)"
    by (auto simp: configured_src_def split: if_splits) (metis option.distinct(1))
  show "\<forall>p \<in> set (configured_sync env es). \<exists>y. p = Some y \<and> sync_room n y \<and> sync_readable s y"
  proof
    fix p assume "p \<in> set (configured_sync env es)"
    then obtain ty a where e: "(''timesync'', ty, a) \<in> set es" "p = createTimeSync env ty (m_directory @ a)"
      by (auto simp: configured_sync_def split: if_splits)
    with assms(1) have "ty \<in> sync_types env" by (auto simp: config_ok_def)
    then obtain y where y: "createTimeSync env ty (m_directory @ a) = Some y"
      using createTimeSync_null [of env ty] by blast
    with e assms show "\<exists>y. p = Some y \<and> sync_room n y \<and> sync_readable s y"
      using createTimeSync_room [OF y assms(2)] by (auto simp: config_ok_def)
  qed
qed

lemma whenM_call_run: "\<exists>h. whenM b (bindM (call env c) (\<lambda>_. ret ())) s = (Inr (), s\<lparr>w_hist := h\<rparr>)"
  by (cases b) (auto simp: prog_simps intro: exI [of _ "w_hist s"])

lemma config_ok_Nil [simp]: "config_ok env s []"
  by (simp add: config_ok_def)

lemma config_entries_cases:
  "config_entries env (s\<lparr>w_hist := h\<rparr>) = [] \<or>
     (\<exists>f. w_fs s (c_string (m_cfgfile s)) = Some f \<and> config_entries env (s\<lparr>w_hist := h\<rparr>) = read_entries (content f))"
  "files_work env \<Longrightarrow> w_fs s (c_string (m_cfgfile s)) = Some f \<Longrightarrow>
     config_entries env (s\<lparr>w_hist := h\<rparr>) = read_entries (content f)"
  by (auto simp: config_entries_def Let_def files_work_def split: option.splits)

lemma init_prefix_run:
  fixes s :: "'w mgr_scheme"
  assumes "bus_works env" "m_timerSrc s = []" "m_timerSync s = []"
  shows "\<exists>t h es. init_prefix env s = (Inr (), t) \<and> w_fs t = w_fs s \<and> m_publish t \<noteq> None \<and>
    es = config_entries env (s\<lparr>w_hist := h\<rparr>) \<and> m_timerSrc t = configured_src env es \<and> m_timerSync t = configured_sync env es"
proof -
  obtain h where t2: "whenM (T2_EVENT_ENABLED env) (bindM (call env T2_init) (\<lambda>_. ret ())) s = (Inr (), s\<lparr>w_hist := h\<rparr>)"
    using whenM_call_run by blast
  define s1 where s1: "s1 = s\<lparr>w_hist := h\<rparr>"
  define es where "es = config_entries env s1"
  obtain h2 where load: "load_config env s1 =
      (Inr (), s1\<lparr>w_hist := h2, m_timerSrc := configured_src env es, m_timerSync := configured_sync env es\<rparr>)"
    using load_config_run [of env s1] assms(2,3) by (auto simp: s1 es_def)
  define s2 where "s2 = s1\<lparr>w_hist := h2, m_timerSrc := configured_src env es, m_timerSync := configured_sync env es\<rparr>"
  obtain h3 where init: "whenM (m_chronyRfcEnabled s2) (bindM (call env Chronyctl_init) (\<lambda>_. ret ())) s2 =
      (Inr (), s2\<lparr>w_hist := h3\<rparr>)"
    using whenM_call_run by blast
  from safeD [OF connect_bus_safe [OF assms(1)], of "s2\<lparr>w_hist := h3\<rparr>"]
  obtain u where u: "connect_bus env (s2\<lparr>w_hist := h3\<rparr>) = (Inr (), u)" "m_publish u \<noteq> None" by auto
  have "keeps (\<lambda>s :: 'w mgr_scheme. (w_fs s, m_timerSrc s, m_timerSync s)) (connect_bus env)"
    by (intro keeps_intros) simp_all
  from keepsD [OF this u(1)]
  have parts: "w_fs u = w_fs s" "m_timerSrc u = configured_src env es" "m_timerSync u = configured_sync env es"
    by (simp_all add: s2_def s1)
  from t2 load init u(1)
  have "init_prefix env s = (Inr (), u\<lparr>m_pathEventMap := path_events (m_pathEventMap u)\<rparr>)"
    by (simp add: init_prefix_def bindM_run getM_run modM_run s2_def s1)
  with parts u(2) es_def [unfolded s1] show ?thesis
    by (intro exI [of _ h] exI [of _ es] exI) auto
qed

lemma boot_run:
  fixes s :: "'w mgr_scheme"
  assumes "sane_clock env" "boot_ok env s" "n \<le> 1000000000"
  shows "\<exists>t. boot env s = (Inr (), t) \<and> mgr_wf n t"
proof -
  obtain s0 where s0: "get_instance s = (Inr (), s0)" "w_fs s0 = w_fs s" "m_timerSrc s0 = []"
    "m_timerSync s0 = []" "m_cfgfile s0 = ''/etc/systimemgr.conf''"
    using assms(2) by (auto simp: get_instance_def new_SysTimeMgr_def prog_simps boot_ok_def)
  have "bus_works env" using assms(2) by (simp add: boot_ok_def)
  from init_prefix_run [OF this s0(3,4)] obtain u h es where
    u: "init_prefix env s0 = (Inr (), u)" "w_fs u = w_fs s0" "m_publish u \<noteq> None"
      "m_timerSrc u = configured_src env es" "m_timerSync u = configured_sync env es"
    and e: "es = config_entries env (s0\<lparr>w_hist := h\<rparr>)" by blast
  have es: "es = [] \<or> (\<exists>f. w_fs s0 (c_string (m_cfgfile s0)) = Some f \<and> es = read_entries (content f))"
    unfolding e by (rule config_entries_cases)
  have "c_string ''/etc/systimemgr.conf'' = ''/etc/systimemgr.conf''" by code_simp
  with es s0 assms(2) have cfg: "config_ok env s es"
    by (auto simp: boot_ok_def)
  have "sync_readable u y = sync_readable s y" for y
    by (rule tsync.readable_fs) (simp add: u(2) s0(2))
  with configured_ok [OF cfg assms(3)] u assms(2) s0(2)
  have "mgr_wf n u \<and> (\<forall>y. Some y \<in> set (m_timerSync u) \<longrightarrow> sync_readable u y)"
    by (fastforce simp: mgr_wf_def boot_ok_def w_ok_def)
  from safeD [OF setInitialTime_safe [OF assms(1)] this]
  obtain t where t: "setInitialTime env u = (Inr (), t)" "mgr_wf n t" by auto
  have "boot env s = (Inr (), t\<lparr>stateMachine := fold table_set transitions (stateMachine t),
       m_state := eSYSMGR_STATE_NTP_WAIT\<rparr>)"
    using s0(1) u(1) t(1) by (simp add: boot_def initialize_split bindM_run modM_run)
  moreover have "mgr_wf n (t\<lparr>stateMachine := fold table_set transitions (stateMachine t),
       m_state := eSYSMGR_STATE_NTP_WAIT\<rparr>)"
    using t(2) by (simp add: mgr_wf_def w_ok_def)
  ultimately show ?thesis by blast
qed

section \<open>Runs of any length\<close>

lemma restart_timesync_run: "\<exists>h. restart_timesync env s = (Inr (), s\<lparr>w_hist := h\<rparr>)"
  by (auto simp: restart_timesync_def prog_simps)

text \<open>
  After a deep sleep the clock is stepped whatever the wait for a source answers, which the handling
  of a new connection avoids (\<open>makestep_policy\<close> in \<open>Network_Status\<close>).
\<close>

lemma wake_steps_unsynced:
  assumes "\<And>h. ret_code env h (V_secure_system ''/bin/systemctl is-active --quiet systemd-timesyncd.service'') \<noteq> 0"
    and "\<And>h. ret_code env h (V_secure_system chrony_active_cmd) = 0"
    and "\<And>h. ret_code env h (Chronyctl_waitsync 20 1) = r"
  shows "\<exists>cs. restart_timesync env s = (Inr (), s\<lparr>w_hist := w_hist s @ cs\<rparr>) \<and>
    (Chronyctl_waitsync 20 1, r) \<in> set cs \<and> Chronyctl_makestep \<in> fst ` set cs"
  using assms by (auto simp: restart_timesync_def prog_simps)

lemma deepsleepoff_safe:
  assumes "sane_clock env"
  shows "safe (mgr_wf n) (deepsleepoff env) (\<lambda>_. mgr_wf n)"
proof -
  have "safe (mgr_wf n) (restart_timesync env) (\<lambda>_. mgr_wf n)"
    unfolding safe_def using restart_timesync_run [of env] by fastforce
  moreover have "safe (mgr_wf n) (deepsleepoff_locked env) (\<lambda>_. mgr_wf n)"
    unfolding deepsleepoff_locked_def
    by (rule safe_set [where P' = "mgr_wf n"], rule safe_set [where P' = "mgr_wf n"],
        rule safe_bindM [OF safe_getM [where Q = "\<lambda>_. mgr_wf n"]], assumption,
        rule publishStatus_safe [OF assms]) simp_all
  ultimately show ?thesis
    unfolding deepsleepoff_def by (rule safe_bindM [rotated])
qed

lemma mgr_step_total:
  fixes s :: "'w mgr_scheme"
  assumes "sane_clock env" "sane_rpc env" "ready s" "mgr_wf (Suc n) s"
  shows "\<exists>t. mgr_step env s l t \<and> ready t \<and> mgr_wf n t"
proof -
  have "\<exists>t. mgr_step env s l t \<and> mgr_wf n t"
  proof (cases l)
    case (Handle ev)
    show ?thesis
    proof (cases "next_fn (m_state s) ev")
      case None
      with assms(3) have "mgr_step env s l s"
        by (simp add: Handle runStateMachine_run ready_def)
      with assms(4) show ?thesis using mgr_wf_mono [of "Suc n" s n] by auto
    next
      case (Some f)
      have "mgr_wf (Suc n) (s\<lparr>m_event := ev\<rparr>)" using assms(4) by simp
      from safeD [OF handler_safe [OF assms(1,2)] this, of f] Some assms(3) show ?thesis
        by (auto simp: Handle runStateMachine_run ready_def)
    qed
  next
    case (Power msg)
    have "mgr_wf n s" using assms(4) by (rule mgr_wf_mono) simp
    with safeD [OF deepsleepoff_safe [OF assms(1)] this] assms(3) show ?thesis
      by (cases "msg = ''DEEP_SLEEP_OFF''") (auto simp: Power powerhandler_run ready_def bindM_run ret_run)
  qed
  then show ?thesis using mgr_step_ready [OF assms(3)] by blast
qed

lemma run_total:
  fixes s :: "'w mgr_scheme"
  assumes "sane_clock env" "sane_rpc env" "ready s" "mgr_wf n s" "length ls \<le> n"
  shows "\<exists>t. run (mgr_step env) s ls t"
  using assms(3-)
proof (induction ls arbitrary: s n)
  case Nil
  show ?case by (blast intro: run_nil)
next
  case (Cons l ls)
  then obtain k where n: "n = Suc k" by (cases n) auto
  from mgr_step_total [OF assms(1,2) Cons.prems(1) Cons.prems(2) [unfolded n], of l]
  obtain t where t: "mgr_step env s l t" "ready t" "mgr_wf k t" by blast
  from Cons.IH [OF t(2,3)] Cons.prems(3) n obtain u where "run (mgr_step env) t ls u" by auto
  with t(1) show ?case by (blast intro: run_cons)
qed

lemma booted_run:
  fixes s :: "'w mgr_scheme"
  assumes "sane_clock env" "sane_rpc env" "boot_ok env s" "length ls \<le> 1000000000"
  shows "\<exists>s' t. boot env s = (Inr (), s') \<and> booted env s' \<and> run (mgr_step env) s' ls t"
proof -
  from boot_run [OF assms(1,3,4)] obtain s' where s': "boot env s = (Inr (), s')" "mgr_wf (length ls) s'" by blast
  then have b: "booted env s'" using assms(3) by (auto simp: booted_def boot_ok_def)
  then have "ready s'" using booted_status by blast
  from run_total [OF assms(1,2) this s'(2)] b s'(1) show ?thesis by blast
qed

section \<open>An example device\<close>

text \<open>A device before its daemon starts, with a configuration of two sources and one store.\<close>

definition example_conf :: string where
  "example_conf = ''timesrc ntp /ntp timesrc drm /drm timesync rdkdefault /clock.txt''"

definition example_mgr :: mgr where
  "example_mgr = \<lparr>w_fs = [''/etc/systimemgr.conf'' \<mapsto> \<lparr>content = example_conf, mtime = 1\<rparr>],
     w_hist = [], w_touched = [], b_subs = [], b_pInstance = None, b_threads = [],
     lastStatus = [], internetUpPending = False, stopProcessing = False, thunder_client = False,
     m_networkeventsubscribed = False, mgr_exists = False, stateMachine = [], m_pathEventMap = [],
     m_state = eSYSMGR_STATE_INIT, m_event = eSYSMGR_EVENT_UNKNOWN, m_timerInterval = 0,
     m_timequality = eTIMEQUALILTY_UNKNOWN, m_timerSrc = [], m_timerSync = [], m_publish = None,
     m_subscriber = None, m_tmrsubscriber = None, m_timersrc = [], m_cfgfile = [],
     m_chronyRfcEnabled = False, m_queue = []\<rparr>"

definition example_env :: env where
  "example_env = drm_env 1700000000 (show_int 1700000100)"

lemma example_env_sane: "sane_clock example_env" "sane_rpc example_env" "files_work example_env"
  unfolding example_env_def
  using drm_env_sane [of 1700000000 1700000100] drm_env_sane(3) [of 1700000000 0]
  by (simp_all add: valid_time_def time_bound_def)

lemma example_entries: "read_entries example_conf =
  [(''timesrc'', ''ntp'', ''/ntp''), (''timesrc'', ''drm'', ''/drm''), (''timesync'', ''rdkdefault'', ''/clock.txt'')]"
  by code_simp

lemma example_boot_ok: "boot_ok example_env example_mgr"
proof -
  have "bus_works example_env"
    by (simp add: bus_works_def example_env_def drm_env_def calm_env_def)
  moreover have "config_ok example_env example_mgr (read_entries example_conf)"
    by (auto simp: example_entries config_ok_def src_types_def sync_types_def createTimeSync_def
        sync_readable_def stored_def version_time_def example_mgr_def time_bound_def)
  ultimately show ?thesis
    by (simp add: boot_ok_def example_mgr_def w_ok_def valid_time_def time_bound_def)
qed

lemma example_runE:
  assumes "length ls \<le> 1000000000"
  obtains s t :: mgr where "booted example_env s" "run (mgr_step example_env) s ls t"
  using booted_run [OF example_env_sane(1,2) example_boot_ok assms] by blast

section \<open>Properties\<close>

text \<open>
  C3: The manager refines the abstract state machine. From a started daemon, after any sequence of
  handled events and power messages, state, quality and source of time are what the abstract
  machine computes from the same sequence.
\<close>

theorem state_machine_refines:
  assumes "booted env s" "run (mgr_step env) s ls t"
  shows "status t = fold spec_label ls (status s)"
  using mgrsim.run_abs [OF assms(2)] booted_status [OF assms(1)] by blast

theorem state_machine_refines_witness:
  "\<exists>(s :: mgr) t. booted example_env s \<and>
     run (mgr_step example_env) s [Handle eSYSMGR_EVENT_NTP_AVAILABLE, Power ''DEEP_SLEEP_OFF''] t \<and>
     status t = fold spec_label [Handle eSYSMGR_EVENT_NTP_AVAILABLE, Power ''DEEP_SLEEP_OFF''] (status s)"
proof -
  obtain s t :: mgr where "booted example_env s"
    "run (mgr_step example_env) s [Handle eSYSMGR_EVENT_NTP_AVAILABLE, Power ''DEEP_SLEEP_OFF''] t"
    by (rule example_runE [OF _ that]) simp_all
  with state_machine_refines [OF this] show ?thesis by blast
qed

text \<open>
  A handler is all or nothing. Whatever the environment does, handling an event either makes the
  abstract transition, or stops with a fault and leaves state, quality and source as they were.
\<close>

theorem event_all_or_nothing:
  assumes "reach (booted env) (mgr_step env) s" "runStateMachine env ev s = (r, t)"
  shows "status t = spec_event ev (status s) \<or> (\<exists>e. r = Inl e) \<and> status t = status s"
  using qual.reach_inv [OF assms(1)] runStateMachine_status [OF _ assms(2)] by (simp add: ready_def)

theorem event_all_or_nothing_witness:
  "\<exists>(s :: mgr) r t. reach (booted example_env) (mgr_step example_env) s \<and>
     runStateMachine example_env eSYSMGR_EVENT_NTP_AVAILABLE s = (r, t) \<and>
     (status t = spec_event eSYSMGR_EVENT_NTP_AVAILABLE (status s) \<or>
      (\<exists>e. r = Inl e) \<and> status t = status s)"
proof -
  obtain s t :: mgr where "booted example_env s" "run (mgr_step example_env) s [] t"
    by (rule example_runE [OF _ that]) simp_all
  from this(1) have s: "reach (booted example_env) (mgr_step example_env) s" by (rule reach_init)
  obtain r t where r: "runStateMachine example_env eSYSMGR_EVENT_NTP_AVAILABLE s = (r, t)"
    by (cases "runStateMachine example_env eSYSMGR_EVENT_NTP_AVAILABLE s")
  from event_all_or_nothing [OF s r] s r show ?thesis by blast
qed

text \<open>
  The daemon keeps going. With a sane clock, services that reply as documented, a working bus
  and a configuration of known types and readable stores, the start returns without a fault, and
  every sequence of up to a thousand million events and power messages after it is handled to the
  end: no null pointer, no exception, no overflow.
\<close>

theorem daemon_total:
  fixes s :: "'w mgr_scheme"
  assumes "sane_clock env" "sane_rpc env" "boot_ok env s" "length ls \<le> 1000000000"
  shows "\<exists>s' t. boot env s = (Inr (), s') \<and> run (mgr_step env) s' ls t"
  using booted_run [OF assms] by blast

theorem daemon_total_witness:
  "\<exists>s' t. boot example_env example_mgr = (Inr (), s') \<and>
     run (mgr_step example_env) s' (replicate 5 (Handle eSYSMGR_EVENT_TIMER_EXPIRY)) t"
  by (rule daemon_total [OF example_env_sane(1,2) example_boot_ok]) simp

end
