(* ===== verification/Path_Monitor.thy ===== *)
theory Path_Monitor
  imports Ntp_Monitor Mgr_Boot
begin

text \<open>
  The path monitor (\<open>SysTimeMgr::runPathMonitor\<close>): on start it sends the event of every
  notification file that exists, then it reads inotify events into a buffer on the stack and sends
  the event of the file each names. The buffer is modelled byte by byte, as the kernel fills it and
  the code reads it; what \<open>read\<close> delivers is a parameter, a list with the result of each call.
\<close>

section \<open>The program\<close>

text \<open>One file of the table, with an input stream that is closed again.\<close>

definition scan_entry :: "env \<Rightarrow> string \<times> sysTimeMgrEvent \<Rightarrow> ('w, unit) mgr_io" where
  "scan_entry env = (\<lambda>(name, event).
     bindM (open_read env (c_string (m_directory @ ''/'' @ name))) (\<lambda>f.
       whenM (f \<noteq> None) (sendMessage event None)))"

definition scan :: "env \<Rightarrow> ('w, unit) mgr_io" where
  "scan env = bindM (getM m_pathEventMap) (\<lambda>m. seqM (map (scan_entry env) m))"

definition watch :: "env \<Rightarrow> ('w, bool) io" where
  "watch env =
     bindM (call env Inotify_init) (\<lambda>inotifyFd.
       if inotifyFd = -1 then ret False
       else bindM (call env (Inotify_add_watch m_directory)) (\<lambda>wd. ret (wd \<noteq> -1)))"

text \<open>
  The buffer holds one event with the longest name: 16 bytes of header (watch descriptor, mask,
  cookie, length), the name, and a terminator. A \<open>read\<close> overwrites the front of it; the code then
  sets the last byte to NUL.
\<close>

definition IN_ATTRIB :: "32 word" where
  "IN_ATTRIB = 4"

definition buffer_size :: nat where
  "buffer_size = 16 + 255 + 1"

definition fill :: "string \<Rightarrow> string \<Rightarrow> string" where
  "fill bytes buffer = (bytes @ drop (length bytes) buffer)[buffer_size - 1 := nul]"

definition get_u32 :: "string \<Rightarrow> nat \<Rightarrow> 32 word" where
  "get_u32 b i = of_nat (of_char (b ! i) + 256 * of_char (b ! (i + 1)) +
     65536 * of_char (b ! (i + 2)) + 16777216 * of_char (b ! (i + 3)))"

definition event_mask :: "string \<Rightarrow> 32 word" where
  "event_mask buffer = get_u32 buffer 4"

definition event_name :: "string \<Rightarrow> string" where
  "event_name buffer = c_string (drop 16 buffer)"

definition dispatch :: "string \<Rightarrow> ('w, unit) mgr_io" where
  "dispatch buffer =
     (if event_mask buffer AND IN_ATTRIB \<noteq> 0
      then bindM (getM (\<lambda>s. smap_find (m_pathEventMap s) (event_name buffer))) (\<lambda>iter. case iter of
             None \<Rightarrow> ret () | Some event \<Rightarrow> sendMessage event None)
      else ret ())"

text \<open>
  The loop over the results of \<open>read\<close>: \<open>None\<close> for a failure, which ends the thread; at the end of
  the list the thread is blocked in the next call.
\<close>

fun monitor_loop :: "string \<Rightarrow> string option list \<Rightarrow> ('w, unit) mgr_io" where
  "monitor_loop buffer [] = ret ()"
| "monitor_loop buffer (None # reads) = ret ()"
| "monitor_loop buffer (Some bytes # reads) =
     bindM (dispatch (fill bytes buffer)) (\<lambda>_. monitor_loop (fill bytes buffer) reads)"

definition runPathMonitor :: "env \<Rightarrow> string \<Rightarrow> string option list \<Rightarrow> ('w, unit) mgr_io" where
  "runPathMonitor env stack reads =
     bindM (scan env) (\<lambda>_. bindM (watch env) (\<lambda>watching.
       if watching then monitor_loop stack reads else ret ()))"

section \<open>The bytes of an event\<close>

text \<open>What inotify documents: the header, then the name with at least one NUL, or no name at all.\<close>

record inotify_event =
  ev_wd :: "32 word"
  ev_mask :: "32 word"
  ev_cookie :: "32 word"
  ev_name :: string

definition put_u32 :: "32 word \<Rightarrow> string" where
  "put_u32 w = map (\<lambda>i. char_of (unat w div 256 ^ i)) [0..<4]"

definition ev_bytes :: "inotify_event \<Rightarrow> string" where
  "ev_bytes e = put_u32 (ev_wd e) @ put_u32 (ev_mask e) @ put_u32 (ev_cookie e) @
     put_u32 (of_nat (length (ev_name e))) @ ev_name e"

definition named :: "inotify_event \<Rightarrow> bool" where
  "named e \<longleftrightarrow> nul \<in> set (ev_name e) \<and> length (ev_name e) \<le> 256"

lemma length_ev_bytes: "length (ev_bytes e) = 16 + length (ev_name e)"
  by (simp add: ev_bytes_def put_u32_def)

lemma four_bytes:
  assumes "n < 2 ^ 32"
  shows "n mod 256 + 256 * (n div 256 mod 256) + 65536 * (n div 65536 mod 256) +
     16777216 * (n div 16777216 mod 256) = (n :: nat)"
proof -
  define a b c where "a = n div 256" and "b = a div 256" and "c = b div 256"
  have "n div 65536 = b" "n div 16777216 = c"
    by (simp_all add: a_def b_def c_def flip: div_mult2_eq)
  moreover have "n = 256 * a + n mod 256" "a = 256 * b + a mod 256" "b = 256 * c + b mod 256"
    by (simp_all add: a_def b_def c_def)
  moreover have "c < 256"
    using assms by (simp add: a_def b_def c_def less_mult_imp_div_less flip: div_mult2_eq)
  ultimately show ?thesis by (simp add: a_def [symmetric])
qed

lemma get_put_u32: "get_u32 (xs @ put_u32 w @ ys) (length xs) = w"
proof -
  let ?b = "xs @ put_u32 w @ ys"
  have bound: "unat w < 2 ^ 32" using unsigned_less [of w, where 'a = nat] by simp
  have bytes: "?b ! length xs = char_of (unat w)" "?b ! (length xs + 1) = char_of (unat w div 256)"
    "?b ! (length xs + 2) = char_of (unat w div 65536)" "?b ! (length xs + 3) = char_of (unat w div 16777216)"
    by (simp_all add: put_u32_def upt_conv_Cons nth_append)
  show ?thesis
    unfolding get_u32_def bytes of_char_of four_bytes [OF bound] by simp
qed

lemma get_u32_update: "i + 3 < k \<Longrightarrow> get_u32 (b[k := x]) i = get_u32 b i"
  by (simp add: get_u32_def)

lemma fill_mask: "event_mask (fill (ev_bytes e @ rest) buffer) = ev_mask e"
proof -
  let ?tail = "put_u32 (ev_cookie e) @ put_u32 (of_nat (length (ev_name e))) @ ev_name e @ rest @
    drop (length (ev_bytes e @ rest)) buffer"
  have "(ev_bytes e @ rest) @ drop (length (ev_bytes e @ rest)) buffer =
      put_u32 (ev_wd e) @ put_u32 (ev_mask e) @ ?tail"
    by (simp add: ev_bytes_def)
  moreover have "length (put_u32 (ev_wd e)) = 4" by (simp add: put_u32_def)
  ultimately show ?thesis
    using get_put_u32 [of "put_u32 (ev_wd e)" "ev_mask e" ?tail]
    by (simp add: event_mask_def fill_def get_u32_update buffer_size_def)
qed

lemma c_string_update:
  assumes "nul \<in> set xs" "length xs \<le> Suc k"
  shows "c_string ((xs @ ys)[k := nul]) = c_string xs"
proof (cases "k < length xs")
  case True
  with assms(2) have k: "k = length xs - 1" by simp
  obtain us l where xs: "xs = us @ [l]" using assms(1) by (cases xs rule: rev_cases) auto
  then have "(xs @ ys)[k := nul] = us @ nul # ys" by (simp add: k)
  with assms(1) xs show ?thesis
    by (cases "nul \<in> set us") (auto simp: c_string_def takeWhile_append)
next
  case False
  then have "(xs @ ys)[k := nul] = xs @ ys[k - length xs := nul]" by (simp add: list_update_append)
  with assms(1) show ?thesis by (simp add: c_string_def takeWhile_append1)
qed

lemma drop_header: "drop 16 (ev_bytes e @ rest) = ev_name e @ rest"
  by (simp add: ev_bytes_def put_u32_def)

lemma fill_name:
  assumes "named e"
  shows "event_name (fill (ev_bytes e @ rest) buffer) = c_string (ev_name e)"
proof -
  let ?b = "drop (length (ev_bytes e @ rest)) buffer"
  have "drop 16 (fill (ev_bytes e @ rest) buffer) = (ev_name e @ rest @ ?b)[255 := nul]"
    using drop_header [of e "rest @ ?b"] by (simp add: fill_def buffer_size_def drop_update_swap)
  with assms show ?thesis by (simp add: event_name_def named_def c_string_update)
qed

text \<open>The message for an event, if it is a change of attributes of a file of the table.\<close>

definition message_of :: "(string, sysTimeMgrEvent) smap \<Rightarrow> inotify_event \<Rightarrow> sysTimeMsg list" where
  "message_of m e =
     (if ev_mask e AND IN_ATTRIB \<noteq> 0
      then (case smap_find m (c_string (ev_name e)) of None \<Rightarrow> []
            | Some event \<Rightarrow> [\<lparr>q_event = event, q_args = None\<rparr>])
      else [])"

lemma dispatch_named:
  assumes "named e"
  shows "dispatch (fill (ev_bytes e @ rest) buffer) s =
    (Inr (), s\<lparr>m_queue := m_queue s @ message_of (m_pathEventMap s) e\<rparr>)"
  by (simp add: dispatch_def fill_mask fill_name [OF assms] message_of_def prog_simps sendMessage_def
      split: option.split)


text \<open>An event without a name leaves the bytes of the name before it in the buffer.\<close>

lemma fill_unnamed:
  assumes "ev_name d = []" "named e"
  shows "event_name (fill (ev_bytes d) (fill (ev_bytes e @ rest) buffer)) = c_string (ev_name e)"
proof -
  let ?b = "drop (length (ev_bytes e @ rest)) buffer"
  have "drop 16 (fill (ev_bytes d) (fill (ev_bytes e @ rest) buffer)) = (ev_name e @ rest @ ?b)[255 := nul]"
    using drop_header [of e "rest @ ?b"] assms(1) length_ev_bytes [of d]
    by (simp add: fill_def buffer_size_def drop_update_swap)
  with assms(2) show ?thesis by (simp add: event_name_def named_def c_string_update)
qed

section \<open>The files that exist at the start\<close>

definition existing :: "'w world_scheme \<Rightarrow> (string, sysTimeMgrEvent) smap \<Rightarrow> sysTimeMsg list" where
  "existing s m = [\<lparr>q_event = event, q_args = None\<rparr>. (name, event) \<leftarrow> m,
     file_exists s (c_string (m_directory @ ''/'' @ name))]"

lemma existing_Cons: "existing s (p # m) = existing s [p] @ existing s m"
  by (simp add: existing_def)

lemma existing_fs: "w_fs s = w_fs t \<Longrightarrow> existing s m = existing t m"
  by (simp add: existing_def file_exists_def)

lemma scan_entry_run:
  assumes "files_work env"
  shows "\<exists>h. scan_entry env p s = (Inr (), s\<lparr>w_hist := h, m_queue := m_queue s @ existing s [p]\<rparr>)"
  using assms
  by (cases p) (auto simp: scan_entry_def open_read_def prog_simps sendMessage_def existing_def
      file_exists_def files_work_def)

lemma scan_entries_run:
  fixes s :: "'w mgr_scheme"
  assumes "files_work env"
  shows "\<exists>h. seqM (map (scan_entry env) m) s = (Inr (), s\<lparr>w_hist := h, m_queue := m_queue s @ existing s m\<rparr>)"
proof (induction m arbitrary: s)
  case Nil
  show ?case by (auto simp: ret_run existing_def intro: exI [of _ "w_hist s"])
next
  case (Cons p m)
  from scan_entry_run [OF assms, of p s] obtain h where
    h: "scan_entry env p s = (Inr (), s\<lparr>w_hist := h, m_queue := m_queue s @ existing s [p]\<rparr>)" by blast
  define t where "t = s\<lparr>w_hist := h, m_queue := m_queue s @ existing s [p]\<rparr>"
  from Cons.IH [of t] obtain h' where
    "seqM (map (scan_entry env) m) t = (Inr (), t\<lparr>w_hist := h', m_queue := m_queue t @ existing t m\<rparr>)" by blast
  moreover have "existing t m = existing s m" by (rule existing_fs) (simp add: t_def)
  ultimately show ?case
    using h existing_Cons [of s p m] by (auto simp: bindM_run t_def)
qed

lemma path_events_table: "path_events [] =
  [(''drm'', eSYSMGR_EVENT_SECURE_TIME_AVAILABLE), (''dtt'', eSYSMGR_EVENT_DTT_TIME_AVAILABLE),
   (''ntp'', eSYSMGR_EVENT_NTP_AVAILABLE), (''stt'', eSYSMGR_EVENT_NTP_AVAILABLE)]"
  by code_simp

section \<open>Properties\<close>

text \<open>
  A change of a notification file is not missed as long as events are read one by one. When each
  \<open>read\<close> delivers one event with a name, the monitor sends one message for each event that is a
  change of attributes of a file of the table, in the order of the events, whatever the buffer held
  before, and nothing else.
\<close>

theorem path_events_sent:
  assumes "\<forall>e \<in> set es. named e"
  shows "monitor_loop buffer (map (\<lambda>e. Some (ev_bytes e)) es) s =
    (Inr (), s\<lparr>m_queue := m_queue s @ concat (map (message_of (m_pathEventMap s)) es)\<rparr>)"
  using assms
proof (induction es arbitrary: buffer s)
  case (Cons e es)
  then show ?case using dispatch_named [of e "[]" buffer s] by (simp add: bindM_run)
qed (simp add: ret_run)

definition attrib_of :: "string \<Rightarrow> inotify_event" where
  "attrib_of name = \<lparr>ev_wd = 1, ev_mask = IN_ATTRIB, ev_cookie = 0,
     ev_name = name @ replicate (16 - length name) nul\<rparr>"

lemma attrib_named: "named (attrib_of ''ntp'')" "named (attrib_of ''drm'')"
  by (simp_all add: named_def attrib_of_def)

definition watching_mgr :: mgr where
  "watching_mgr = example_mgr\<lparr>m_pathEventMap := path_events []\<rparr>"

lemma attrib_messages:
  "message_of (path_events []) (attrib_of ''ntp'') = [\<lparr>q_event = eSYSMGR_EVENT_NTP_AVAILABLE, q_args = None\<rparr>]"
  "message_of (path_events []) (attrib_of ''drm'') = [\<lparr>q_event = eSYSMGR_EVENT_SECURE_TIME_AVAILABLE, q_args = None\<rparr>]"
proof -
  have "c_string (ev_name (attrib_of ''ntp'')) = ''ntp''" "c_string (ev_name (attrib_of ''drm'')) = ''drm''"
    "ev_mask (attrib_of x) AND IN_ATTRIB \<noteq> 0" for x
    by (simp_all add: attrib_of_def c_string_def nul_def IN_ATTRIB_def)
  then show "message_of (path_events []) (attrib_of ''ntp'') = [\<lparr>q_event = eSYSMGR_EVENT_NTP_AVAILABLE, q_args = None\<rparr>]"
    "message_of (path_events []) (attrib_of ''drm'') = [\<lparr>q_event = eSYSMGR_EVENT_SECURE_TIME_AVAILABLE, q_args = None\<rparr>]"
    by (simp_all add: message_of_def path_events_table smap_find_def)
qed

theorem path_events_sent_witness:
  "monitor_loop [] (map (\<lambda>e. Some (ev_bytes e)) [attrib_of ''ntp'', attrib_of ''drm'']) watching_mgr =
    (Inr (), watching_mgr\<lparr>m_queue := m_queue watching_mgr @
       [\<lparr>q_event = eSYSMGR_EVENT_NTP_AVAILABLE, q_args = None\<rparr>,
        \<lparr>q_event = eSYSMGR_EVENT_SECURE_TIME_AVAILABLE, q_args = None\<rparr>]\<rparr>)"
proof -
  have "\<forall>e \<in> set [attrib_of ''ntp'', attrib_of ''drm'']. named e" by (simp add: attrib_named)
  from path_events_sent [OF this, of "[]" watching_mgr] show ?thesis
    by (simp add: watching_mgr_def attrib_messages)
qed

text \<open>
  C33: Events that arrive together are lost. The buffer has room for several short events, \<open>read\<close>
  delivers all that fit, and the monitor looks at the first one only: the result is the same as if
  the others had not happened.
\<close>

theorem path_events_coalesced:
  assumes "named e" "length (ev_bytes e @ concat (map ev_bytes es)) \<le> buffer_size"
  shows "monitor_loop buffer [Some (ev_bytes e @ concat (map ev_bytes es))] s =
    (Inr (), s\<lparr>m_queue := m_queue s @ message_of (m_pathEventMap s) e\<rparr>)"
  using dispatch_named [OF assms(1)] by (simp add: bindM_run ret_run)


theorem path_events_coalesced_witness:
  "monitor_loop [] [Some (ev_bytes (attrib_of ''ntp'') @ concat (map ev_bytes [attrib_of ''drm'']))] watching_mgr =
    (Inr (), watching_mgr\<lparr>m_queue := m_queue watching_mgr @
       [\<lparr>q_event = eSYSMGR_EVENT_NTP_AVAILABLE, q_args = None\<rparr>]\<rparr>)"
proof -
  have "length (ev_bytes (attrib_of ''ntp'') @ concat (map ev_bytes [attrib_of ''drm''])) \<le> buffer_size"
    by (simp add: length_ev_bytes attrib_of_def buffer_size_def)
  from path_events_coalesced [OF attrib_named(1) this, of "[]" watching_mgr] show ?thesis
    by (simp add: watching_mgr_def attrib_messages)
qed

text \<open>
  A stale name is reported again. A change of attributes of the watched directory itself comes
  without a name, and the monitor then reads the name that the event before it left in the buffer:
  it sends the message of that file, although the file did not change, and even if the event
  before was not a change of attributes.
\<close>

theorem path_stale_name:
  assumes "named e" "ev_name d = []" "ev_mask d AND IN_ATTRIB \<noteq> 0"
  shows "monitor_loop buffer [Some (ev_bytes e), Some (ev_bytes d)] s =
    (Inr (), s\<lparr>m_queue := m_queue s @ message_of (m_pathEventMap s) e @
       message_of (m_pathEventMap s) (e\<lparr>ev_mask := ev_mask d\<rparr>)\<rparr>)"
proof -
  define b where "b = fill (ev_bytes e) buffer"
  have first: "dispatch b s = (Inr (), s\<lparr>m_queue := m_queue s @ message_of (m_pathEventMap s) e\<rparr>)"
    using dispatch_named [OF assms(1), of "[]"] by (simp add: b_def)
  have "event_name (fill (ev_bytes d) b) = c_string (ev_name e)" "event_mask (fill (ev_bytes d) b) = ev_mask d"
    using fill_unnamed [OF assms(2,1), of "[]"] fill_mask [of d "[]"] by (simp_all add: b_def)
  then have "dispatch (fill (ev_bytes d) b) t =
      (Inr (), t\<lparr>m_queue := m_queue t @ message_of (m_pathEventMap t) (e\<lparr>ev_mask := ev_mask d\<rparr>)\<rparr>)"
    for t :: "'a mgr_scheme"
    using assms(3) by (simp add: dispatch_def message_of_def prog_simps sendMessage_def split: option.split)
  with first show ?thesis by (simp add: bindM_run ret_run flip: b_def)
qed

theorem path_stale_name_witness:
  "monitor_loop [] [Some (ev_bytes (attrib_of ''ntp'')), Some (ev_bytes ((attrib_of [])\<lparr>ev_name := []\<rparr>))] watching_mgr =
    (Inr (), watching_mgr\<lparr>m_queue := m_queue watching_mgr @
       [\<lparr>q_event = eSYSMGR_EVENT_NTP_AVAILABLE, q_args = None\<rparr>,
        \<lparr>q_event = eSYSMGR_EVENT_NTP_AVAILABLE, q_args = None\<rparr>]\<rparr>)"
proof -
  have d: "ev_name ((attrib_of [])\<lparr>ev_name := []\<rparr>) = []" "ev_mask ((attrib_of [])\<lparr>ev_name := []\<rparr>) AND IN_ATTRIB \<noteq> 0"
    "(attrib_of ''ntp'')\<lparr>ev_mask := ev_mask ((attrib_of [])\<lparr>ev_name := []\<rparr>)\<rparr> = attrib_of ''ntp''"
    by (simp_all add: attrib_of_def IN_ATTRIB_def)
  from path_stale_name [OF attrib_named(1) d(1,2), of "[]" watching_mgr] show ?thesis
    unfolding d(3) by (simp add: watching_mgr_def attrib_messages)
qed

text \<open>
  Nothing is forgotten over a restart. At its start the monitor sends, in the order of the table,
  exactly the events of the notification files that exist, and changes nothing else.
\<close>

theorem startup_scan:
  fixes s :: "'w mgr_scheme"
  assumes "files_work env" "m_pathEventMap s = path_events []"
  shows "\<exists>h. scan env s = (Inr (), s\<lparr>w_hist := h, m_queue := m_queue s @
    [\<lparr>q_event = event, q_args = None\<rparr>. (path, event) \<leftarrow>
       [(''/tmp/systimemgr/drm'', eSYSMGR_EVENT_SECURE_TIME_AVAILABLE),
        (''/tmp/systimemgr/dtt'', eSYSMGR_EVENT_DTT_TIME_AVAILABLE),
        (''/tmp/systimemgr/ntp'', eSYSMGR_EVENT_NTP_AVAILABLE),
        (''/tmp/systimemgr/stt'', eSYSMGR_EVENT_NTP_AVAILABLE)], file_exists s path]\<rparr>)"
proof -
  have "c_string (m_directory @ ''/'' @ x) = ''/tmp/systimemgr/'' @ x" if "x \<in> {''drm'', ''dtt'', ''ntp'', ''stt''}" for x
    using that by (auto simp: c_string_def m_directory_def nul_def)
  with scan_entries_run [OF assms(1), of "path_events []" s] show ?thesis
    by (simp add: scan_def bindM_run getM_run assms(2) existing_def path_events_table)
qed

theorem startup_scan_witness:
  "\<exists>h. scan example_env watching_mgr = (Inr (), watching_mgr\<lparr>w_hist := h, m_queue := m_queue watching_mgr @
    [\<lparr>q_event = event, q_args = None\<rparr>. (path, event) \<leftarrow>
       [(''/tmp/systimemgr/drm'', eSYSMGR_EVENT_SECURE_TIME_AVAILABLE),
        (''/tmp/systimemgr/dtt'', eSYSMGR_EVENT_DTT_TIME_AVAILABLE),
        (''/tmp/systimemgr/ntp'', eSYSMGR_EVENT_NTP_AVAILABLE),
        (''/tmp/systimemgr/stt'', eSYSMGR_EVENT_NTP_AVAILABLE)], file_exists watching_mgr path]\<rparr>)"
  by (rule startup_scan) (simp_all add: example_env_sane watching_mgr_def)

end
