(* ===== verification/Mgr_Main.thy ===== *)
theory Mgr_Main
  imports Path_Monitor
begin

text \<open>
  The entry point: \<open>SysTimeMgr::run\<close>, which starts the threads and waits for them, and \<open>main\<close>, which
  turns exceptions into an exit status; and how the start connects the daemon to the bus.
\<close>

section \<open>The programs\<close>

text \<open>
  The first thread, and a thread after it: when its creation throws, the thread objects before it
  are destroyed while their threads run, which terminates the process.
\<close>

definition start_another :: "env \<Rightarrow> string \<Rightarrow> ('w, unit) io" where
  "start_another env name = catchM (start_thread env name) (\<lambda>_. throwM Terminate)"

text \<open>
  \<open>SysTimeMgr::run\<close> up to the joins, or to the \<open>detach\<close> calls when it is not to run forever.
\<close>

definition run_threads :: "env \<Rightarrow> bool \<Rightarrow> ('w, unit) mgr_io" where
  "run_threads env forever =
     bindM (start_thread env ''processThr'') (\<lambda>_.
     bindM (start_another env ''timerThr'') (\<lambda>_.
     bindM (start_another env ''pathThr'') (\<lambda>_.
     bindM (getM m_chronyRfcEnabled) (\<lambda>chrony.
     bindM (whenM chrony
       (bindM (start_another env ''nwEventProcessThr'') (\<lambda>_.
        bindM (start_another env ''nwEventSubscribeThr'') (\<lambda>_.
        start_another env ''ntpSyncMonitorThr'')))) (\<lambda>_.
     whenM forever
       (bindM (call_int env Getpid) (\<lambda>(_, pid).
        bindM (write_stream env ''/run/systimemgr.pid'' (show_int pid @ [CHR 0x0A])) (\<lambda>_. ret ()))))))))"

definition EXIT_FAILURE :: int where
  "EXIT_FAILURE = 1"

text \<open>
  \<open>main\<close>: the exit status, or \<open>None\<close> when it waits for the threads. An exception is caught; a null
  pointer or an overflow is none.
\<close>

definition main_prog :: "env \<Rightarrow> ('w, int option) mgr_io" where
  "main_prog env =
     catchM (bindM (boot env) (\<lambda>_. bindM (run_threads env True) (\<lambda>_. ret None)))
       (\<lambda>e. case e of
          Std_exception _ \<Rightarrow> ret (Some EXIT_FAILURE)
        | JsonRpcException \<Rightarrow> ret (Some EXIT_FAILURE)
        | _ \<Rightarrow> throwM e)"

section \<open>Starting the threads\<close>

definition started :: "hist \<Rightarrow> string list" where
  "started h = concat (map (\<lambda>c. case fst c of Thread_create name \<Rightarrow> [name] | _ \<Rightarrow> []) h)"

lemma started_append [simp]: "started (g @ h) = started g @ started h"
  by (simp add: started_def)

lemma started_Cons [simp]:
  "started ((c, r) # h) = (case c of Thread_create name \<Rightarrow> [name] | _ \<Rightarrow> []) @ started h" "started [] = []"
  by (simp_all add: started_def)

text \<open>The threads that belong to a manager.\<close>

definition mgr_threads :: "'w mgr_scheme \<Rightarrow> string list" where
  "mgr_threads s = [''processThr'', ''timerThr'', ''pathThr''] @
     (if m_chronyRfcEnabled s then [''nwEventProcessThr'', ''nwEventSubscribeThr'', ''ntpSyncMonitorThr''] else [])"

lemma start_thread_run:
  assumes "\<And>h name. ret_code env h (Thread_create name) = 0"
  shows "start_thread env name s = (Inr (), s\<lparr>w_hist := w_hist s @ [(Thread_create name, 0)]\<rparr>)"
    "start_another env name s = (Inr (), s\<lparr>w_hist := w_hist s @ [(Thread_create name, 0)]\<rparr>)"
  using assms by (simp_all add: start_thread_def start_another_def prog_simps)

lemma write_stream_started:
  "\<exists>b t. write_stream env path x s = (Inr b, t) \<and> t = s\<lparr>w_fs := w_fs t, w_hist := w_hist t\<rparr> \<and>
     started (w_hist t) = started (w_hist s)"
  by (auto simp: write_stream_def call_int_def prog_simps put_file_def)

lemma run_threads_run:
  fixes s :: "'w mgr_scheme"
  assumes "\<And>h name. ret_code env h (Thread_create name) = 0"
  shows "\<exists>t. run_threads env forever s = (Inr (), t) \<and> t = s\<lparr>w_fs := w_fs t, w_hist := w_hist t\<rparr> \<and>
    started (w_hist t) = started (w_hist s) @ mgr_threads s"
proof -
  define h where "h = w_hist s @ map (\<lambda>name. (Thread_create name, 0)) (mgr_threads s)"
  have h: "started h = started (w_hist s) @ mgr_threads s"
    by (simp add: h_def started_def comp_def mgr_threads_def)
  have threads: "run_threads env forever s = whenM forever
       (bindM (call_int env Getpid) (\<lambda>(_, pid).
        bindM (write_stream env ''/run/systimemgr.pid'' (show_int pid @ [CHR 0x0A])) (\<lambda>_. ret ()))) (s\<lparr>w_hist := h\<rparr>)"
    by (simp add: run_threads_def bindM_run getM_run whenM_run start_thread_run [OF assms] h_def mgr_threads_def)
  show ?thesis
  proof (cases forever)
    case True
    let ?h = "h @ [(Getpid, ret_code env h Getpid)]"
    from write_stream_started [of env "''/run/systimemgr.pid''" "show_int (out_int env h Getpid) @ [CHR 0x0A]" "s\<lparr>w_hist := ?h\<rparr>"]
    obtain b t where t: "write_stream env ''/run/systimemgr.pid'' (show_int (out_int env h Getpid) @ [CHR 0x0A]) (s\<lparr>w_hist := ?h\<rparr>) =
        (Inr b, t)" "t = s\<lparr>w_fs := w_fs t, w_hist := w_hist t\<rparr>" "started (w_hist t) = started ?h" by auto
    from t(1) have "run_threads env forever s = (Inr (), t)"
      unfolding threads by (simp add: True whenM_run bindM_run call_int_def call_with_run ret_run)
    moreover from t(3) h have "started (w_hist t) = started (w_hist s) @ mgr_threads s" by simp
    ultimately show ?thesis using t(2) by blast
  next
    case False
    with threads h show ?thesis by (auto simp: whenM_run)
  qed
qed


section \<open>The wiring of the bus\<close>

definition iarm_hist :: "env \<Rightarrow> string \<Rightarrow> hist \<Rightarrow> hist" where
  "iarm_hist env name h = w_hist (snd (iarm_connect env name (empty_world\<lparr>w_hist := h\<rparr>)))"

lemma iarm_connect_eq: "iarm_connect env name s = (Inr (), s\<lparr>w_hist := iarm_hist env name (w_hist s)\<rparr>)"
  by (auto simp: iarm_connect_def iarm_hist_def prog_simps)

lemma createSubscriber_iarm:
  assumes "ENABLE_IARM env"
  shows "createSubscriber env ''iarm'' args TIMER_STATUS_MSG s =
      (Inr (Some (length (b_subs s))), s\<lparr>b_subs := b_subs s @ [IarmTimerStatusSubscriber args],
         b_pInstance := Some (length (b_subs s)), w_hist := iarm_hist env args (w_hist s)\<rparr>)"
    "createSubscriber env ''iarm'' args POWER_CHANGE_MSG s = (Inr (Some (length (b_subs s))),
       if PWRMGRPLUGIN_ENABLED env
       then s\<lparr>b_subs := b_subs s @ [IpowerControllerSubscriber args IndeterminateFn []],
              b_pInstance := Some (length (b_subs s))\<rparr>
       else s\<lparr>b_subs := b_subs s @ [IarmPowerSubscriber args NullFn],
              b_pInstance := Some (length (b_subs s)), w_hist := iarm_hist env args (w_hist s)\<rparr>)"
  using assms
  by (simp_all add: createSubscriber_def new_IarmTimerStatusSubscriber_def new_IarmPowerSubscriber_def
      new_IpowerControllerSubscriber_def new_IarmSubscriber_def alloc_sub_def bindM_run modM_run ret_run
      iarm_connect_eq TIMER_STATUS_MSG_def POWER_CHANGE_MSG_def)

text \<open>Which object is the instance after a successful start, and what its handler is.\<close>

definition wired :: "env \<Rightarrow> 'w bus_scheme \<Rightarrow> bool" where
  "wired env s \<longleftrightarrow>
     iarm_power_instance s =
       (if \<not> IARM_SUPPORT_DISABLED env \<and> \<not> PWRMGRPLUGIN_ENABLED env then Some PowerhandlerFn else None) \<and>
     map_option (\<lambda>(i, sub, f, q). (f, q)) (ipower_instance s) =
       (if \<not> IARM_SUPPORT_DISABLED env \<and> PWRMGRPLUGIN_ENABLED env then Some (PowerhandlerFn, []) else None)"

lemma instance_cong:
  assumes "b_subs s = b_subs t" "b_pInstance s = b_pInstance t"
  shows "iarm_power_instance s = iarm_power_instance t" "ipower_instance s = ipower_instance t"
  unfolding iarm_power_instance_def ipower_instance_def assms by (rule refl)+

lemma wired_cong: "b_subs s = b_subs t \<Longrightarrow> b_pInstance s = b_pInstance t \<Longrightarrow> wired env s = wired env t"
  by (simp add: wired_def instance_cong [of s t])

lemma connect_subs_wired:
  fixes s :: "'w mgr_scheme"
  assumes "connect_subs env ''iarm'' s = (Inr (), t)" "ENABLE_IARM env"
  shows "iarm_power_instance t = (if PWRMGRPLUGIN_ENABLED env then None else Some PowerhandlerFn) \<and>
     map_option (\<lambda>(i, sub, f, q). (f, q)) (ipower_instance t) =
       (if PWRMGRPLUGIN_ENABLED env then Some (PowerhandlerFn, []) else None)"
  using assms(1)
  by (auto simp: connect_subs_def bindM_run modM_run ret_run getM_run createSubscriber_iarm [OF assms(2)]
      subscribe_def deref_def nth_append timerstatus_subscribe_def iarmpower_subscribe_def ipower_subscribe_def
      sysTimeMgrInitPwrEvt_def start_thread_def throwM_run put_sub_def call_run ipower_instance_def
      iarm_power_instance_def split: if_splits)

lemma connect_subs_test:
  fixes s :: "'w mgr_scheme"
  assumes "connect_subs env ''test'' s = (Inr (), t)"
  shows "b_pInstance t = b_pInstance s"
  using assms
  by (auto simp: connect_subs_def bindM_run modM_run ret_run getM_run createSubscriber_def alloc_sub_def
      subscribe_def deref_def nth_append split: if_splits)

lemma connect_bus_wired:
  fixes s :: "'w mgr_scheme"
  assumes "connect_bus env s = (Inr (), t)" "b_pInstance s = None"
  shows "wired env t"
proof -
  define type where "type = (if IARM_SUPPORT_DISABLED env then ''test'' else ''iarm'')"
  obtain x u where pub: "createPublish env type IARM_BUS_SYSTIME_MGR_NAME s = (x, u)"
    by (cases "createPublish env type IARM_BUS_SYSTIME_MGR_NAME s")
  have "keeps (\<lambda>s :: 'w mgr_scheme. b_pInstance s) (createPublish env type IARM_BUS_SYSTIME_MGR_NAME)"
    by (intro keeps_intros) simp
  from keepsD [OF this pub] assms(2) have u: "b_pInstance u = None" by simp
  obtain p where p: "x = Inr p" and subs: "connect_subs env type (u\<lparr>m_publish := p\<rparr>) = (Inr (), t)"
    using assms(1) pub by (cases x) (auto simp: connect_bus_def connect_subs_def type_def [symmetric] Let_def
        bindM_run modM_run)
  show ?thesis
  proof (cases "IARM_SUPPORT_DISABLED env")
    case True
    with subs have "connect_subs env ''test'' (u\<lparr>m_publish := p\<rparr>) = (Inr (), t)" by (simp add: type_def)
    from connect_subs_test [OF this] u True show ?thesis
      by (simp add: wired_def iarm_power_instance_def ipower_instance_def)
  next
    case False
    with subs have iarm: "connect_subs env ''iarm'' (u\<lparr>m_publish := p\<rparr>) = (Inr (), t)" by (simp add: type_def)
    have "ENABLE_IARM env"
    proof (rule ccontr)
      assume "\<not> ENABLE_IARM env"
      with iarm show False
        by (simp add: connect_subs_def createSubscriber_def bindM_run ret_run modM_run getM_run subscribe_def
            deref_def throwM_run)
    qed
    from connect_subs_wired [OF iarm this] False show ?thesis by (simp add: wired_def)
  qed
qed


text \<open>The state of a process before \<open>main\<close>: neither static instance exists.\<close>

definition fresh :: "'w mgr_scheme \<Rightarrow> bool" where
  "fresh s \<longleftrightarrow> \<not> mgr_exists s \<and> b_pInstance s = None"

lemma init_prefix_wired:
  fixes s :: "'w mgr_scheme"
  assumes "init_prefix env s = (Inr (), t)" "b_pInstance s = None"
  shows "wired env t \<and> m_pathEventMap t = path_events (m_pathEventMap s)"
proof -
  let ?load = "bindM (whenM (T2_EVENT_ENABLED env) (bindM (call env T2_init) (\<lambda>_. ret ()))) (\<lambda>_.
     bindM (load_config env) (\<lambda>_. bindM (getM m_chronyRfcEnabled) (\<lambda>chrony.
       whenM chrony (bindM (call env Chronyctl_init) (\<lambda>_. ret ())))))"
  have split: "init_prefix env = bindM ?load (\<lambda>_. bindM (connect_bus env) (\<lambda>_.
      modM (\<lambda>s. s\<lparr>m_pathEventMap := path_events (m_pathEventMap s)\<rparr>)))"
    by (simp add: init_prefix_def bindM_assoc)
  have k1: "keeps (\<lambda>s :: 'w mgr_scheme. (b_pInstance s, m_pathEventMap s)) ?load"
    and k2: "keeps (\<lambda>s :: 'w mgr_scheme. m_pathEventMap s) (connect_bus env)"
    by (intro keeps_intros | simp)+
  obtain x u where u: "?load s = (x, u)" by (cases "?load s")
  obtain y v where v: "connect_bus env u = (y, v)" by (cases "connect_bus env u")
  have "b_pInstance u = None" "m_pathEventMap u = m_pathEventMap s" "m_pathEventMap v = m_pathEventMap u"
    using keepsD [OF k1 u] keepsD [OF k2 v] assms(2) by simp_all
  moreover have "y = Inr ()" "t = v\<lparr>m_pathEventMap := path_events (m_pathEventMap v)\<rparr>"
    using assms(1) u v unfolding split by (cases x; cases y; simp add: bindM_run modM_run)+
  ultimately show ?thesis
    using connect_bus_wired [of env u v] v wired_cong [of t v env] by simp
qed

lemma boot_wired:
  fixes s :: "'w mgr_scheme"
  assumes "boot env s = (Inr (), t)" "fresh s"
  shows "booted env t" "wired env t" "m_queue t = []" "m_pathEventMap t = path_events []"
    "m_chronyRfcEnabled t = file_exists s ''/opt/secure/RFC/chrony/chronyd_enabled''"
proof -
  show "booted env t" using assms by (auto simp: booted_def fresh_def)
  obtain s0 where s0: "get_instance s = (Inr (), s0)" "b_pInstance s0 = None" "m_queue s0 = []" "m_pathEventMap s0 = []"
    "m_chronyRfcEnabled s0 = file_exists s ''/opt/secure/RFC/chrony/chronyd_enabled''"
    using assms(2) by (auto simp: get_instance_def new_SysTimeMgr_def prog_simps fresh_def)
  obtain x u where u: "init_prefix env s0 = (x, u)" by (cases "init_prefix env s0")
  obtain y w where w: "setInitialTime env u = (y, w)" by (cases "setInitialTime env u")
  have ok: "x = Inr ()" "t = w\<lparr>stateMachine := fold table_set transitions (stateMachine w), m_state := eSYSMGR_STATE_NTP_WAIT\<rparr>"
    using assms(1) s0(1) u w by (cases x; cases y; simp add: boot_def initialize_split bindM_run modM_run)+
  have k1: "keeps (\<lambda>s :: 'w mgr_scheme. (m_queue s, m_chronyRfcEnabled s)) (init_prefix env)"
    unfolding init_prefix_def by (intro keeps_intros | simp)+
  have k2: "keeps (\<lambda>s :: 'w mgr_scheme. (m_queue s, m_chronyRfcEnabled s, m_pathEventMap s, b_subs s, b_pInstance s)) (setInitialTime env)"
    by (intro keeps_intros) simp_all
  show "wired env t" "m_queue t = []" "m_pathEventMap t = path_events []"
    "m_chronyRfcEnabled t = file_exists s ''/opt/secure/RFC/chrony/chronyd_enabled''"
    using keepsD [OF k1 u] keepsD [OF k2 w] ok init_prefix_wired [of env s0 u] u s0 wired_cong [of t u env]
    by simp_all
qed

section \<open>Properties\<close>

text \<open>
  C19: The daemon starts its threads. With a working environment \<open>main\<close> does not return: the manager
  waits for NTP, and the last threads started are the ones that process messages, run the timer and
  watch the files, followed, exactly when the chrony feature is enabled, by the one that handles
  network events before the one that subscribes to them, and the synchronisation monitor.
\<close>

theorem main_starts_threads:
  fixes s :: "'w mgr_scheme"
  assumes "sane_clock env" "boot_ok env s"
  shows "\<exists>t pre. main_prog env s = (Inr None, t) \<and> m_state t = eSYSMGR_STATE_NTP_WAIT \<and>
    started (w_hist t) = pre @ [''processThr'', ''timerThr'', ''pathThr''] @
      (if file_exists s ''/opt/secure/RFC/chrony/chronyd_enabled''
       then [''nwEventProcessThr'', ''nwEventSubscribeThr'', ''ntpSyncMonitorThr''] else [])"
proof -
  from boot_run [OF assms, of 0] obtain u where u: "boot env s = (Inr (), u)" by auto
  then have state: "m_state u = eSYSMGR_STATE_NTP_WAIT"
    using booted_status [of env u] assms(2) by (auto simp: booted_def boot_ok_def status_def)
  have k: "keeps (\<lambda>s :: 'w mgr_scheme. m_chronyRfcEnabled s) (initialize env)"
    unfolding initialize_split init_prefix_def by (intro keeps_intros | simp)+
  obtain s0 where s0: "get_instance s = (Inr (), s0)"
    "m_chronyRfcEnabled s0 = file_exists s ''/opt/secure/RFC/chrony/chronyd_enabled''"
    using assms(2) by (auto simp: get_instance_def new_SysTimeMgr_def prog_simps boot_ok_def)
  with u have "initialize env s0 = (Inr (), u)" by (simp add: boot_def bindM_run)
  from keepsD [OF k this] s0(2) have chrony:
    "m_chronyRfcEnabled u = file_exists s ''/opt/secure/RFC/chrony/chronyd_enabled''" by simp
  have "ret_code env h (Thread_create name) = 0" for h name
    using assms(2) by (simp add: boot_ok_def bus_works_def)
  from run_threads_run [OF this, of True u] obtain t where t: "run_threads env True u = (Inr (), t)"
    "t = u\<lparr>w_fs := w_fs t, w_hist := w_hist t\<rparr>" "started (w_hist t) = started (w_hist u) @ mgr_threads u" by blast
  from arg_cong [OF t(2), of m_state] state have "m_state t = eSYSMGR_STATE_NTP_WAIT" by simp
  with u t chrony show ?thesis
    by (auto simp: main_prog_def catchM_run bindM_run ret_run mgr_threads_def)
qed


theorem main_starts_threads_witness:
  "\<exists>t pre. main_prog example_env example_mgr = (Inr None, t) \<and> m_state t = eSYSMGR_STATE_NTP_WAIT \<and>
    started (w_hist t) = pre @ [''processThr'', ''timerThr'', ''pathThr''] @
      (if file_exists example_mgr ''/opt/secure/RFC/chrony/chronyd_enabled''
       then [''nwEventProcessThr'', ''nwEventSubscribeThr'', ''ntpSyncMonitorThr''] else [])"
  by (rule main_starts_threads [OF example_env_sane(1) example_boot_ok])

text \<open>
  When the first thread runs and the next one cannot be created, the exception destroys the object
  of a running thread, and the process is terminated instead of returning the failure status.
\<close>

lemma thread_failure_terminates:
  fixes s :: "'w mgr_scheme"
  assumes "ret_code env (w_hist s) (Thread_create ''processThr'') = 0"
    and "\<And>h. ret_code env h (Thread_create ''timerThr'') \<noteq> 0"
  shows "fst (run_threads env forever s) = Inl Terminate"
  using assms by (simp add: run_threads_def start_thread_def start_another_def prog_simps)

text \<open>
  Asking a store ends with an answer or with the null pointer that \<open>localtime\<close> returns for a time it cannot
  convert; so asking a list of stores that has a null pointer in it always ends with a null pointer.
\<close>

lemma sync_getTime_fault: "sync_getTime env y s = (Inl e, t) \<Longrightarrow> e = NullPointer"
  by (cases y)
    (auto simp: test_getTime_def rdk_getTime_def tee_getTime_def buildtime_def open_read_def strftime_localtime_def
      t2ValNotify_def t2CountNotify_def whenM_def call_int_def Let_def prog_simps split: if_splits option.splits)

lemma null_store_asked:
  assumes "None \<in> set ps"
  shows "fst (foldM (\<lambda>(v, ys) p. deref p (\<lambda>y. bindM (sync_getTime env y) (\<lambda>(v', y'). ret (v', ys @ [Some y']))))
    vy ps s) = Inl NullPointer"
  using assms
proof (induction ps arbitrary: vy s)
  case (Cons p ps)
  show ?case
  proof (cases p)
    case None
    then show ?thesis by (cases vy) (simp add: bindM_run deref_def throwM_run)
  next
    case (Some y)
    obtain o1 t where y: "sync_getTime env y s = (o1, t)" by (cases "sync_getTime env y s")
    from Cons.prems Some have "None \<in> set ps" by simp
    note rest = Cons.IH [OF this]
    show ?thesis
    proof (cases o1)
      case (Inl e)
      with y sync_getTime_fault [of env y s e t] show ?thesis
        by (cases vy) (simp add: Some bindM_run deref_def)
    next
      case (Inr r)
      with y rest show ?thesis by (cases vy; cases r) (simp add: Some bindM_run deref_def ret_run)
    qed
  qed
qed simp

text \<open>
  C35: An unknown store in the configuration stops the daemon. The factory answers the null pointer for
  a type that is unknown or not built in; the start stores it and then calls through it. So if any entry
  of the configuration, wherever it stands, is a store of such a type, and the calls of the start
  before that succeed, \<open>main\<close> ends with a null pointer and not with its failure status.
\<close>

theorem unknown_store_crashes:
  fixes s :: "'w mgr_scheme"
  assumes "bus_works env" "files_work env" "\<not> mgr_exists s"
    and "w_fs s ''/etc/systimemgr.conf'' = Some f"
    and "(''timesync'', ty, a) \<in> set (read_entries (content f))" "ty \<notin> sync_types env"
  shows "fst (main_prog env s) = Inl NullPointer"
proof -
  obtain s0 where s0: "get_instance s = (Inr (), s0)" "w_fs s0 = w_fs s" "m_timerSrc s0 = []"
    "m_timerSync s0 = []" "m_cfgfile s0 = ''/etc/systimemgr.conf''"
    using assms(3) by (auto simp: get_instance_def new_SysTimeMgr_def prog_simps)
  have cfg: "c_string ''/etc/systimemgr.conf'' = ''/etc/systimemgr.conf''" by code_simp
  from init_prefix_run [OF assms(1) s0(3,4)] obtain u h where
    u: "init_prefix env s0 = (Inr (), u)" and sync: "m_timerSync u = configured_sync env (config_entries env (s0\<lparr>w_hist := h\<rparr>))"
    by blast
  have "config_entries env (s0\<lparr>w_hist := h\<rparr>) = read_entries (content f)"
    by (rule config_entries_cases(2) [OF assms(2)]) (simp add: s0 cfg assms(4))
  with sync have "m_timerSync u = configured_sync env (read_entries (content f))" by simp
  moreover have "createTimeSync env ty (m_directory @ a) = None"
    using assms(6) createTimeSync_null [of env ty "m_directory @ a"] by blast
  ultimately have "None \<in> set (m_timerSync u)" using assms(5) by (force simp: configured_sync_def)
  then obtain t where "foldM (\<lambda>(v, ys) p. deref p (\<lambda>y. bindM (sync_getTime env y) (\<lambda>(v', y').
      ret (v', ys @ [Some y'])))) (0, []) (m_timerSync u) u = (Inl NullPointer, t)"
    by (metis null_store_asked prod.collapse)
  then have "setInitialTime env u = (Inl NullPointer, t)"
    by (simp add: setInitialTime_def bindM_run getM_run)
  with s0(1) u show ?thesis
    by (simp add: main_prog_def boot_def initialize_split catchM_run bindM_run throwM_run)
qed

text \<open>A misspelt store after a good one.\<close>

definition typo_mgr :: mgr where
  "typo_mgr = example_mgr\<lparr>w_fs := [''/etc/systimemgr.conf'' \<mapsto>
     \<lparr>content = ''timesync test /t timesrc ntp /ntp timesync rdkdefalt /clock.txt'', mtime = 1\<rparr>]\<rparr>"

theorem unknown_store_crashes_witness: "fst (main_prog example_env typo_mgr) = Inl NullPointer"
proof -
  have "read_entries ''timesync test /t timesrc ntp /ntp timesync rdkdefalt /clock.txt'' =
    [(''timesync'', ''test'', ''/t''), (''timesrc'', ''ntp'', ''/ntp''), (''timesync'', ''rdkdefalt'', ''/clock.txt'')]" by code_simp
  then have "(''timesync'', ''rdkdefalt'', ''/clock.txt'') \<in> set (read_entries (content \<lparr>content =
      ''timesync test /t timesrc ntp /ntp timesync rdkdefalt /clock.txt'', mtime = 1\<rparr>))"
    by simp
  moreover have "''rdkdefalt'' \<notin> sync_types example_env"
    by (simp add: sync_types_def example_env_def drm_env_def calm_env_def)
  moreover have "bus_works example_env" using example_boot_ok by (simp add: boot_ok_def)
  ultimately show ?thesis
    using unknown_store_crashes [OF _ example_env_sane(3), of typo_mgr]
    by (simp add: typo_mgr_def example_mgr_def)
qed

text \<open>
  C18: The power changes reach the manager. After every successful start of a fresh process the object
  that the callbacks find through the static instance is the power subscriber of the build, not the
  one for status queries, with the manager's handler and an empty queue; in a build without IARM
  there is none. The queue of messages is empty and the table of files is the one of the source.
\<close>

theorem boot_wires_bus:
  fixes s :: "'w mgr_scheme"
  assumes "fresh s" "boot env s = (Inr (), t)"
  shows "iarm_power_instance t =
       (if \<not> IARM_SUPPORT_DISABLED env \<and> \<not> PWRMGRPLUGIN_ENABLED env then Some PowerhandlerFn else None) \<and>
     map_option (\<lambda>(i, sub, f, q). (f, q)) (ipower_instance t) =
       (if \<not> IARM_SUPPORT_DISABLED env \<and> PWRMGRPLUGIN_ENABLED env then Some (PowerhandlerFn, []) else None) \<and>
     m_queue t = [] \<and> m_pathEventMap t = path_events []"
  using boot_wired [OF assms(2,1)] by (simp add: wired_def)

lemma example_fresh: "fresh example_mgr"
  by (simp add: fresh_def example_mgr_def)

theorem boot_wires_bus_witness:
  "\<exists>t. boot example_env example_mgr = (Inr (), t) \<and> iarm_power_instance t = Some PowerhandlerFn"
proof -
  obtain t where t: "boot example_env example_mgr = (Inr (), t)"
    using boot_run [OF example_env_sane(1) example_boot_ok, of 0] by auto
  from boot_wires_bus [OF example_fresh t] t show ?thesis
    by (simp add: example_env_def drm_env_def calm_env_def)
qed

end
