(* ===== verification/Power_Controller.thy ===== *)
theory Power_Controller
  imports Pub_Sub
begin

text \<open>
  \<open>IpowerControllerSubscriber\<close>: the callback of the power controller queues an event, a thread of
  the subscriber takes the events from the queue and handles them, another thread retries the
  connection. The callback pushes under one mutex and notifies without holding the mutex the
  thread waits with, so the steps of the two interleave; each step below is a critical section or
  a single operation on the condition variable.
\<close>

section \<open>The callback, the queue and the connection\<close>

text \<open>
  \<open>sysTimeMgrPwrEventHandler\<close> up to the notification: without an instance the condition variable
  is reached through the null pointer.
\<close>

definition sysTimeMgrPwrEventHandler :: "pwr_event \<Rightarrow> ('w, unit) bus_io" where
  "sysTimeMgrPwrEventHandler ev =
     bindM (getM ipower_instance) (\<lambda>instance. case instance of
         None \<Rightarrow> throwM NullPointer
       | Some (i, sub, f, q) \<Rightarrow> put_sub i (IpowerControllerSubscriber sub f (q @ [ev])))"

text \<open>The thread's own object: \<open>front\<close> and \<open>pop\<close> of its queue, \<open>None\<close> when it is empty.\<close>

definition pwr_queue :: "nat \<Rightarrow> 'w bus_scheme \<Rightarrow> pwr_event list" where
  "pwr_queue i s = (if i < length (b_subs s)
     then (case b_subs s ! i of IpowerControllerSubscriber _ _ q \<Rightarrow> q | _ \<Rightarrow> []) else [])"

definition set_pwr_queue :: "nat \<Rightarrow> pwr_event list \<Rightarrow> 'w bus_scheme \<Rightarrow> 'w bus_scheme" where
  "set_pwr_queue i q s = (if i < length (b_subs s)
     then (case b_subs s ! i of
             IpowerControllerSubscriber sub f _ \<Rightarrow>
               s\<lparr>b_subs := (b_subs s)[i := IpowerControllerSubscriber sub f q]\<rparr>
           | _ \<Rightarrow> s)
     else s)"

definition pop_pwr_event :: "nat \<Rightarrow> 'w bus_scheme \<Rightarrow> (pwr_event \<times> 'w bus_scheme) option" where
  "pop_pwr_event i s = (case pwr_queue i s of [] \<Rightarrow> None | ev # q \<Rightarrow> Some (ev, set_pwr_queue i q s))"

text \<open>
  \<open>sysTimeMgrPwrConnectHandlingThreadFunc\<close>: retry until connected, then register. The loop has no
  other exit; with fuel, \<open>None\<close> when it is used up.
\<close>

primrec sysTimeMgrPwrConnectHandlingThreadFunc :: "nat \<Rightarrow> env \<Rightarrow> ('w, unit option) bus_io" where
  "sysTimeMgrPwrConnectHandlingThreadFunc 0 env = ret None"
| "sysTimeMgrPwrConnectHandlingThreadFunc (Suc n) env =
     bindM (call env PowerController_Connect) (\<lambda>r.
       if POWER_CONTROLLER_ERROR_NONE = r
       then bindM (call env PowerController_RegisterPowerModeChangedCallback) (\<lambda>_. ret (Some ()))
       else sysTimeMgrPwrConnectHandlingThreadFunc n env)"

text \<open>\<open>sysTimeMgrDeinitPwrEvt\<close> after the join, and what the destructor does after that.\<close>

definition unregister :: "env \<Rightarrow> ('w, unit) bus_io" where
  "unregister env =
     bindM (call env PowerController_UnRegisterPowerModeChangedCallback) (\<lambda>_.
     bindM (call env PowerController_Term) (\<lambda>_. ret ()))"

section \<open>The threads\<close>

text \<open>
  Program points of the event thread: the test of the predicate (with the wait mutex), after
  it was false and before the wait has begun (holding that mutex, which \<open>deinit\<close> needs), blocked in the wait, in the inner loop (holding the
  queue mutex), handling one event, and returned.
\<close>

datatype evt_pc = Testing | Before_wait | Blocked | Draining | Handling pwr_event | Returned

text \<open>
  Program points of \<open>sysTimeMgrDeinitPwrEvt\<close>: not started, about to clear the queue, joining,
  finished.
\<close>

datatype deinit_pc = Not_called | Clearing | Joining | Finished

text \<open>
  \<open>notifying\<close> counts callbacks between push and notification; \<open>received\<close>, \<open>handled\<close> and
  \<open>dropped\<close> record the history of events for the proofs.
\<close>

record 'w pwr_threads =
  p_bus :: "'w bus_scheme"
  evt_pc :: evt_pc
  deinit_pc :: deinit_pc
  notifying :: nat
  received :: "pwr_event list"
  handled :: "pwr_event list"
  dropped :: bool

datatype pwr_label =
    Push pwr_event | Notify | Test | Wait | Spurious | Pop | Handle_event | Queue_empty
  | Deinit_notify | Deinit_clear | Join

text \<open>A notification wakes the thread if it is blocked, and is lost otherwise.\<close>

definition wake :: "evt_pc \<Rightarrow> evt_pc" where
  "wake pc = (if pc = Blocked then Testing else pc)"

inductive pwr_step ::
    "(funcPtr \<Rightarrow> string \<Rightarrow> ('w, unit) bus_io) \<Rightarrow> env \<Rightarrow> nat \<Rightarrow>
     'w pwr_threads \<Rightarrow> pwr_label \<Rightarrow> 'w pwr_threads \<Rightarrow> bool"
  for fns env i where
  push: "sysTimeMgrPwrEventHandler ev (p_bus c) = (Inr (), s) \<Longrightarrow>
    pwr_step fns env i c (Push ev)
      (c\<lparr>p_bus := s, notifying := Suc (notifying c), received := received c @ [ev]\<rparr>)"
| notify: "notifying c = Suc n \<Longrightarrow>
    pwr_step fns env i c Notify (c\<lparr>notifying := n, evt_pc := wake (evt_pc c)\<rparr>)"
| test_false: "evt_pc c = Testing \<Longrightarrow> pwr_queue i (p_bus c) = [] \<Longrightarrow>
    pwr_step fns env i c Test (c\<lparr>evt_pc := Before_wait\<rparr>)"
| test_true: "evt_pc c = Testing \<Longrightarrow> pwr_queue i (p_bus c) \<noteq> [] \<Longrightarrow>
    pwr_step fns env i c Test (c\<lparr>evt_pc := Draining\<rparr>)"
| wait: "evt_pc c = Before_wait \<Longrightarrow> pwr_step fns env i c Wait (c\<lparr>evt_pc := Blocked\<rparr>)"
| spurious: "evt_pc c = Blocked \<Longrightarrow> pwr_step fns env i c Spurious (c\<lparr>evt_pc := Testing\<rparr>)"
| pop: "evt_pc c = Draining \<Longrightarrow> pop_pwr_event i (p_bus c) = Some (ev, s) \<Longrightarrow>
    pwr_step fns env i c Pop (c\<lparr>p_bus := s, evt_pc := Handling ev\<rparr>)"
| handle_event: "evt_pc c = Handling ev \<Longrightarrow>
    sysTimeMgrHandlePwrEventData fns (currentState ev) (newState ev) (p_bus c) = (Inr (), s) \<Longrightarrow>
    pwr_step fns env i c Handle_event
      (c\<lparr>p_bus := s, evt_pc := Draining, handled := handled c @ [ev]\<rparr>)"
| queue_empty: "evt_pc c = Draining \<Longrightarrow> pop_pwr_event i (p_bus c) = None \<Longrightarrow>
    pwr_step fns env i c Queue_empty (c\<lparr>evt_pc := Testing\<rparr>)"
| deinit_notify: "deinit_pc c = Not_called \<Longrightarrow> evt_pc c \<noteq> Before_wait \<Longrightarrow>
    pwr_step fns env i c Deinit_notify (c\<lparr>deinit_pc := Clearing, evt_pc := wake (evt_pc c)\<rparr>)"
| deinit_clear: "deinit_pc c = Clearing \<Longrightarrow>
    pwr_step fns env i c Deinit_clear
      (c\<lparr>deinit_pc := Joining, p_bus := set_pwr_queue i [] (p_bus c), dropped := True\<rparr>)"
| join: "deinit_pc c = Joining \<Longrightarrow> evt_pc c = Returned \<Longrightarrow> unregister env (p_bus c) = (Inr (), s) \<Longrightarrow>
    pwr_step fns env i c Join (c\<lparr>deinit_pc := Finished, p_bus := s\<rparr>)"

inductive_cases pwr_stepE: "pwr_step fns env i c l d"

text \<open>The initial states: after \<open>subscribe\<close> the subscriber is the instance and its queue is empty.\<close>

definition pwr_init :: "nat \<Rightarrow> 'w pwr_threads \<Rightarrow> bool" where
  "pwr_init i c \<longleftrightarrow> (\<exists>sub f. ipower_instance (p_bus c) = Some (i, sub, f, [])) \<and>
     evt_pc c = Testing \<and> deinit_pc c = Not_called \<and> notifying c = 0 \<and>
     received c = [] \<and> handled c = [] \<and> \<not> dropped c"

section \<open>The queue\<close>

lemma pop_none: "pop_pwr_event i s = None \<longleftrightarrow> pwr_queue i s = []"
  by (simp add: pop_pwr_event_def split: list.split)

lemma set_pwr_queue_instance:
  "ipower_instance s = Some (i, sub, f, q) \<Longrightarrow>
   ipower_instance (set_pwr_queue i q' s) = Some (i, sub, f, q') \<and> pwr_queue i s = q"
  by (auto simp: ipower_instance_def set_pwr_queue_def pwr_queue_def nth_list_update
      split: option.splits if_splits subscriber.splits)

lemma pwr_queue_instance: "ipower_instance s = Some (i, sub, f, q) \<Longrightarrow> pwr_queue i s = q"
  using set_pwr_queue_instance by blast

lemma pop_instance:
  assumes "ipower_instance s = Some (i, sub, f, q)" "pop_pwr_event i s = Some (ev, t)"
  shows "\<exists>q'. q = ev # q' \<and> ipower_instance t = Some (i, sub, f, q')"
  using assms set_pwr_queue_instance [OF assms(1)]
  by (auto simp: pop_pwr_event_def split: list.splits)

lemma push_instance:
  assumes "ipower_instance s = Some (i, sub, f, q)" "sysTimeMgrPwrEventHandler ev s = (r, t)"
  shows "r = Inr () \<and> ipower_instance t = Some (i, sub, f, q @ [ev])"
  using assms
  by (auto simp: sysTimeMgrPwrEventHandler_def ipower_instance_def put_sub_def prog_simps nth_list_update
      split: option.splits if_splits subscriber.splits)

section \<open>The handler of events\<close>

text \<open>
  What the threads rely on: the registered function does not touch the subscribers, and it
  returns. The manager's \<open>powerhandler\<close> provides it.
\<close>

locale power_client =
  fixes fns :: "funcPtr \<Rightarrow> string \<Rightarrow> ('w, unit) bus_io"
  assumes fns_keeps: "keeps ipower_instance (fns f m)"
begin

lemma handle_keeps: "keeps ipower_instance (sysTimeMgrHandlePwrEventData fns cur new)"
proof -
  have inv: "keeps ipower_instance (invoke_fn fns f m)" for f m
    unfolding invoke_fn_def by (intro keeps_intros fns_keeps)
  show ?thesis
    unfolding sysTimeMgrHandlePwrEventData_def
    by (intro keeps_intros inv) (auto split: powerState.split intro!: keeps_intros inv)
qed

text \<open>Every event that was received is handled, being handled, or still queued, in order.\<close>

definition in_order :: "nat \<Rightarrow> 'w pwr_threads \<Rightarrow> bool" where
  "in_order i c \<longleftrightarrow> (\<exists>sub f q. ipower_instance (p_bus c) = Some (i, sub, f, q) \<and>
     (\<not> dropped c \<longrightarrow> received c = handled c @ (case evt_pc c of Handling ev \<Rightarrow> [ev] | _ \<Rightarrow> []) @ q)) \<and>
     evt_pc c \<noteq> Returned"

lemma in_order_step:
  assumes "in_order i c" "pwr_step fns env i c l d"
  shows "in_order i d"
proof -
  from assms(1) obtain sub f q where inst: "ipower_instance (p_bus c) = Some (i, sub, f, q)"
    and ord: "\<not> dropped c \<longrightarrow> received c = handled c @ (case evt_pc c of Handling ev \<Rightarrow> [ev] | _ \<Rightarrow> []) @ q"
    and pc: "evt_pc c \<noteq> Returned"
    by (auto simp: in_order_def)
  from assms(2) show ?thesis
  proof (cases rule: pwr_step.cases)
    case (push ev s)
    from push_instance [OF inst push(3)] push ord pc show ?thesis
      by (auto simp: in_order_def)
  next
    case (pop ev s)
    from pop_instance [OF inst pop(4)] pop ord show ?thesis
      by (auto simp: in_order_def)
  next
    case (handle_event ev s)
    from keepsD [OF handle_keeps handle_event(4)] inst handle_event ord show ?thesis
      by (auto simp: in_order_def)
  next
    case deinit_clear
    with set_pwr_queue_instance [OF inst, of "[]"] pc show ?thesis
      by (auto simp: in_order_def)
  qed (use inst ord pc in \<open>auto simp: in_order_def wake_def\<close>)
qed

lemma in_order_init: "pwr_init i c \<Longrightarrow> in_order i c"
  by (auto simp: in_order_def pwr_init_def)

end

sublocale power_client \<subseteq> order: invariant_system "pwr_init i" "pwr_step fns env i" "in_order i" for env i
  by unfold_locales (auto intro: in_order_init in_order_step)

interpretation never: invariant_system "pwr_init i" "pwr_step fns env i"
  "\<lambda>c. evt_pc c \<noteq> Returned \<and> deinit_pc c \<noteq> Finished"
  by unfold_locales (auto simp: pwr_init_def wake_def split: if_splits elim!: pwr_stepE)

section \<open>Properties\<close>

definition pwr0 :: "unit pwr_threads" where
  "pwr0 = \<lparr>p_bus = bus_with (IpowerControllerSubscriber ''SystemTimeMgr'' PowerhandlerFn []),
     evt_pc = Testing, deinit_pc = Not_called, notifying = 0, received = [], handled = [], dropped = False\<rparr>"

lemma pwr0_init: "pwr_init 0 pwr0"
  by (simp add: pwr_init_def pwr0_def bus_with_def ipower_instance_def)

text \<open>
  C36: A wake-up can be lost. The callback notifies without holding the mutex the thread waits with,
  so from every initial state the threads can reach a state in which an event is queued, every
  callback has finished, and the thread is blocked: nothing but another event, a spurious wake-up
  or the shutdown gets it going again.
\<close>

theorem power_wakeup_lost:
  fixes c0 :: "'w pwr_threads"
  assumes "pwr_init i c0"
  shows "\<exists>c. run (pwr_step fns env i) c0 [Test, Push ev, Notify, Wait] c \<and>
    pwr_queue i (p_bus c) = [ev] \<and> notifying c = 0 \<and> evt_pc c = Blocked \<and> handled c = [] \<and>
    (\<forall>l d. pwr_step fns env i c l d \<longrightarrow> l = Spurious \<or> l = Deinit_notify \<or> (\<exists>ev'. l = Push ev'))"
proof -
  from assms obtain sub f where inst: "ipower_instance (p_bus c0) = Some (i, sub, f, [])"
    by (auto simp: pwr_init_def)
  obtain s where s: "sysTimeMgrPwrEventHandler ev (p_bus c0) = (Inr (), s)"
    using push_instance [OF inst] by (cases "sysTimeMgrPwrEventHandler ev (p_bus c0)") blast
  have q: "pwr_queue i (p_bus c0) = []" "pwr_queue i s = [ev]"
    using push_instance [OF inst s] inst by (simp_all add: pwr_queue_instance)
  define c1 where "c1 = c0\<lparr>evt_pc := Before_wait\<rparr>"
  define c2 where "c2 = c1\<lparr>p_bus := s, notifying := Suc (notifying c1), received := received c1 @ [ev]\<rparr>"
  define c3 where "c3 = c2\<lparr>notifying := 0, evt_pc := wake (evt_pc c2)\<rparr>"
  define c where "c = c3\<lparr>evt_pc := Blocked\<rparr>"
  have "pwr_step fns env i c0 Test c1"
    unfolding c1_def by (rule test_false) (use assms q in \<open>simp_all add: pwr_init_def\<close>)
  moreover have "pwr_step fns env i c1 (Push ev) c2"
    unfolding c2_def by (rule push) (simp add: c1_def s)
  moreover have "pwr_step fns env i c2 Notify c3"
    unfolding c3_def by (rule notify) (use assms in \<open>simp add: c2_def c1_def pwr_init_def\<close>)
  moreover have "pwr_step fns env i c3 Wait c"
    unfolding c_def by (rule wait) (simp add: c3_def c2_def c1_def wake_def)
  ultimately have "run (pwr_step fns env i) c0 [Test, Push ev, Notify, Wait] c"
    by (meson run.intros)
  moreover have "l = Spurious \<or> l = Deinit_notify \<or> (\<exists>ev'. l = Push ev')"
    if "pwr_step fns env i c l d" for l d
    using that assms by (auto simp: c_def c3_def c2_def c1_def pwr_init_def elim!: pwr_stepE)
  moreover have "handled c = []" "notifying c = 0" "evt_pc c = Blocked" "p_bus c = s"
    using assms by (simp_all add: c_def c3_def c2_def c1_def pwr_init_def)
  ultimately show ?thesis using q(2) by blast
qed

theorem power_wakeup_lost_witness:
  "\<exists>c. run (pwr_step (\<lambda>_ _. ret ()) (calm_env 1) 0) pwr0
      [Test, Push \<lparr>currentState = POWER_STATE_STANDBY_DEEP_SLEEP, newState = POWER_STATE_ON\<rparr>, Notify, Wait] c \<and>
    pwr_queue 0 (p_bus c) = [\<lparr>currentState = POWER_STATE_STANDBY_DEEP_SLEEP, newState = POWER_STATE_ON\<rparr>] \<and>
    notifying c = 0 \<and> evt_pc c = Blocked \<and> handled c = [] \<and>
    (\<forall>l d. pwr_step (\<lambda>_ _. ret ()) (calm_env 1) 0 c l d \<longrightarrow>
       l = Spurious \<or> l = Deinit_notify \<or> (\<exists>ev'. l = Push ev'))"
  by (rule power_wakeup_lost [OF pwr0_init])

text \<open>
  The shutdown never completes. The event loop has no exit, although the comments say the thread
  is told to stop, so in every reachable state the thread has not returned and the join of
  \<open>sysTimeMgrDeinitPwrEvt\<close> has not finished.
\<close>

theorem power_deinit_never_joins:
  fixes c :: "'w pwr_threads"
  assumes "reach (pwr_init i) (pwr_step fns env i) c"
  shows "deinit_pc c \<noteq> Finished \<and> \<not> (\<exists>d. pwr_step fns env i c Join d)"
  using never.reach_inv [OF assms] by (auto elim: pwr_stepE)

theorem power_deinit_never_joins_witness:
  "deinit_pc pwr0 \<noteq> Finished \<and> \<not> (\<exists>d. pwr_step (\<lambda>_ _. ret ()) (calm_env 1) 0 pwr0 Join d)"
  by (rule power_deinit_never_joins) (rule reach_init, rule pwr0_init)

text \<open>
  The connection loop ends. If the power controller accepts the connection from the k-th attempt
  on, the thread registers the callback and returns within \<open>k + 1\<close> iterations.
\<close>

definition connects :: "hist \<Rightarrow> nat" where
  "connects h = length (filter (\<lambda>c. fst c = PowerController_Connect) h)"

lemma connect_loop_run:
  fixes s :: "'w bus_scheme"
  assumes "\<And>h. k \<le> connects h \<Longrightarrow> ret_code env h PowerController_Connect = POWER_CONTROLLER_ERROR_NONE"
    and "k \<le> connects (w_hist s) + n"
  shows "\<exists>h. sysTimeMgrPwrConnectHandlingThreadFunc (Suc n) env s = (Inr (Some ()), s\<lparr>w_hist := h\<rparr>) \<and>
    fst (last h) = PowerController_RegisterPowerModeChangedCallback"
  using assms(2)
proof (induction n arbitrary: s)
  case 0
  with assms(1) show ?case by (auto simp: prog_simps)
next
  case (Suc n)
  define r where "r = ret_code env (w_hist s) PowerController_Connect"
  define t where "t = s\<lparr>w_hist := w_hist s @ [(PowerController_Connect, r)]\<rparr>"
  show ?case
  proof (cases "r = POWER_CONTROLLER_ERROR_NONE")
    case True
    then show ?thesis by (auto simp: prog_simps r_def)
  next
    case False
    then have "sysTimeMgrPwrConnectHandlingThreadFunc (Suc (Suc n)) env s =
        sysTimeMgrPwrConnectHandlingThreadFunc (Suc n) env t"
      by (simp add: bindM_run call_run r_def t_def)
    moreover have "k \<le> connects (w_hist t) + n"
      using Suc.prems by (simp add: t_def connects_def)
    ultimately show ?thesis using Suc.IH [of t] by (auto simp: t_def)
  qed
qed

theorem power_connect_terminates:
  fixes s :: "'w bus_scheme"
  assumes "\<And>h. k \<le> connects h \<Longrightarrow> ret_code env h PowerController_Connect = POWER_CONTROLLER_ERROR_NONE"
  shows "\<exists>h. sysTimeMgrPwrConnectHandlingThreadFunc (Suc k) env s = (Inr (Some ()), s\<lparr>w_hist := h\<rparr>) \<and>
    fst (last h) = PowerController_RegisterPowerModeChangedCallback"
  by (rule connect_loop_run [OF assms]) (assumption, rule le_add2)

definition late_power_env :: "nat \<Rightarrow> env" where
  "late_power_env k = (calm_env 1)\<lparr>ret_code := (\<lambda>h c. if c = PowerController_Connect \<and> connects h < k then 7 else 0)\<rparr>"

theorem power_connect_terminates_witness:
  "\<exists>h. sysTimeMgrPwrConnectHandlingThreadFunc (Suc 4) (late_power_env 4) (p_bus pwr0) =
      (Inr (Some ()), (p_bus pwr0)\<lparr>w_hist := h\<rparr>) \<and>
    fst (last h) = PowerController_RegisterPowerModeChangedCallback"
  by (rule power_connect_terminates) (simp add: late_power_env_def POWER_CONTROLLER_ERROR_NONE_def)

end
