(* ===== verification/Daemon.thy ===== *)
theory Daemon
  imports Mgr_Main Power_Controller
begin

text \<open>
  The running daemon: all its threads and the callbacks of the bus, the power controller and the
  network manager, as one transition system. A step is a critical section, an operation on a
  condition variable, or one iteration of a polling loop; every interleaving of such steps is a
  run. The step relations of \<open>Power_Controller\<close> and \<open>Network_Status\<close> are part of it.
\<close>

section \<open>Processing messages\<close>

text \<open>\<open>front\<close> and \<open>pop\<close> of the queue, \<open>None\<close> when it is empty.\<close>

definition pop_msg :: "'w mgr_scheme \<Rightarrow> (sysTimeMsg \<times> 'w mgr_scheme) option" where
  "pop_msg s = (case m_queue s of [] \<Rightarrow> None | val # q \<Rightarrow> Some (val, s\<lparr>m_queue := q\<rparr>))"

text \<open>
  One pass of \<open>processMsg\<close> with the queue mutex, which it keeps while the handler runs: \<open>None\<close> when
  the queue is empty and it waits, otherwise the message it has handled.
\<close>

definition processMsg_locked :: "env \<Rightarrow> ('w, sysTimeMsg option) mgr_io" where
  "processMsg_locked env = (\<lambda>s. case pop_msg s of
       None \<Rightarrow> (Inr None, s)
     | Some (val, s') \<Rightarrow> bindM (runStateMachine env (q_event val)) (\<lambda>_. ret (Some val)) s')"

text \<open>What \<open>sendMessage\<close> and \<open>processMsg\<close> share is a first-in first-out queue.\<close>

interpretation mq: fifo "\<lambda>m s. snd (sendMessage (q_event m) (q_args m) s)" pop_msg m_queue
  by unfold_locales (auto simp: sendMessage_def modM_run pop_msg_def split: list.splits)

section \<open>The threads\<close>

text \<open>
  Program points. \<open>processMsg\<close>: about to take the mutex, or blocked on the condition variable. The
  path monitor: the files it has still to look for, reading with the contents of its buffer, or
  returned. The synchronisation monitor: polling or returned.
\<close>

datatype proc_pc = Proc_ready | Proc_blocked

datatype mon_pc = Mon_scanning "(string \<times> sysTimeMgrEvent) list" | Mon_reading string | Mon_returned

datatype ntp_pc = Ntp_polling | Ntp_returned

text \<open>
  The state of all threads; the manager is the bus state of the power threads. \<open>notifies\<close> counts
  senders between push and notification. \<open>sent\<close>, \<open>processed\<close> and \<open>powers\<close> record, for the proofs,
  the events that were sent and handled and the power changes that were handled.
\<close>

record 'w daemon =
  d_pwr :: "'w mgr_ext net_ext pwr_threads"
  net_pc :: net_pcs
  proc_pc :: proc_pc
  mon_pc :: mon_pc
  ntp_pc :: ntp_pc
  notifies :: nat
  sent :: "sysTimeMgrEvent list"
  processed :: "sysTimeMgrEvent list"
  powers :: "pwr_event list"

definition mgr_of :: "'w daemon \<Rightarrow> 'w mgr_scheme" where
  "mgr_of d = p_bus (d_pwr d)"

definition with_mgr :: "'w mgr_scheme \<Rightarrow> 'w daemon \<Rightarrow> 'w daemon" where
  "with_mgr s d = d\<lparr>d_pwr := (d_pwr d)\<lparr>p_bus := s\<rparr>\<rparr>"

text \<open>A thread has sent messages: the new ones of the queue are recorded and to be notified.\<close>

definition posted :: "'w mgr_scheme \<Rightarrow> 'w daemon \<Rightarrow> 'w daemon" where
  "posted s d =
     (let new = drop (length (m_queue (mgr_of d))) (m_queue s) in
      (with_mgr s d)\<lparr>sent := sent d @ map q_event new, notifies := notifies d + length new\<rparr>)"

datatype daemon_label =
    Timer | Notify_proc | Process_msg | Proc_spurious | Scan | Watch | Read "string option" | Ntp_poll
  | Net net_label | Pwr pwr_label | Iarm_power pwr_event | Query "TimerMsg option"

inductive daemon_step :: "env \<Rightarrow> 'w daemon \<Rightarrow> daemon_label \<Rightarrow> 'w daemon \<Rightarrow> bool" for env where
  timer: "timer_iteration env (mgr_of d) = (Inr (), s) \<Longrightarrow> daemon_step env d Timer (posted s d)"
| notify_proc: "notifies d = Suc n \<Longrightarrow>
    daemon_step env d Notify_proc (d\<lparr>notifies := n, proc_pc := Proc_ready\<rparr>)"
| process_wait: "proc_pc d = Proc_ready \<Longrightarrow> processMsg_locked env (mgr_of d) = (Inr None, s) \<Longrightarrow>
    daemon_step env d Process_msg ((with_mgr s d)\<lparr>proc_pc := Proc_blocked\<rparr>)"
| process_msg: "proc_pc d = Proc_ready \<Longrightarrow> processMsg_locked env (mgr_of d) = (Inr (Some m), s) \<Longrightarrow>
    daemon_step env d Process_msg ((with_mgr s d)\<lparr>processed := processed d @ [q_event m]\<rparr>)"
| proc_spurious: "proc_pc d = Proc_blocked \<Longrightarrow> daemon_step env d Proc_spurious (d\<lparr>proc_pc := Proc_ready\<rparr>)"
| scan: "mon_pc d = Mon_scanning (p # ps) \<Longrightarrow> scan_entry env p (mgr_of d) = (Inr (), s) \<Longrightarrow>
    daemon_step env d Scan ((posted s d)\<lparr>mon_pc := Mon_scanning ps\<rparr>)"
| watch: "mon_pc d = Mon_scanning [] \<Longrightarrow> watch env (mgr_of d) = (Inr ok, s) \<Longrightarrow>
    daemon_step env d Watch ((with_mgr s d)\<lparr>mon_pc := (if ok then Mon_reading stack else Mon_returned)\<rparr>)"
| read_event: "mon_pc d = Mon_reading buf \<Longrightarrow> dispatch (fill bytes buf) (mgr_of d) = (Inr (), s) \<Longrightarrow>
    daemon_step env d (Read (Some bytes)) ((posted s d)\<lparr>mon_pc := Mon_reading (fill bytes buf)\<rparr>)"
| read_fails: "mon_pc d = Mon_reading buf \<Longrightarrow> daemon_step env d (Read None) (d\<lparr>mon_pc := Mon_returned\<rparr>)"
| ntp_poll: "ntp_pc d = Ntp_polling \<Longrightarrow> m_chronyRfcEnabled (mgr_of d) \<Longrightarrow>
    runNTPSyncMonitor 1 env (mgr_of d) = (Inr r, s) \<Longrightarrow>
    daemon_step env d Ntp_poll
      ((with_mgr s d)\<lparr>ntp_pc := (case r of None \<Rightarrow> Ntp_polling | Some _ \<Rightarrow> Ntp_returned)\<rparr>)"
| net: "m_chronyRfcEnabled (mgr_of d) \<Longrightarrow> net_step env (net_pc d, mgr_of d) l (pc, s) \<Longrightarrow>
    daemon_step env d (Net l) ((with_mgr s d)\<lparr>net_pc := pc\<rparr>)"
| pwr: "ipower_instance (mgr_of d) = Some (i, sub, f, q) \<Longrightarrow>
    pwr_step (registered_fns env) env i (d_pwr d) l c \<Longrightarrow>
    daemon_step env d (Pwr l)
      (d\<lparr>d_pwr := c, powers := powers d @ drop (length (handled (d_pwr d))) (handled c)\<rparr>)"
| iarm_power: "iarm_power_instance (mgr_of d) \<noteq> None \<Longrightarrow>
    powereventHandler (registered_fns env) env (IARM_BUS_PWRMGR_EVENT_MODECHANGED env) ev (mgr_of d) = (Inr (), s) \<Longrightarrow>
    daemon_step env d (Iarm_power ev) ((with_mgr s d)\<lparr>powers := powers d @ [ev]\<rparr>)"
| query: "static_getTimeStatus env args (mgr_of d) = (Inr r, s) \<Longrightarrow>
    daemon_step env d (Query args) (with_mgr s d)"

inductive_cases daemon_stepE: "daemon_step env d l d'"

text \<open>The initial states: a fresh process has booted, and its threads have not run yet.\<close>

definition daemon_init :: "env \<Rightarrow> 'w daemon \<Rightarrow> bool" where
  "daemon_init env d \<longleftrightarrow> (\<exists>s. fresh s \<and> boot env s = (Inr (), mgr_of d)) \<and>
     evt_pc (d_pwr d) = Testing \<and> deinit_pc (d_pwr d) = Not_called \<and> notifying (d_pwr d) = 0 \<and>
     received (d_pwr d) = [] \<and> handled (d_pwr d) = [] \<and> \<not> dropped (d_pwr d) \<and>
     net_pc d = net_pcs0 \<and> proc_pc d = Proc_ready \<and> mon_pc d = Mon_scanning (m_pathEventMap (mgr_of d)) \<and>
     ntp_pc d = Ntp_polling \<and> notifies d = 0 \<and> sent d = [] \<and> processed d = [] \<and> powers d = []"


section \<open>What the threads share\<close>

text \<open>The part of the manager that the invariants below speak about.\<close>

definition core where
  "core s = (m_queue s, mgr_exists s, stateMachine s, status s, iarm_power_instance s, ipower_instance s)"

lemma core_eqI:
  assumes "b_subs s = b_subs t" "b_pInstance s = b_pInstance t"
    and "(m_queue s, mgr_exists s, stateMachine s, status s) = (m_queue t, mgr_exists t, stateMachine t, status t)"
  shows "core s = core t"
  using assms(3) instance_cong [OF assms(1,2)] by (simp add: core_def)

text \<open>A program that keeps the fields keeps the core.\<close>

lemma keeps_core:
  assumes "keeps (\<lambda>s. (b_subs s, b_pInstance s, m_queue s, mgr_exists s, stateMachine s, status s)) m" "m s = (r, t)"
  shows "core t = core s"
  using keepsD [OF assms] by (intro core_eqI) simp_all

lemma net_step_core:
  assumes "net_step env c l c'"
  shows "core (snd c' :: 'w mgr_scheme) = core (snd c)"
proof -
  have "(b_subs (snd c'), b_pInstance (snd c'), m_queue (snd c'), mgr_exists (snd c'), stateMachine (snd c'), status (snd c')) =
    (b_subs (snd c), b_pInstance (snd c), m_queue (snd c), mgr_exists (snd c), stateMachine (snd c), status (snd c))"
    by (rule net_step_keeps [OF assms]) (simp_all add: status_def)
  then show ?thesis by (intro core_eqI) simp_all
qed

lemma keeps_fields:
  fixes env and p :: "'w mgr_scheme \<Rightarrow> _"
  defines "p \<equiv> \<lambda>s. (b_subs s, b_pInstance s, m_queue s, mgr_exists s, stateMachine s, status s)"
  shows "keeps p (runNTPSyncMonitor n env)" "keeps p (watch env)"
    "keeps p (getTimeStatus env m)" "keeps p (unregister env)"
proof -
  have report: "keeps p (report_offset env)"
    unfolding report_offset_def p_def by (intro keeps_intros | simp)+
  have marks: "keeps p (record_sync env)"
    unfolding record_sync_def create_file_def
    by (intro keeps_intros report | simp add: p_def put_file_def)+
  have poll: "keeps p (poll_sync env)"
    unfolding poll_sync_def p_def by (intro keeps_intros | simp)+
  show "keeps p (runNTPSyncMonitor n env)"
    by (induction n) (simp_all add: keeps_intros poll marks)
  show "keeps p (watch env)" "keeps p (getTimeStatus env m)" "keeps p (unregister env)"
    unfolding watch_def getTimeStatus_def unregister_def p_def
    by (intro keeps_intros | simp add: status_def)+
qed

lemma query_core:
  assumes "mgr_exists s" "static_getTimeStatus env args s = (Inr r, t)"
  shows "core t = core s"
proof -
  obtain m where args: "args = Some m"
    using assms by (cases args) (auto simp: static_getTimeStatus_def get_instance_def deref_def prog_simps)
  obtain x u where x: "getTimeStatus env m s = (x, u)" by (cases "getTimeStatus env m s")
  with assms args have "t = u"
    by (cases x) (auto simp: static_getTimeStatus_def get_instance_def deref_def bindM_run getM_run whenM_run ret_run)
  with keeps_core [OF keeps_fields(3) x] show ?thesis by simp
qed


section \<open>Senders\<close>

text \<open>Every sender only appends messages to the queue.\<close>

definition appends :: "'w mgr_scheme \<Rightarrow> 'w mgr_scheme \<Rightarrow> bool" where
  "appends s t \<longleftrightarrow> (\<exists>h ms. t = s\<lparr>w_hist := h, m_queue := m_queue s @ ms\<rparr>)"

lemma appendsI: "t = s\<lparr>w_hist := h, m_queue := m_queue s @ ms\<rparr> \<Longrightarrow> appends s t"
  by (auto simp: appends_def)

lemma senders_append:
  fixes s :: "'w mgr_scheme"
  shows "timer_iteration env s = (r, t) \<Longrightarrow> appends s t"
    and "scan_entry env p s = (r, t) \<Longrightarrow> appends s t"
    and "dispatch b s = (r, t) \<Longrightarrow> appends s t"
proof -
  show "appends s t" if "timer_iteration env s = (r, t)"
    using timer_iteration_run [of env s] that by (auto intro: appendsI)
  have none: "appends x x" "appends x (x\<lparr>m_queue := m_queue x @ ms\<rparr>)" "appends x (x\<lparr>w_hist := h\<rparr>)"
    for ms h and x :: "'w mgr_scheme"
    by (rule appendsI [where ms = "[]" and h = "w_hist x"], simp,
        rule appendsI [where ms = ms and h = "w_hist x"], simp,
        rule appendsI [where ms = "[]" and h = h], simp)
  show "appends s t" if "scan_entry env p s = (r, t)"
    using that by (cases p) (auto simp: scan_entry_def open_read_def prog_simps sendMessage_def none
        intro: appendsI split: if_splits)
  show "appends s t" if "dispatch b s = (r, t)"
    using that by (auto simp: dispatch_def prog_simps sendMessage_def none split: if_splits option.splits)
qed

lemma appends_core:
  assumes "appends s t"
  obtains ms where "m_queue t = m_queue s @ ms" "core (t\<lparr>m_queue := m_queue s\<rparr>) = core s"
  using assms by (auto simp: appends_def intro!: core_eqI intro: that)

section \<open>Power changes in the daemon\<close>

interpretation pcl: power_client "registered_fns env" for env
proof unfold_locales
  fix f m
  have "keeps (\<lambda>s :: 'a mgr_scheme. (b_subs s, b_pInstance s)) (registered_fns env f m)"
    unfolding registered_fns_def powerhandler_def get_instance_def new_SysTimeMgr_def deepsleepon_def
    by (cases f) (simp_all, (intro keeps_intros | simp)+)
  then show "keeps ipower_instance (registered_fns env f m :: ('a, unit) mgr_io)"
    unfolding keeps_def using instance_cong(2) by blast
qed

text \<open>A registered function that is called with a message of the power subscribers makes a step.\<close>

lemma power_fn_step:
  assumes "mgr_exists s"
    and "(case m of None \<Rightarrow> (Inr (), s) | Some msg \<Rightarrow> invoke_fn (registered_fns env) PowerhandlerFn msg s) = (Inr (), t)"
  shows "(case m of None \<Rightarrow> t = s | Some msg \<Rightarrow> mgr_step env s (Power msg) t) \<and>
    m_queue t = m_queue s \<and> iarm_power_instance t = iarm_power_instance s \<and> ipower_instance t = ipower_instance s"
proof (cases m)
  case None
  with assms(2) show ?thesis by simp
next
  case (Some msg)
  with assms(2) obtain r where r: "powerhandler env msg s = (Inr r, t)"
    by (auto simp: invoke_fn_def registered_fns_def bindM_run ret_run split: prod.splits sum.splits)
  have "keeps (\<lambda>s. (b_subs s, b_pInstance s, m_queue s)) (deepsleepoff env)"
    by (intro keeps_intros) simp_all
  from powerhandler_keeps [OF assms(1) r this] instance_cong [of t s] r Some show ?thesis by auto
qed


lemma iarm_not_ipower: "ipower_instance s = Some x \<Longrightarrow> iarm_power_instance s = None"
  by (auto simp: ipower_instance_def iarm_power_instance_def split: option.splits if_splits subscriber.splits)

text \<open>A change of power: what the manager does, and its effect on the status.\<close>

definition power_label :: "pwr_event \<Rightarrow> mgr_label list" where
  "power_label ev = (case power_message (currentState ev) (newState ev) of None \<Rightarrow> [] | Some m \<Rightarrow> [Power m])"

lemma power_fn_effect:
  assumes "ready s"
    and "(case power_message (currentState ev) (newState ev) of None \<Rightarrow> (Inr (), s)
          | Some msg \<Rightarrow> invoke_fn (registered_fns env) PowerhandlerFn msg s) = (Inr (), t)"
  shows "ready t \<and> status t = fold spec_label (power_label ev) (status s) \<and> m_queue t = m_queue s \<and>
    iarm_power_instance t = iarm_power_instance s \<and> ipower_instance t = ipower_instance s"
proof -
  have "mgr_exists s" using assms(1) by (simp add: ready_def)
  note st = power_fn_step [OF this assms(2)]
  show ?thesis
  proof (cases "power_message (currentState ev) (newState ev)")
    case None
    with st assms(1) show ?thesis by (simp add: power_label_def)
  next
    case (Some m)
    with st have "mgr_step env s (Power m) t" by simp
    from mgr_step_ready [OF assms(1) this] mgr_step_status [OF assms(1) this] st Some show ?thesis
      by (simp add: power_label_def)
  qed
qed

text \<open>The steps of the power threads.\<close>

lemma pwr_step_effect:
  fixes c :: "'w mgr_ext net_ext pwr_threads"
  assumes "pwr_step (registered_fns env) env i c l c'" "ipower_instance (p_bus c) = Some (i, sub, PowerhandlerFn, q)"
    and "ready (p_bus c)"
  shows "\<exists>evs q'. handled c' = handled c @ evs \<and> ready (p_bus c') \<and>
    status (p_bus c') = fold spec_label (concat (map power_label evs)) (status (p_bus c)) \<and>
    m_queue (p_bus c') = m_queue (p_bus c) \<and> ipower_instance (p_bus c') = Some (i, sub, PowerhandlerFn, q')"
  using assms(1)
proof cases
  case (push ev s)
  have "keeps (\<lambda>s :: 'w mgr_scheme. (m_queue s, mgr_exists s, stateMachine s, status s)) (sysTimeMgrPwrEventHandler ev)"
    unfolding sysTimeMgrPwrEventHandler_def put_sub_def by (intro keeps_intros | simp add: status_def)+
  from keepsD [OF this push(3)] push_instance [OF assms(2) push(3)] push(2) assms(3) show ?thesis
    by (simp add: ready_def)
next
  case (pop ev s)
  then have s: "s = set_pwr_queue i (tl (pwr_queue i (p_bus c))) (p_bus c)"
    by (auto simp: pop_pwr_event_def split: list.splits)
  have "(m_queue s, mgr_exists s, stateMachine s, status s) =
      (m_queue (p_bus c), mgr_exists (p_bus c), stateMachine (p_bus c), status (p_bus c))"
    unfolding s by (simp add: set_pwr_queue_def status_def split: subscriber.split)
  with pop_instance [OF assms(2) pop(4)] pop(2) assms(3) show ?thesis by (auto simp: ready_def)
next
  case (handle_event ev s)
  from handle_event(4) have "(case power_message (currentState ev) (newState ev) of None \<Rightarrow> (Inr (), p_bus c)
          | Some msg \<Rightarrow> invoke_fn (registered_fns env) PowerhandlerFn msg (p_bus c)) = (Inr (), s)"
    by (simp add: sysTimeMgrHandlePwrEventData_run [OF assms(2)])
  from power_fn_effect [OF assms(3) this] handle_event(2) assms(2) show ?thesis by simp
next
  case deinit_clear
  have "(m_queue (set_pwr_queue i [] (p_bus c)), mgr_exists (set_pwr_queue i [] (p_bus c)),
         stateMachine (set_pwr_queue i [] (p_bus c)), status (set_pwr_queue i [] (p_bus c))) =
      (m_queue (p_bus c), mgr_exists (p_bus c), stateMachine (p_bus c), status (p_bus c))"
    by (simp add: set_pwr_queue_def status_def split: subscriber.split)
  with set_pwr_queue_instance [OF assms(2), of "[]"] deinit_clear assms(3) show ?thesis by (simp add: ready_def)
next
  case (join s)
  from keeps_core [OF keeps_fields(4) join(5)] join(2) assms(2,3) show ?thesis
    by (simp add: core_def ready_def)
qed (use assms(2,3) in auto)


section \<open>The invariant\<close>

text \<open>
  The status is explained by some interleaving of the events and the power changes that were
  handled, each in its order, from the status after the start.
\<close>

definition explained :: "sysTimeMgrEvent list \<Rightarrow> pwr_event list \<Rightarrow> status \<Rightarrow> bool" where
  "explained evs ps st \<longleftrightarrow> (\<exists>ls \<in> shuffles (map Handle evs) (concat (map power_label ps)).
     \<exists>q \<in> {eTIMEQUALILTY_POOR, eTIMEQUALILTY_UNKNOWN}.
       st = fold spec_label ls (eSYSMGR_STATE_NTP_WAIT, q, ''Last Known''))"

lemma shuffles_snoc:
  "zs \<in> shuffles xs ys \<Longrightarrow> zs @ [x] \<in> shuffles (xs @ [x]) ys"
proof (induction xs ys arbitrary: zs rule: shuffles.induct)
  case (1 ys)
  have "ys @ [x] \<in> shuffles [x] ys" by (induction ys) (auto simp: Cons_in_shuffles_iff)
  with 1 show ?case by simp
qed (auto simp: Cons_in_shuffles_iff)

lemma shuffles_append:
  "zs \<in> shuffles xs ys \<Longrightarrow> zs @ vs \<in> shuffles (xs @ vs) ys"
proof (induction vs arbitrary: zs xs)
  case (Cons v vs)
  from Cons.IH [OF shuffles_snoc [OF Cons.prems, of v]] show ?case by simp
qed simp

lemma explained_step:
  assumes "explained evs ps st"
  shows "explained (evs @ fs) ps (fold spec_label (map Handle fs) st)"
    "explained evs (ps @ qs) (fold spec_label (concat (map power_label qs)) st)"
proof -
  from assms obtain ls q where ls: "ls \<in> shuffles (map Handle evs) (concat (map power_label ps))"
    and q: "q \<in> {eTIMEQUALILTY_POOR, eTIMEQUALILTY_UNKNOWN}"
      "st = fold spec_label ls (eSYSMGR_STATE_NTP_WAIT, q, ''Last Known'')"
    by (auto simp: explained_def)
  have fold: "fold spec_label vs st = fold spec_label (ls @ vs) (eSYSMGR_STATE_NTP_WAIT, q, ''Last Known'')" for vs
    by (simp add: q(2))
  from shuffles_append [OF ls, of "map Handle fs"]
  have "ls @ map Handle fs \<in> shuffles (map Handle (evs @ fs)) (concat (map power_label ps))" by simp
  with q(1) fold show "explained (evs @ fs) ps (fold spec_label (map Handle fs) st)"
    unfolding explained_def by blast
  from shuffles_append [of ls "concat (map power_label ps)" "map Handle evs" "concat (map power_label qs)"] ls
  have "ls @ concat (map power_label qs) \<in> shuffles (map Handle evs) (concat (map power_label (ps @ qs)))"
    by (simp add: shuffles_commutes)
  with q(1) fold show "explained evs (ps @ qs) (fold spec_label (concat (map power_label qs)) st)"
    unfolding explained_def by blast
qed

definition pwr_ok :: "'w daemon \<Rightarrow> bool" where
  "pwr_ok d \<longleftrightarrow> (\<forall>i sub f q. ipower_instance (mgr_of d) = Some (i, sub, f, q) \<longrightarrow>
     f = PowerhandlerFn \<and> pcl.in_order i (d_pwr d) \<and> powers d = handled (d_pwr d))"

definition d_ok :: "'w daemon \<Rightarrow> bool" where
  "d_ok d \<longleftrightarrow> sent d = processed d @ map q_event (m_queue (mgr_of d)) \<and>
     (proc_pc d = Proc_blocked \<and> notifies d = 0 \<longrightarrow> m_queue (mgr_of d) = []) \<and>
     ready (mgr_of d) \<and> explained (processed d) (powers d) (status (mgr_of d)) \<and>
     iarm_power_instance (mgr_of d) \<in> {None, Some PowerhandlerFn} \<and> pwr_ok d"

lemma mgr_of_simps [simp]:
  "mgr_of (with_mgr s d) = s" "mgr_of (d\<lparr>proc_pc := pc\<rparr>) = mgr_of d" "mgr_of (d\<lparr>mon_pc := mpc\<rparr>) = mgr_of d"
  "mgr_of (d\<lparr>ntp_pc := npc\<rparr>) = mgr_of d" "mgr_of (d\<lparr>net_pc := lpc\<rparr>) = mgr_of d" "mgr_of (d\<lparr>notifies := n\<rparr>) = mgr_of d"
  "mgr_of (d\<lparr>sent := evs\<rparr>) = mgr_of d" "mgr_of (d\<lparr>processed := evs\<rparr>) = mgr_of d" "mgr_of (d\<lparr>powers := ps\<rparr>) = mgr_of d"
  by (simp_all add: mgr_of_def with_mgr_def)

lemma with_mgr_simps [simp]:
  "sent (with_mgr s d) = sent d" "processed (with_mgr s d) = processed d" "powers (with_mgr s d) = powers d"
  "proc_pc (with_mgr s d) = proc_pc d" "notifies (with_mgr s d) = notifies d" "ntp_pc (with_mgr s d) = ntp_pc d"
  by (simp_all add: with_mgr_def)

lemma d_ok_pcs [simp]:
  "d_ok (d\<lparr>mon_pc := mpc\<rparr>) = d_ok d" "d_ok (d\<lparr>ntp_pc := npc\<rparr>) = d_ok d" "d_ok (d\<lparr>net_pc := lpc\<rparr>) = d_ok d"
  by (simp_all add: d_ok_def pwr_ok_def)

lemma pwr_ok_frame:
  assumes "pwr_ok d" "ipower_instance s = ipower_instance (mgr_of d)"
  shows "pwr_ok (with_mgr s d)"
  using assms by (auto simp: pwr_ok_def mgr_of_def with_mgr_def pcl.in_order_def split: option.splits)

text \<open>Steps that leave the core alone.\<close>

lemma d_ok_frame:
  assumes "d_ok d" "core s = core (mgr_of d)"
  shows "d_ok (with_mgr s d)"
  using assms pwr_ok_frame [of d s] by (simp add: d_ok_def core_def ready_def)

lemma d_ok_posted:
  assumes "d_ok d" "appends (mgr_of d) s"
  shows "d_ok (posted s d)"
proof -
  obtain ms where ms: "m_queue s = m_queue (mgr_of d) @ ms" "core (s\<lparr>m_queue := m_queue (mgr_of d)\<rparr>) = core (mgr_of d)"
    by (rule appends_core [OF assms(2)])
  have "status (s\<lparr>m_queue := q\<rparr>) = status s" "iarm_power_instance (s\<lparr>m_queue := q\<rparr>) = iarm_power_instance s"
    "ipower_instance (s\<lparr>m_queue := q\<rparr>) = ipower_instance s" for q
    by (simp add: status_def, (rule instance_cong; simp)+)
  with ms(2) have parts: "ready s = ready (mgr_of d)" "status s = status (mgr_of d)"
    "iarm_power_instance s = iarm_power_instance (mgr_of d)" "ipower_instance s = ipower_instance (mgr_of d)"
    by (simp_all add: core_def ready_def)
  have "pwr_ok (posted s d) = pwr_ok (with_mgr s d)"
    by (simp add: posted_def pwr_ok_def Let_def)
  with parts pwr_ok_frame [of d s] assms(1) ms(1) show ?thesis
    by (auto simp: d_ok_def posted_def Let_def)
qed


lemma processMsg_None: "processMsg_locked env s = (Inr None, t) \<Longrightarrow> m_queue s = [] \<and> t = s"
  by (auto simp: processMsg_locked_def bindM_run ret_run mq.deq_None split: option.splits prod.splits sum.splits)

lemma processMsg_Some:
  assumes "processMsg_locked env s = (Inr (Some m), t)" "ready s"
  shows "m_queue s = m # m_queue t \<and> ready t \<and> status t = spec_event (q_event m) (status s) \<and>
    iarm_power_instance t = iarm_power_instance s \<and> ipower_instance t = ipower_instance s"
proof -
  obtain q where q: "m_queue s = m # q" and run: "runStateMachine env (q_event m) (s\<lparr>m_queue := q\<rparr>) = (Inr (), t)"
    using assms(1) by (auto simp: processMsg_locked_def pop_msg_def bindM_run ret_run
        split: list.splits prod.splits sum.splits)
  define u where "u = s\<lparr>m_queue := q\<rparr>"
  have u: "ready u" "status u = status s" "m_queue u = q" "b_subs u = b_subs s" "b_pInstance u = b_pInstance s"
    using assms(2) by (simp_all add: u_def ready_def status_def)
  have st: "mgr_step env u (Handle (q_event m)) t" using run by (simp add: u_def)
  have "keeps (\<lambda>s. (b_subs s, b_pInstance s, m_queue s)) (handler env f)" for f
    by (intro keeps_intros) simp_all
  then have "keeps (\<lambda>s. (b_subs s, b_pInstance s, m_queue s)) (runStateMachine env ev)" for ev
    unfolding runStateMachine_def by (intro keeps_intros | simp)+
  from keepsD [OF this run] u have "m_queue t = q" "b_subs t = b_subs s" "b_pInstance t = b_pInstance s"
    by (simp_all add: u_def)
  with instance_cong [of t s] mgr_step_ready [OF u(1) st] mgr_step_status [OF u(1) st] u(2) q
  show ?thesis by simp
qed

lemma d_ok_process:
  assumes "d_ok d" "processMsg_locked env (mgr_of d) = (Inr (Some m), s)" "proc_pc d = Proc_ready"
  shows "d_ok ((with_mgr s d)\<lparr>processed := processed d @ [q_event m]\<rparr>)"
proof -
  from assms(1) have "ready (mgr_of d)" by (simp add: d_ok_def)
  note m = processMsg_Some [OF assms(2) this]
  have "pwr_ok ((with_mgr s d)\<lparr>processed := evs\<rparr>) = pwr_ok (with_mgr s d)" for evs
    by (simp add: pwr_ok_def)
  moreover have "explained (processed d @ [q_event m]) (powers d) (status s)"
    using explained_step(1) [of "processed d" "powers d" "status (mgr_of d)" "[q_event m]"] m assms(1)
    by (simp add: d_ok_def)
  ultimately show ?thesis
    using m assms(1,3) pwr_ok_frame [of d s] by (simp add: d_ok_def)
qed

lemma d_ok_pwr:
  assumes "d_ok d" "ipower_instance (mgr_of d) = Some (i, sub, f, q)"
    and "pwr_step (registered_fns env) env i (d_pwr d) l c"
  shows "d_ok (d\<lparr>d_pwr := c, powers := powers d @ drop (length (handled (d_pwr d))) (handled c)\<rparr>)"
proof -
  have pok: "f = PowerhandlerFn" "pcl.in_order i (d_pwr d)" "powers d = handled (d_pwr d)"
    using assms(1,2) by (auto simp: d_ok_def pwr_ok_def)
  have "ready (p_bus (d_pwr d))" "ipower_instance (p_bus (d_pwr d)) = Some (i, sub, PowerhandlerFn, q)"
    using assms(1,2) pok(1) by (simp_all add: d_ok_def mgr_of_def)
  from pwr_step_effect [OF assms(3) this(2,1)] obtain evs q' where
    eff: "handled c = handled (d_pwr d) @ evs" "ready (p_bus c)"
      "status (p_bus c) = fold spec_label (concat (map power_label evs)) (status (mgr_of d))"
      "m_queue (p_bus c) = m_queue (mgr_of d)" "ipower_instance (p_bus c) = Some (i, sub, PowerhandlerFn, q')"
    by (auto simp: mgr_of_def)
  define d' where "d' = d\<lparr>d_pwr := c, powers := powers d @ evs\<rparr>"
  have d': "mgr_of d' = p_bus c" "sent d' = sent d" "processed d' = processed d" "powers d' = powers d @ evs"
    "proc_pc d' = proc_pc d" "notifies d' = notifies d" "d_pwr d' = c"
    by (simp_all add: d'_def mgr_of_def)
  have "pwr_ok d'"
    using pcl.in_order_step [OF pok(2) assms(3)] eff(1,5) pok(3) by (simp add: pwr_ok_def d')
  moreover have "explained (processed d) (powers d @ evs) (status (p_bus c))"
    using explained_step(2) assms(1) unfolding eff(3) d_ok_def by blast
  ultimately have "d_ok d'"
    using assms(1) eff iarm_not_ipower [OF eff(5)] by (simp add: d_ok_def d')
  with eff(1) show ?thesis by (simp add: d'_def)
qed

lemma d_ok_iarm:
  assumes "d_ok d" "iarm_power_instance (mgr_of d) \<noteq> None"
    and "powereventHandler (registered_fns env) env (IARM_BUS_PWRMGR_EVENT_MODECHANGED env) ev (mgr_of d) = (Inr (), s)"
  shows "d_ok ((with_mgr s d)\<lparr>powers := powers d @ [ev]\<rparr>)"
proof -
  have inst: "iarm_power_instance (mgr_of d) = Some PowerhandlerFn" "ready (mgr_of d)"
    using assms(1,2) by (auto simp: d_ok_def)
  have "ipower_instance (mgr_of d) = None"
    using iarm_not_ipower [of "mgr_of d"] assms(2) by (cases "ipower_instance (mgr_of d)") auto
  with power_fn_effect [OF inst(2) assms(3) [unfolded powereventHandler_run [OF inst(1)]]]
  have eff: "ready s" "status s = fold spec_label (power_label ev) (status (mgr_of d))" "m_queue s = m_queue (mgr_of d)"
    "iarm_power_instance s = Some PowerhandlerFn" "ipower_instance s = None"
    by (simp_all add: inst(1))
  have "explained (processed d) (powers d @ [ev]) (status s)"
    using explained_step(2) [of "processed d" "powers d" "status (mgr_of d)" "[ev]"] assms(1)
    by (simp add: eff(2) d_ok_def)
  with assms(1) eff show ?thesis by (simp add: d_ok_def pwr_ok_def)
qed

lemma d_ok_step:
  assumes "d_ok d" "daemon_step env d l d'"
  shows "d_ok d'"
  using assms(2)
proof cases
  case (process_wait s)
  from processMsg_None [OF process_wait(4)] assms(1) process_wait(1,2) show ?thesis
    by (simp add: d_ok_def pwr_ok_def with_mgr_def mgr_of_def)
next
  case (notify_proc n)
  with assms(1) show ?thesis by (simp add: d_ok_def pwr_ok_def)
next
  case proc_spurious
  with assms(1) show ?thesis by (simp add: d_ok_def pwr_ok_def)
next
  case (query args r s)
  have "mgr_exists (mgr_of d)" using assms(1) by (simp add: d_ok_def ready_def)
  from d_ok_frame [OF assms(1) query_core [OF this query(3)]] query(2) show ?thesis by simp
next
  case (net l pc s)
  from d_ok_frame [OF assms(1)] net_step_core [OF net(4)] net(2) show ?thesis by simp
next
  case (pwr i sub f q l c)
  from d_ok_pwr [OF assms(1) pwr(3,4)] pwr(2) show ?thesis by simp
next
  case (iarm_power ev s)
  from d_ok_iarm [OF assms(1) iarm_power(3,4)] iarm_power(2) show ?thesis by simp
next
  case (process_msg m s)
  from d_ok_process [OF assms(1) process_msg(4,3)] process_msg(2) show ?thesis by simp
next
  case (ntp_poll r s)
  from d_ok_frame [OF assms(1) keeps_core [OF keeps_fields(1) ntp_poll(5)]] ntp_poll(2) show ?thesis by simp
next
  case (watch ok s stack)
  from d_ok_frame [OF assms(1) keeps_core [OF keeps_fields(2) watch(4)]] watch(2) show ?thesis by simp
qed (auto dest!: senders_append intro!: d_ok_posted [OF assms(1)] simp: assms(1))

lemma d_ok_init: "daemon_init env d \<Longrightarrow> d_ok d"
proof -
  assume d: "daemon_init env d"
  then obtain s where s: "fresh s" "boot env s = (Inr (), mgr_of d)" by (auto simp: daemon_init_def)
  note boot = boot_wired [OF s(2,1)]
  from booted_status [OF boot(1)] have ready: "ready (mgr_of d)"
    and status: "explained [] [] (status (mgr_of d))" by (auto simp: explained_def)
  have "pwr_ok d"
    using boot(2) d by (auto simp: pwr_ok_def wired_def daemon_init_def pcl.in_order_def mgr_of_def split: if_splits)
  with d ready status boot(2,3) show ?thesis
    by (auto simp: d_ok_def daemon_init_def wired_def)
qed

interpretation daemon: invariant_system "daemon_init env" "daemon_step env" d_ok
  by unfold_locales (auto intro: d_ok_init d_ok_step)


section \<open>Progress\<close>

lemma mgr_wf_queue [simp]: "mgr_wf n (s\<lparr>m_queue := q\<rparr>) = mgr_wf n s"
  by (simp add: mgr_wf_def w_ok_def)

text \<open>With a message in the queue and a manager in order, the processing thread can handle it.\<close>

lemma process_one:
  fixes s :: "'w mgr_scheme"
  assumes "sane_clock env" "sane_rpc env" "ready s" "mgr_wf (Suc n) s" "m_queue s = m # q"
  shows "\<exists>t. processMsg_locked env s = (Inr (Some m), t) \<and> mgr_wf n t"
proof -
  have "ready (s\<lparr>m_queue := q\<rparr>)" "mgr_wf (Suc n) (s\<lparr>m_queue := q\<rparr>)"
    using assms(3,4) by (simp_all add: ready_def)
  from mgr_step_total [OF assms(1,2) this, of "Handle (q_event m)"] obtain t where
    "runStateMachine env (q_event m) (s\<lparr>m_queue := q\<rparr>) = (Inr (), t)" "mgr_wf n t" by auto
  with assms(5) show ?thesis
    by (auto simp: processMsg_locked_def pop_msg_def bindM_run ret_run)
qed

lemma drain_ready:
  fixes d :: "'w daemon"
  assumes "sane_clock env" "sane_rpc env" "d_ok d" "proc_pc d = Proc_ready"
    and "mgr_wf (length (m_queue (mgr_of d))) (mgr_of d)"
  shows "\<exists>d'. run (daemon_step env) d (replicate (length (m_queue (mgr_of d))) Process_msg) d' \<and>
    m_queue (mgr_of d') = [] \<and> sent d' = sent d \<and> powers d' = powers d"
  using assms(3-)
proof (induction "m_queue (mgr_of d)" arbitrary: d)
  case Nil
  from Nil(1) [symmetric] show ?case by (auto intro: run_nil)
next
  case (Cons m q)
  have "ready (mgr_of d)" using Cons.prems(1) by (simp add: d_ok_def)
  from process_one [OF assms(1,2) this _ Cons.hyps(2) [symmetric]] Cons.prems(3) Cons.hyps(2) obtain t where
    t: "processMsg_locked env (mgr_of d) = (Inr (Some m), t)" "mgr_wf (length q) t"
    by (metis length_Cons)
  define e where "e = (with_mgr t d)\<lparr>processed := processed d @ [q_event m]\<rparr>"
  have step: "daemon_step env d Process_msg e"
    unfolding e_def by (rule process_msg [OF Cons.prems(2) t(1)])
  have q: "m_queue t = q"
    using processMsg_Some [OF t(1) \<open>ready (mgr_of d)\<close>] Cons.hyps(2) by (simp add: eq_commute)
  then have e: "mgr_of e = t" "proc_pc e = Proc_ready" "sent e = sent d" "powers e = powers d" "q = m_queue (mgr_of e)"
    using Cons.prems(2) by (simp_all add: e_def)
  have "mgr_wf (length (m_queue (mgr_of e))) (mgr_of e)" using t(2) q e(1) by simp
  from Cons.hyps(1) [OF e(5) d_ok_step [OF Cons.prems(1) step] e(2) this] obtain d' where
    d': "run (daemon_step env) e (replicate (length q) Process_msg) d'" "m_queue (mgr_of d') = []"
    "sent d' = sent d" "powers d' = powers d" unfolding e(3,4) e(5) [symmetric] by blast
  have "run (daemon_step env) d (replicate (length (m_queue (mgr_of d))) Process_msg) d'"
    unfolding Cons.hyps(2) [symmetric] list.size replicate_app_Cons_same add_Suc_right add_0_right replicate_Suc
    by (rule run_cons [OF step d'(1)])
  with d'(2-4) show ?case by blast
qed

lemma drains:
  fixes d :: "'w daemon"
  assumes "sane_clock env" "sane_rpc env" "d_ok d" "mgr_wf (length (m_queue (mgr_of d))) (mgr_of d)"
  shows "\<exists>ls d'. set ls \<subseteq> {Notify_proc, Process_msg} \<and> run (daemon_step env) d ls d' \<and>
    processed d' = sent d \<and> sent d' = sent d \<and> powers d' = powers d"
proof -
  have fin: ?thesis if "run (daemon_step env) d ls d'" "set ls \<subseteq> {Notify_proc, Process_msg}"
    "m_queue (mgr_of d') = []" "sent d' = sent d" "powers d' = powers d" for ls d'
  proof -
    have "processed d' = sent d"
      using daemon.run_inv [OF that(1) assms(3)] that(3,4) by (simp add: d_ok_def)
    with that show ?thesis by blast
  qed
  consider "proc_pc d = Proc_ready" | "m_queue (mgr_of d) = []"
    | n where "proc_pc d = Proc_blocked" "notifies d = Suc n"
    using assms(3) by (cases "proc_pc d"; cases "notifies d") (auto simp: d_ok_def)
  then show ?thesis
  proof cases
    case 1
    from drain_ready [OF assms(1-3) 1 assms(4)] obtain d' where d':
      "run (daemon_step env) d (replicate (length (m_queue (mgr_of d))) Process_msg) d'"
      "m_queue (mgr_of d') = []" "sent d' = sent d" "powers d' = powers d" by blast
    show ?thesis by (rule fin [OF d'(1)]) (use d' in auto)
  next
    case 2
    then show ?thesis by (intro fin [OF run_nil]) auto
  next
    case 3
    define e where "e = d\<lparr>notifies := n, proc_pc := Proc_ready\<rparr>"
    have step: "daemon_step env d Notify_proc e" unfolding e_def by (rule notify_proc [OF 3(2)])
    have "mgr_of e = mgr_of d" "proc_pc e = Proc_ready" "sent e = sent d" "powers e = powers d" by (simp_all add: e_def)
    with drain_ready [OF assms(1,2) d_ok_step [OF assms(3) step]] assms(4) obtain d' where
      d': "run (daemon_step env) e (replicate (length (m_queue (mgr_of d))) Process_msg) d'"
      "m_queue (mgr_of d') = []" "sent d' = sent d" "powers d' = powers d" by auto
    show ?thesis by (rule fin [OF run_cons [OF step d'(1)]]) (use d' in auto)
  qed
qed

section \<open>Quality and order of the sources\<close>

lemma explained_quality: "explained evs ps st \<Longrightarrow> quality_ok st"
proof -
  have "quality_ok (fold spec_label ls a)" if "quality_ok a" for ls a
    using that by (induction ls arbitrary: a) (simp_all add: spec_label_quality_ok)
  moreover have "quality_ok (eSYSMGR_STATE_NTP_WAIT, q, src)"
    if "q \<in> {eTIMEQUALILTY_POOR, eTIMEQUALILTY_UNKNOWN}" for q src
    using that by (auto simp: quality_ok_def)
  ultimately show "explained evs ps st \<Longrightarrow> quality_ok st"
    unfolding explained_def by blast
qed

text \<open>Without a wake-up the power changes do not matter.\<close>

definition is_handle :: "mgr_label \<Rightarrow> bool" where
  "is_handle l = (case l of Handle _ \<Rightarrow> True | Power _ \<Rightarrow> False)"

lemma spec_power_on [simp]: "spec_power ''DEEP_SLEEP_ON'' a = a"
  by (simp add: spec_power_def split: prod.split)

lemma fold_handles:
  assumes "\<forall>l \<in> set ls. is_handle l \<or> l = Power ''DEEP_SLEEP_ON''"
  shows "fold spec_label ls a = fold spec_label (filter is_handle ls) a"
  using assms by (induction ls arbitrary: a) (auto simp: is_handle_def)

lemma explained_no_wake:
  assumes "explained evs ps st"
    and "\<forall>ev \<in> set ps. power_message (currentState ev) (newState ev) \<noteq> Some ''DEEP_SLEEP_OFF''"
  shows "\<exists>q \<in> {eTIMEQUALILTY_POOR, eTIMEQUALILTY_UNKNOWN}.
    st = fold spec_label (map Handle evs) (eSYSMGR_STATE_NTP_WAIT, q, ''Last Known'')"
proof -
  from assms(1) obtain ls q where ls: "ls \<in> shuffles (map Handle evs) (concat (map power_label ps))"
    and q: "q \<in> {eTIMEQUALILTY_POOR, eTIMEQUALILTY_UNKNOWN}"
      "st = fold spec_label ls (eSYSMGR_STATE_NTP_WAIT, q, ''Last Known'')"
    by (auto simp: explained_def)
  have on: "l = Power ''DEEP_SLEEP_ON''" if "l \<in> set (concat (map power_label ps))" for l
    using that assms(2) by (auto simp: power_label_def power_message_def split: if_splits)
  have "set ls = set (map Handle evs) \<union> set (concat (map power_label ps))" by (rule set_shuffles [OF ls])
  with on have "\<forall>l \<in> set ls. is_handle l \<or> l = Power ''DEEP_SLEEP_ON''" by (auto simp: is_handle_def)
  from fold_handles [OF this] q(2) have "st = fold spec_label (filter is_handle ls) (eSYSMGR_STATE_NTP_WAIT, q, ''Last Known'')"
    by simp
  moreover have "filter is_handle (concat (map power_label ps)) = []" "filter is_handle (map Handle evs) = map Handle evs"
    using on by (fastforce simp: filter_empty_conv is_handle_def)+
  with filter_shuffles [of is_handle "map Handle evs" "concat (map power_label ps)"] ls
  have "filter is_handle ls = map Handle evs" by auto
  ultimately show ?thesis using q(1) by auto
qed


section \<open>An example run\<close>

definition start_daemon :: "'w mgr_scheme \<Rightarrow> 'w daemon" where
  "start_daemon s = \<lparr>d_pwr = \<lparr>p_bus = s, evt_pc = Testing, deinit_pc = Not_called, notifying = 0,
       received = [], handled = [], dropped = False\<rparr>,
     net_pc = net_pcs0, proc_pc = Proc_ready, mon_pc = Mon_scanning (m_pathEventMap s), ntp_pc = Ntp_polling,
     notifies = 0, sent = [], processed = [], powers = []\<rparr>"

lemma start_daemon_init: "fresh s \<Longrightarrow> boot env s = (Inr (), t) \<Longrightarrow> daemon_init env (start_daemon t)"
  by (auto simp: daemon_init_def start_daemon_def mgr_of_def)

lemma scan_run:
  fixes d :: "'w daemon"
  assumes "files_work env" "mon_pc d = Mon_scanning ps"
  shows "\<exists>d' h. run (daemon_step env) d (replicate (length ps) Scan) d' \<and> powers d' = powers d \<and> ntp_pc d' = ntp_pc d \<and>
    mon_pc d' = Mon_scanning [] \<and> mgr_of d' = (mgr_of d)\<lparr>w_hist := h, m_queue := m_queue (mgr_of d) @ existing (mgr_of d) ps\<rparr> \<and>
    sent d' = sent d @ map q_event (existing (mgr_of d) ps)"
  using assms(2)
proof (induction ps arbitrary: d)
  case Nil
  then show ?case
    by (intro exI [of _ d] exI [of _ "w_hist (mgr_of d)"]) (simp add: run_nil existing_def)
next
  case (Cons p ps)
  from scan_entry_run [OF assms(1), of p "mgr_of d"] obtain h where
    h: "scan_entry env p (mgr_of d) =
      (Inr (), (mgr_of d)\<lparr>w_hist := h, m_queue := m_queue (mgr_of d) @ existing (mgr_of d) [p]\<rparr>)" by blast
  define s where "s = (mgr_of d)\<lparr>w_hist := h, m_queue := m_queue (mgr_of d) @ existing (mgr_of d) [p]\<rparr>"
  define e where "e = (posted s d)\<lparr>mon_pc := Mon_scanning ps\<rparr>"
  have step: "daemon_step env d Scan e"
    unfolding e_def by (rule scan [OF Cons.prems h [folded s_def]])
  have e: "mon_pc e = Mon_scanning ps" "mgr_of e = s" "powers e = powers d" "ntp_pc e = ntp_pc d"
    "sent e = sent d @ map q_event (existing (mgr_of d) [p])"
    by (simp_all add: e_def posted_def Let_def s_def)
  have ex: "existing s ps = existing (mgr_of d) ps" by (rule existing_fs) (simp add: s_def)
  from Cons.IH [OF e(1)] obtain d' h' where d': "run (daemon_step env) e (replicate (length ps) Scan) d'"
    "powers d' = powers d" "ntp_pc d' = ntp_pc d" "mon_pc d' = Mon_scanning []"
    "mgr_of d' = s\<lparr>w_hist := h', m_queue := m_queue s @ existing (mgr_of d) ps\<rparr>"
    "sent d' = sent e @ map q_event (existing (mgr_of d) ps)"
    unfolding e(2,3,4) ex by blast
  have "run (daemon_step env) d (replicate (length (p # ps)) Scan) d'"
    unfolding list.size add_Suc_right add_0_right replicate_Suc by (rule run_cons [OF step d'(1)])
  with d'(2-6) e(5) existing_Cons [of "mgr_of d" p ps] show ?case
    by (intro exI [of _ d'] exI [of _ h']) (simp add: s_def)
qed

text \<open>One event read by the monitor.\<close>

lemma read_run:
  fixes d :: "'w daemon"
  assumes "mon_pc d = Mon_reading buf" "named e"
  shows "\<exists>d'. daemon_step env d (Read (Some (ev_bytes e))) d' \<and> mon_pc d' = Mon_reading (fill (ev_bytes e) buf) \<and>
    powers d' = powers d \<and> sent d' = sent d @ map q_event (message_of (m_pathEventMap (mgr_of d)) e) \<and>
    mgr_of d' = (mgr_of d)\<lparr>m_queue := m_queue (mgr_of d) @ message_of (m_pathEventMap (mgr_of d)) e\<rparr>"
proof -
  define s where "s = (mgr_of d)\<lparr>m_queue := m_queue (mgr_of d) @ message_of (m_pathEventMap (mgr_of d)) e\<rparr>"
  have "dispatch (fill (ev_bytes e) buf) (mgr_of d) = (Inr (), s)"
    using dispatch_named [OF assms(2), of "[]" buf] by (simp add: s_def)
  from read_event [OF assms(1) this] show ?thesis
    by (intro exI conjI) (assumption, simp_all add: posted_def Let_def s_def)
qed

text \<open>The states after the files have been looked for, and after the watch has been added.\<close>

lemma scanned_reach:
  fixes s t :: "'w mgr_scheme"
  assumes "files_work env" "fresh s" "boot env s = (Inr (), t)"
  shows "\<exists>d h. reach (daemon_init env) (daemon_step env) d \<and> mon_pc d = Mon_scanning [] \<and> ntp_pc d = Ntp_polling \<and>
    powers d = [] \<and> sent d = map q_event (existing t (path_events [])) \<and>
    mgr_of d = t\<lparr>w_hist := h, m_queue := existing t (path_events [])\<rparr>"
proof -
  have t: "m_pathEventMap t = path_events []" "m_queue t = []" using boot_wired [OF assms(3,2)] by simp_all
  have d0: "mon_pc (start_daemon t) = Mon_scanning (path_events [])" "mgr_of (start_daemon t) = t"
    "powers (start_daemon t) = []" "sent (start_daemon t) = []" "ntp_pc (start_daemon t) = Ntp_polling"
    by (simp_all add: start_daemon_def mgr_of_def t)
  have init: "reach (daemon_init env) (daemon_step env) (start_daemon t)"
    by (rule reach_init [of "daemon_init env", OF start_daemon_init [OF assms(2,3)]])
  from scan_run [OF assms(1) d0(1)] obtain d h where
    d: "run (daemon_step env) (start_daemon t) (replicate (length (path_events [])) Scan) d" "powers d = []"
      "ntp_pc d = Ntp_polling" "mon_pc d = Mon_scanning []" "sent d = map q_event (existing t (path_events []))"
      "mgr_of d = t\<lparr>w_hist := h, m_queue := existing t (path_events [])\<rparr>"
    unfolding d0(2-) t(2) by auto
  from run_reach [OF d(1) init] d(2-) show ?thesis by blast
qed

definition watch_works :: "env \<Rightarrow> bool" where
  "watch_works env \<longleftrightarrow> (\<forall>h. ret_code env h Inotify_init \<noteq> -1 \<and> ret_code env h (Inotify_add_watch m_directory) \<noteq> -1)"

lemma watch_run:
  fixes d :: "'w daemon"
  assumes "watch_works env" "mon_pc d = Mon_scanning []"
  shows "\<exists>d' h. daemon_step env d Watch d' \<and> mon_pc d' = Mon_reading stack \<and> ntp_pc d' = ntp_pc d \<and>
    powers d' = powers d \<and> sent d' = sent d \<and> mgr_of d' = (mgr_of d)\<lparr>w_hist := h\<rparr>"
proof -
  obtain h where "watch env (mgr_of d) = (Inr True, (mgr_of d)\<lparr>w_hist := h\<rparr>)"
    using assms(1) by (auto simp: watch_def prog_simps watch_works_def)
  from watch [OF assms(2) this, of stack] show ?thesis
    by (intro exI conjI) (assumption, simp_all add: with_mgr_def mgr_of_def)
qed

lemma example_watch: "watch_works example_env"
  by (simp add: watch_works_def example_env_def drm_env_def calm_env_def)

lemma example_reach:
  "\<exists>d :: unit daemon. reach (daemon_init example_env) (daemon_step example_env) d \<and> powers d = [] \<and>
     processed d = sent d \<and> eSYSMGR_EVENT_NTP_AVAILABLE \<in> set (processed d) \<and>
     eSYSMGR_EVENT_SECURE_TIME_AVAILABLE \<in> set (processed d)"
proof -
  from boot_run [OF example_env_sane(1) example_boot_ok, of 100] obtain t where
    t: "boot example_env example_mgr = (Inr (), t)" "mgr_wf 100 t" by auto
  have map: "m_pathEventMap t = path_events []" using boot_wired [OF t(1) example_fresh] by simp
  from scanned_reach [OF example_env_sane(3) example_fresh t(1)] obtain d1 h where
    d1: "reach (daemon_init example_env) (daemon_step example_env) d1" "mon_pc d1 = Mon_scanning []" "powers d1 = []"
      "mgr_of d1 = t\<lparr>w_hist := h, m_queue := existing t (path_events [])\<rparr>" by blast
  from watch_run [OF example_watch d1(2), of "[]"] obtain d2 h2 where
    d2: "daemon_step example_env d1 Watch d2" "mon_pc d2 = Mon_reading []" "powers d2 = []"
      "mgr_of d2 = t\<lparr>m_queue := existing t (path_events []), w_hist := h2\<rparr>"
    unfolding d1(3,4) by auto
  from d2(4) map have m2: "m_pathEventMap (mgr_of d2) = path_events []" by simp
  from read_run [OF d2(2) attrib_named(1), of example_env] obtain d3 buf where
    d3: "daemon_step example_env d2 (Read (Some (ev_bytes (attrib_of ''ntp'')))) d3" "mon_pc d3 = Mon_reading buf"
      "powers d3 = []" "sent d3 = sent d2 @ [eSYSMGR_EVENT_NTP_AVAILABLE]" "m_pathEventMap (mgr_of d3) = path_events []"
      "mgr_of d3 = (mgr_of d2)\<lparr>m_queue := m_queue (mgr_of d2) @ message_of (path_events []) (attrib_of ''ntp'')\<rparr>"
    unfolding d2(3) m2 attrib_messages by (auto simp: m2)
  from read_run [OF d3(2) attrib_named(2), of example_env] obtain d4 where
    d4: "daemon_step example_env d3 (Read (Some (ev_bytes (attrib_of ''drm'')))) d4" "powers d4 = []"
      "sent d4 = sent d3 @ [eSYSMGR_EVENT_SECURE_TIME_AVAILABLE]"
      "mgr_of d4 = (mgr_of d3)\<lparr>m_queue := m_queue (mgr_of d3) @ message_of (path_events []) (attrib_of ''drm'')\<rparr>"
    unfolding d3(3,5) attrib_messages by auto
  have r4: "reach (daemon_init example_env) (daemon_step example_env) d4"
    using d1(1) d2(1) d3(1) d4(1) by (blast intro: reach_step)
  have "length (existing t (path_events [])) \<le> 4" by (simp add: existing_def path_events_table)
  then have "length (m_queue (mgr_of d4)) \<le> 100" by (simp add: d4(4) d3(6) d2(4) attrib_messages)
  moreover have "mgr_wf 100 (mgr_of d4)" using t(2) by (simp add: d4(4) d3(6) d2(4))
  ultimately have "mgr_wf (length (m_queue (mgr_of d4))) (mgr_of d4)" using mgr_wf_mono by blast
  from drains [OF example_env_sane(1,2) daemon.reach_inv [OF r4] this] obtain ls d5 where
    d5: "run (daemon_step example_env) d4 ls d5" "processed d5 = sent d4" "powers d5 = []" "sent d5 = sent d4"
    using d4(2) by auto
  from run_reach [OF d5(1) r4] d5 d4(3) d3(4) show ?thesis by auto
qed


text \<open>The example after one round of the timer: a message waits to be handled.\<close>

lemma timer_reach:
  "\<exists>d :: unit daemon. reach (daemon_init example_env) (daemon_step example_env) d \<and>
    sent d = [eSYSMGR_EVENT_TIMER_EXPIRY] \<and> processed d = [] \<and> proc_pc d = Proc_ready \<and>
    length (m_queue (mgr_of d)) = 1 \<and> mgr_wf (length (m_queue (mgr_of d))) (mgr_of d)"
proof -
  from boot_run [OF example_env_sane(1) example_boot_ok, of 1] obtain t where
    t: "boot example_env example_mgr = (Inr (), t)" "mgr_wf 1 t" by auto
  have q: "m_queue t = []" using boot_wired [OF t(1) example_fresh] by simp
  from timer_iteration_run [of example_env t] q obtain h where
    s: "timer_iteration example_env (mgr_of (start_daemon t)) =
      (Inr (), t\<lparr>w_hist := h, m_queue := [\<lparr>q_event = eSYSMGR_EVENT_TIMER_EXPIRY, q_args = None\<rparr>]\<rparr>)"
    by (auto simp: start_daemon_def mgr_of_def)
  define d where "d = posted (t\<lparr>w_hist := h, m_queue := [\<lparr>q_event = eSYSMGR_EVENT_TIMER_EXPIRY, q_args = None\<rparr>]\<rparr>) (start_daemon t)"
  have r: "reach (daemon_init example_env) (daemon_step example_env) d"
    using reach_init [of "daemon_init example_env", OF start_daemon_init [OF example_fresh t(1)]] timer [OF s]
    unfolding d_def by (rule reach_step)
  have d: "sent d = [eSYSMGR_EVENT_TIMER_EXPIRY]" "processed d = []" "proc_pc d = Proc_ready"
    using q by (simp_all add: d_def posted_def Let_def start_daemon_def mgr_of_def with_mgr_def)
  have "length (m_queue (mgr_of d)) = 1" "mgr_wf (length (m_queue (mgr_of d))) (mgr_of d)"
    using t(2) by (simp_all add: d_def posted_def Let_def)
  with r d show ?thesis by blast
qed

section \<open>The main thread\<close>

text \<open>
  Whether a thread of \<open>run\<close> has returned, by the name of its function. \<open>processMsg\<close> and \<open>runTimer\<close> are
  loops without an exit; the others return at the program point named here.
\<close>

definition thread_returned :: "'w daemon \<Rightarrow> string \<Rightarrow> bool" where
  "thread_returned d name =
     (if name = ''pathThr'' then mon_pc d = Mon_returned
      else if name = ''nwEventProcessThr'' then loop_pc (net_pc d) = Exited
      else if name = ''nwEventSubscribeThr''
        then sub_pc (net_pc d) = Sub_returned
      else if name = ''ntpSyncMonitorThr'' then ntp_pc d = Ntp_returned
      else False)"

definition EXIT_SUCCESS :: int where
  "EXIT_SUCCESS = 0"

text \<open>What \<open>main\<close> does after \<open>run\<close>.\<close>

definition main_after_joins :: "env \<Rightarrow> ('w, int) mgr_io" where
  "main_after_joins env =
     bindM (whenM (T2_EVENT_ENABLED env) (bindM (call env T2_uninit) (\<lambda>_. ret ()))) (\<lambda>_.
     ret EXIT_SUCCESS)"

text \<open>
  The joins of \<open>run\<close>, in order: the thread \<open>main\<close> is blocked on, or, when all have returned, what is
  left of \<open>main\<close> and its status.
\<close>

definition main_join :: "env \<Rightarrow> 'w daemon \<Rightarrow> string + (fault + int) \<times> 'w mgr_scheme" where
  "main_join env d = (case filter (\<lambda>name. \<not> thread_returned d name) (mgr_threads (mgr_of d)) of
       name # _ \<Rightarrow> Inl name
     | [] \<Rightarrow> Inr (main_after_joins env (mgr_of d)))"

text \<open>
  \<open>main\<close> waits for the processing thread for ever: what comes after the joins, and the release of
  telemetry in it, is never reached, and the daemon ends only by a signal or a fault.
\<close>

lemma main_never_returns: "main_join env d = Inl ''processThr''"
  by (simp add: main_join_def mgr_threads_def thread_returned_def)

lemma main_after_joins_run:
  "main_after_joins env s = (Inr EXIT_SUCCESS, if T2_EVENT_ENABLED env
     then s\<lparr>w_hist := w_hist s @ [(T2_uninit, ret_code env (w_hist s) T2_uninit)]\<rparr> else s)"
  by (simp add: main_after_joins_def prog_simps)

section \<open>Properties\<close>

text \<open>
  C2: Every message is handled once and in order, and none is left behind. In every reachable state
  of all the threads, the events that were sent are the ones that were handled followed by the ones
  in the queue; and when the processing thread is blocked and no sender has still to notify it, all
  of them have been handled.
\<close>

theorem daemon_messages_in_order:
  fixes d :: "'w daemon"
  assumes "reach (daemon_init env) (daemon_step env) d"
  shows "sent d = processed d @ map q_event (m_queue (mgr_of d)) \<and>
    (proc_pc d = Proc_blocked \<and> notifies d = 0 \<longrightarrow> processed d = sent d)"
  using daemon.reach_inv [OF assms] by (auto simp: d_ok_def)

theorem daemon_messages_in_order_witness:
  "\<exists>d :: unit daemon. reach (daemon_init example_env) (daemon_step example_env) d \<and> processed d \<noteq> [] \<and>
     sent d = processed d @ map q_event (m_queue (mgr_of d)) \<and>
     (proc_pc d = Proc_blocked \<and> notifies d = 0 \<longrightarrow> processed d = sent d)"
proof -
  from example_reach obtain d :: "unit daemon" where
    d: "reach (daemon_init example_env) (daemon_step example_env) d" "processed d \<noteq> []" by fastforce
  from daemon_messages_in_order [OF d(1)] d show ?thesis by blast
qed

text \<open>
  C1: The whole daemon refines the abstract state machine. In every reachable state of all the
  threads, whatever the interleaving, the status of the manager is what the abstract machine computes
  from some merge of the events handled so far and the power changes handled so far, each kept in
  its order, and quality and state agree.
\<close>

theorem daemon_refines:
  fixes d :: "'w daemon"
  assumes "reach (daemon_init env) (daemon_step env) d"
  shows "(\<exists>ls \<in> shuffles (map Handle (processed d)) (concat (map power_label (powers d))).
     \<exists>q \<in> {eTIMEQUALILTY_POOR, eTIMEQUALILTY_UNKNOWN}.
       status (mgr_of d) = fold spec_label ls (eSYSMGR_STATE_NTP_WAIT, q, ''Last Known'')) \<and>
    quality_ok (status (mgr_of d))"
proof -
  have ok: "explained (processed d) (powers d) (status (mgr_of d))"
    using daemon.reach_inv [OF assms] by (simp add: d_ok_def)
  from explained_quality [OF ok] ok [unfolded explained_def] show ?thesis by blast
qed

theorem daemon_refines_witness:
  "\<exists>d :: unit daemon. reach (daemon_init example_env) (daemon_step example_env) d \<and>
    (\<exists>ls \<in> shuffles (map Handle (processed d)) (concat (map power_label (powers d))).
     \<exists>q \<in> {eTIMEQUALILTY_POOR, eTIMEQUALILTY_UNKNOWN}.
       status (mgr_of d) = fold spec_label ls (eSYSMGR_STATE_NTP_WAIT, q, ''Last Known'')) \<and>
    quality_ok (status (mgr_of d))"
proof -
  from example_reach obtain d :: "unit daemon" where
    d: "reach (daemon_init example_env) (daemon_step example_env) d" by blast
  from daemon_refines [OF d] d show ?thesis by blast
qed

text \<open>
  C8: Secure time is reached under every schedule. In every reachable state in which both an NTP and
  a secure-time event have been handled and the device has not woken from deep sleep, the manager is
  in the running state and announces secure time.
\<close>

theorem daemon_secure:
  fixes d :: "'w daemon"
  assumes "reach (daemon_init env) (daemon_step env) d"
    and "eSYSMGR_EVENT_NTP_AVAILABLE \<in> set (processed d)" "eSYSMGR_EVENT_SECURE_TIME_AVAILABLE \<in> set (processed d)"
    and "\<forall>ev \<in> set (powers d). power_message (currentState ev) (newState ev) \<noteq> Some ''DEEP_SLEEP_OFF''"
  shows "m_state (mgr_of d) = eSYSMGR_STATE_RUNNING \<and> m_timequality (mgr_of d) = eTIMEQUALILTY_SECURE"
proof -
  have ok: "explained (processed d) (powers d) (status (mgr_of d))"
    using daemon.reach_inv [OF assms(1)] by (simp add: d_ok_def)
  from explained_no_wake [OF ok assms(4)] obtain q where
    "status (mgr_of d) = fold spec_label (map Handle (processed d)) (eSYSMGR_STATE_NTP_WAIT, q, ''Last Known'')" by blast
  with knows_events [of "(eSYSMGR_STATE_NTP_WAIT, q, ''Last Known'')" "processed d"] assms(2,3)
  have "knows (fst (status (mgr_of d))) = {eSYSMGR_EVENT_NTP_AVAILABLE, eSYSMGR_EVENT_SECURE_TIME_AVAILABLE}" by auto
  then have "m_state (mgr_of d) = eSYSMGR_STATE_RUNNING"
    by (cases "fst (status (mgr_of d))") (auto simp: status_def)
  with explained_quality [OF ok] show ?thesis by (auto simp: quality_ok_def status_def)
qed

theorem daemon_secure_witness:
  "\<exists>d :: unit daemon. reach (daemon_init example_env) (daemon_step example_env) d \<and>
    m_state (mgr_of d) = eSYSMGR_STATE_RUNNING \<and> m_timequality (mgr_of d) = eTIMEQUALILTY_SECURE"
proof -
  from example_reach obtain d :: "unit daemon" where
    d: "reach (daemon_init example_env) (daemon_step example_env) d" "powers d = []"
      "eSYSMGR_EVENT_NTP_AVAILABLE \<in> set (processed d)" "eSYSMGR_EVENT_SECURE_TIME_AVAILABLE \<in> set (processed d)" by blast
  from daemon_secure [OF d(1,3,4)] d show ?thesis by auto
qed

text \<open>
  The daemon never gets stuck on its messages. With a sane clock and services that reply as
  documented, from every reachable state whose manager is in order, notifications and passes of the
  processing thread alone lead to a state in which every message sent so far has been handled.
\<close>

theorem daemon_drains:
  fixes d :: "'w daemon"
  assumes "reach (daemon_init env) (daemon_step env) d" "sane_clock env" "sane_rpc env"
    and "mgr_wf (length (m_queue (mgr_of d))) (mgr_of d)"
  shows "\<exists>ls d'. set ls \<subseteq> {Notify_proc, Process_msg} \<and> run (daemon_step env) d ls d' \<and>
    processed d' = sent d \<and> sent d' = sent d"
  using drains [OF assms(2,3) daemon.reach_inv [OF assms(1)] assms(4)] by blast

theorem daemon_drains_witness:
  "\<exists>(d :: unit daemon) ls d'. reach (daemon_init example_env) (daemon_step example_env) d \<and>
    sent d = [eSYSMGR_EVENT_TIMER_EXPIRY] \<and> processed d = [] \<and>
    set ls \<subseteq> {Notify_proc, Process_msg} \<and> run (daemon_step example_env) d ls d' \<and>
    processed d' = sent d \<and> sent d' = sent d"
proof -
  from timer_reach obtain d :: "unit daemon" where
    d: "reach (daemon_init example_env) (daemon_step example_env) d" "sent d = [eSYSMGR_EVENT_TIMER_EXPIRY]"
      "processed d = []" "mgr_wf (length (m_queue (mgr_of d))) (mgr_of d)" by blast
  from daemon_drains [OF d(1) example_env_sane(1,2) d(4)] d show ?thesis by blast
qed

text \<open>
  C17: Power changes are handled once and in order. In a build with the power controller, in every
  reachable state of all the threads before the shutdown, the changes the callback received are the
  ones handled, followed by the one being handled and the ones in the queue, and the manager has
  acted on exactly the ones handled.
\<close>

theorem daemon_power_in_order:
  fixes d :: "'w daemon"
  assumes "reach (daemon_init env) (daemon_step env) d" "ipower_instance (mgr_of d) = Some (i, sub, f, q)"
    and "\<not> dropped (d_pwr d)"
  shows "received (d_pwr d) = handled (d_pwr d) @ (case evt_pc (d_pwr d) of Handling ev \<Rightarrow> [ev] | _ \<Rightarrow> []) @ q \<and>
    powers d = handled (d_pwr d) \<and> f = PowerhandlerFn"
proof -
  have "pwr_ok d" using daemon.reach_inv [OF assms(1)] by (simp add: d_ok_def)
  with assms(2,3) show ?thesis by (auto simp: pwr_ok_def pcl.in_order_def mgr_of_def)
qed


definition power_env :: env where
  "power_env = example_env\<lparr>PWRMGRPLUGIN_ENABLED := True\<rparr>"

lemma power_env_ok: "sane_clock power_env" "boot_ok power_env example_mgr"
proof -
  show "sane_clock power_env"
    using example_env_sane(1) by (simp add: power_env_def sane_clock_def)
  have "createTimeSync power_env = createTimeSync example_env" "sync_types power_env = sync_types example_env"
    "src_types power_env = src_types example_env"
    by (simp_all add: power_env_def createTimeSync_def sync_types_def src_types_def fun_eq_iff)
  with example_boot_ok show "boot_ok power_env example_mgr"
    by (simp add: boot_ok_def config_ok_def bus_works_def) (simp add: power_env_def)
qed

theorem daemon_power_in_order_witness:
  "\<exists>(d :: unit daemon) q. reach (daemon_init power_env) (daemon_step power_env) d \<and>
    q = [\<lparr>currentState = POWER_STATE_ON, newState = POWER_STATE_OFF\<rparr>] \<and>
    received (d_pwr d) = handled (d_pwr d) @ (case evt_pc (d_pwr d) of Handling ev \<Rightarrow> [ev] | _ \<Rightarrow> []) @ q \<and>
    powers d = handled (d_pwr d)"
proof -
  let ?ev = "\<lparr>currentState = POWER_STATE_ON, newState = POWER_STATE_OFF\<rparr>"
  from boot_run [OF power_env_ok, of 0] obtain t where t: "boot power_env example_mgr = (Inr (), t)" by auto
  have "wired power_env t" by (rule boot_wired [OF t example_fresh])
  then obtain i sub where inst: "ipower_instance t = Some (i, sub, PowerhandlerFn, [])"
    by (auto simp: wired_def power_env_def example_env_def drm_env_def calm_env_def)
  obtain s where s: "sysTimeMgrPwrEventHandler ?ev t = (Inr (), s)" "ipower_instance s = Some (i, sub, PowerhandlerFn, [?ev])"
    using push_instance [OF inst] by (cases "sysTimeMgrPwrEventHandler ?ev t") auto
  define c where "c = d_pwr (start_daemon t)"
  define c' where "c' = c\<lparr>p_bus := s, notifying := Suc (notifying c), received := received c @ [?ev]\<rparr>"
  have c: "p_bus c = t" "handled c = []" "evt_pc c = Testing" "\<not> dropped c" by (simp_all add: c_def start_daemon_def)
  have step: "pwr_step (registered_fns power_env) power_env i (d_pwr (start_daemon t)) (Push ?ev) c'"
    unfolding c'_def c_def by (rule push) (simp add: s(1) start_daemon_def)
  define d where "d = (start_daemon t)\<lparr>d_pwr := c', powers := []\<rparr>"
  have "ipower_instance (mgr_of (start_daemon t)) = Some (i, sub, PowerhandlerFn, [])"
    using inst by (simp add: mgr_of_def start_daemon_def)
  from pwr [OF this step] c have "daemon_step power_env (start_daemon t) (Pwr (Push ?ev)) d"
    by (simp add: d_def c'_def c_def start_daemon_def)
  with reach_init [of "daemon_init power_env", OF start_daemon_init [OF example_fresh t]]
  have r: "reach (daemon_init power_env) (daemon_step power_env) d" by (rule reach_step)
  have "ipower_instance (mgr_of d) = Some (i, sub, PowerhandlerFn, [?ev])" "\<not> dropped (d_pwr d)"
    using s(2) c by (simp_all add: d_def mgr_of_def c'_def)
  from daemon_power_in_order [OF r this] r show ?thesis by blast
qed

end
