(* ===== verification/Daemon_Sync.thy ===== *)
theory Daemon_Sync
  imports Daemon
begin

text \<open>
  From the kernel to the clients: how the threads of the daemon work together when the clock is
  synchronised. The monitor of the synchronisation touches a file, inotify reports the change, the
  path monitor sends a message, and the processing thread handles it. What \<open>read\<close> delivers is the
  label of a step; the theorems say what follows from it under every interleaving.
\<close>

lemma posted_mgr [simp]: "mgr_of (posted s d) = s"
  by (simp add: posted_def Let_def)

section \<open>What the threads leave alone\<close>

text \<open>
  A view of the manager that looks at no history of calls, queue, subscriber, network flag or status.
  Only the processing thread and the synchronisation monitor can change it.
\<close>

locale mgr_frame =
  fixes view :: "'w mgr_scheme \<Rightarrow> 'a"
  assumes view_world: "view (s\<lparr>w_hist := h\<rparr>) = view s" "view (s\<lparr>m_queue := q\<rparr>) = view s" "view (s\<lparr>b_subs := bs\<rparr>) = view s"
    and view_net: "view (s\<lparr>lastStatus := x\<rparr>) = view s" "view (s\<lparr>internetUpPending := b\<rparr>) = view s"
      "view (s\<lparr>stopProcessing := b\<rparr>) = view s" "view (s\<lparr>thunder_client := b\<rparr>) = view s"
      "view (s\<lparr>m_networkeventsubscribed := b\<rparr>) = view s"
    and view_status: "view (s\<lparr>m_state := st\<rparr>) = view s" "view (s\<lparr>m_timequality := tq\<rparr>) = view s"
      "view (s\<lparr>m_timersrc := x\<rparr>) = view s"
begin

lemmas view_simps = view_world view_net view_status

lemma keeps_view:
  "keeps view (deepsleepoff env)" "keeps view (watch env)"
  "keeps view (getTimeStatus env m)" "keeps view (unregister env)" "keeps view (sysTimeMgrPwrEventHandler pe)"
proof -
  show "keeps view (deepsleepoff env)" by (intro keeps_intros; simp add: view_simps)
  show "keeps view (watch env)" "keeps view (getTimeStatus env m)"
    "keeps view (unregister env)" "keeps view (sysTimeMgrPwrEventHandler pe)"
    unfolding watch_def getTimeStatus_def unregister_def sysTimeMgrPwrEventHandler_def put_sub_def
    by (intro keeps_intros | simp add: view_simps)+
qed

lemma appends_view: "appends s t \<Longrightarrow> view t = view s"
  by (auto simp: appends_def view_simps)

lemma net_step_view:
  assumes "net_step env c l c'"
  shows "view (snd c') = view (snd c)"
  by (rule net_step_keeps [OF assms]) (simp_all add: view_simps)

lemma power_fn_view:
  assumes "mgr_exists s"
    and "(case m of None \<Rightarrow> (Inr (), s) | Some msg \<Rightarrow> invoke_fn (registered_fns env) PowerhandlerFn msg s) = (Inr (), t)"
  shows "view t = view s"
proof (cases m)
  case None
  with assms(2) show ?thesis by simp
next
  case (Some msg)
  with assms(2) obtain r where "powerhandler env msg s = (Inr r, t)"
    by (auto simp: invoke_fn_def registered_fns_def bindM_run ret_run split: prod.splits sum.splits)
  from powerhandler_keeps [OF assms(1) this keeps_view(1)] show ?thesis .
qed

lemma set_pwr_queue_view: "view (set_pwr_queue i q s) = view s"
  by (simp add: set_pwr_queue_def view_simps split: subscriber.split)

lemma pwr_step_view:
  fixes c :: "'w mgr_ext net_ext pwr_threads"
  assumes "pwr_step (registered_fns env) env i c l c'" "ipower_instance (p_bus c) = Some (i, sub, PowerhandlerFn, q)"
    and "mgr_exists (p_bus c)"
  shows "view (p_bus c') = view (p_bus c)"
  using assms(1)
proof cases
  case (push ev s)
  from keepsD [OF keeps_view(5) push(3)] push(2) show ?thesis by simp
next
  case (pop ev s)
  then show ?thesis by (auto simp: pop_pwr_event_def set_pwr_queue_view split: list.splits)
next
  case (handle_event ev s)
  from handle_event(4) have "(case power_message (currentState ev) (newState ev) of None \<Rightarrow> (Inr (), p_bus c)
          | Some msg \<Rightarrow> invoke_fn (registered_fns env) PowerhandlerFn msg (p_bus c)) = (Inr (), s)"
    by (simp add: sysTimeMgrHandlePwrEventData_run [OF assms(2)])
  from power_fn_view [OF assms(3) this] handle_event(2) show ?thesis by simp
next
  case (join s)
  from keepsD [OF keeps_view(4) join(5)] join(2) show ?thesis by simp
qed (simp_all add: set_pwr_queue_view)

lemma query_view:
  assumes "mgr_exists s" "static_getTimeStatus env args s = (Inr r, t)"
  shows "view t = view s"
proof -
  obtain m where args: "args = Some m"
    using assms by (cases args) (auto simp: static_getTimeStatus_def get_instance_def deref_def prog_simps)
  obtain x u where x: "getTimeStatus env m s = (x, u)" by (cases "getTimeStatus env m s")
  with assms args have "t = u"
    by (cases x) (auto simp: static_getTimeStatus_def get_instance_def deref_def bindM_run getM_run whenM_run ret_run)
  with keepsD [OF keeps_view(3) x] show ?thesis by simp
qed

lemma step_view:
  fixes d :: "'w daemon"
  assumes "d_ok d" "daemon_step env d l d'" "l \<noteq> Process_msg" "l \<noteq> Ntp_poll"
  shows "view (mgr_of d') = view (mgr_of d)"
proof -
  have ex: "mgr_exists (mgr_of d)" using assms(1) by (simp add: d_ok_def ready_def)
  show ?thesis
    using assms(2)
  proof cases
    case (net l pc s)
    from net_step_view [OF net(4)] net(2) show ?thesis by simp
  next
    case (pwr i sub f q l c)
    have "f = PowerhandlerFn" using assms(1) pwr(3) by (auto simp: d_ok_def pwr_ok_def)
    with pwr_step_view [OF pwr(4)] pwr(2,3) ex show ?thesis by (simp add: mgr_of_def)
  next
    case (iarm_power ev s)
    then have "iarm_power_instance (mgr_of d) = Some PowerhandlerFn" using assms(1) by (auto simp: d_ok_def)
    from power_fn_view [OF ex iarm_power(4) [unfolded powereventHandler_run [OF this]]] iarm_power(2)
    show ?thesis by simp
  next
    case (query args r s)
    from query_view [OF ex query(3)] query(2) show ?thesis by simp
  next
    case (watch ok s stack)
    from keepsD [OF keeps_view(2) watch(4)] watch(2) show ?thesis by simp
  qed (use assms(3,4) in \<open>auto dest!: senders_append simp: appends_view\<close>)
qed

end

section \<open>What never changes after the start\<close>

definition settings :: "'w mgr_scheme \<Rightarrow> (string, sysTimeMgrEvent) smap \<times> bool" where
  "settings s = (m_pathEventMap s, m_chronyRfcEnabled s)"

interpretation fixed: mgr_frame settings
  by unfold_locales (simp_all add: settings_def)

lemma keeps_settings:
  fixes env
  shows "keeps (settings :: 'w mgr_scheme \<Rightarrow> _) (runStateMachine env ev)"
    "keeps (settings :: 'w mgr_scheme \<Rightarrow> _) (runNTPSyncMonitor n env)"
proof -
  let ?p = "settings :: 'w mgr_scheme \<Rightarrow> _"
  have "keeps ?p (handler env f)" for f
    unfolding settings_def by (intro keeps_intros) simp_all
  then show "keeps ?p (runStateMachine env ev)"
    unfolding runStateMachine_def settings_def by (intro keeps_intros | simp)+
  have report: "keeps ?p (report_offset env)"
    unfolding report_offset_def settings_def by (intro keeps_intros | simp)+
  have marks: "keeps ?p (record_sync env)"
    unfolding record_sync_def create_file_def
    by (intro keeps_intros report | simp add: settings_def put_file_def)+
  have poll: "keeps ?p (poll_sync env)"
    unfolding poll_sync_def settings_def by (intro keeps_intros | simp)+
  show "keeps ?p (runNTPSyncMonitor n env)" by (induction n) (simp_all add: keeps_intros poll marks)
qed

lemma daemon_step_settings:
  fixes d :: "'w daemon"
  assumes "d_ok d" "daemon_step env d l d'"
  shows "settings (mgr_of d') = settings (mgr_of d)"
  using assms(2)
proof cases
  case (process_msg m s)
  then obtain q where "runStateMachine env (q_event m) ((mgr_of d)\<lparr>m_queue := q\<rparr>) = (Inr (), s)"
    by (auto simp: processMsg_locked_def pop_msg_def bindM_run ret_run split: list.splits prod.splits sum.splits)
  from keepsD [OF keeps_settings(1) this] process_msg(2) show ?thesis by (simp add: settings_def)
next
  case (process_wait s)
  from processMsg_None [OF process_wait(4)] process_wait(2) show ?thesis by simp
next
  case (ntp_poll r s)
  from keepsD [OF keeps_settings(2) ntp_poll(5)] ntp_poll(2) show ?thesis by simp
qed (use fixed.step_view [OF assms] in simp_all)

definition table_ok :: "'w daemon \<Rightarrow> bool" where
  "table_ok d \<longleftrightarrow> d_ok d \<and> m_pathEventMap (mgr_of d) = path_events []"

interpretation table: invariant_system "daemon_init env" "daemon_step env" table_ok
proof unfold_locales
  fix d :: "'w daemon"
  assume init: "daemon_init env d"
  then obtain s where "fresh s" "boot env s = (Inr (), mgr_of d)" by (auto simp: daemon_init_def)
  with d_ok_init [OF init] boot_wired(4) show "table_ok d" unfolding table_ok_def by blast
next
  fix d d' :: "'w daemon" and l
  assume "table_ok d" "daemon_step env d l d'"
  with d_ok_step [of d env l d'] daemon_step_settings [of d env l d'] show "table_ok d'"
    by (simp add: table_ok_def settings_def)
qed

section \<open>What is sent\<close>

text \<open>The events that a step sends once the files have been looked for, read off its label.\<close>

definition reported :: "string \<Rightarrow> sysTimeMgrEvent list" where
  "reported bytes =
     (if event_mask bytes AND IN_ATTRIB \<noteq> 0
      then (case smap_find (path_events []) (event_name bytes) of None \<Rightarrow> [] | Some event \<Rightarrow> [event])
      else [])"

definition sends :: "daemon_label \<Rightarrow> sysTimeMgrEvent list" where
  "sends l = (case l of
       Timer \<Rightarrow> [eSYSMGR_EVENT_TIMER_EXPIRY]
     | Read (Some bytes) \<Rightarrow> reported bytes
     | _ \<Rightarrow> [])"

text \<open>Every \<open>read\<close> delivers one event with a name.\<close>

definition one_by_one :: "daemon_label list \<Rightarrow> bool" where
  "one_by_one ls \<longleftrightarrow> (\<forall>bytes. Read (Some bytes) \<in> set ls \<longrightarrow> (\<exists>e. named e \<and> bytes = ev_bytes e))"

definition scanned :: "'w daemon \<Rightarrow> bool" where
  "scanned d = (case mon_pc d of Mon_scanning _ \<Rightarrow> False | _ \<Rightarrow> True)"

lemma reported_event: "reported (ev_bytes e) = map q_event (message_of (path_events []) e)"
proof -
  have "event_mask (ev_bytes e) = ev_mask e"
    using get_put_u32 [of "put_u32 (ev_wd e)" "ev_mask e"]
    by (simp add: event_mask_def ev_bytes_def) (simp add: put_u32_def)
  moreover have "event_name (ev_bytes e) = c_string (ev_name e)"
    using drop_header [of e "[]"] by (simp add: event_name_def)
  ultimately show ?thesis by (simp add: reported_def message_of_def split: option.split)
qed

lemma posted_sent:
  "m_queue s = m_queue (mgr_of d) @ ms \<Longrightarrow> sent (posted s d) = sent d @ map q_event ms"
  by (simp add: posted_def Let_def)

lemma posted_pcs [simp]: "mon_pc (posted s d) = mon_pc d"
  by (simp add: posted_def Let_def with_mgr_def)

lemma step_sends:
  fixes d :: "'w daemon"
  assumes "table_ok d" "daemon_step env d l d'" "scanned d" "one_by_one [l]"
  shows "sent d' = sent d @ sends l \<and> scanned d'"
  using assms(2)
proof cases
  case (timer s)
  from timer_iteration_run [of env "mgr_of d"] timer(3)
  have "m_queue s = m_queue (mgr_of d) @ [\<lparr>q_event = eSYSMGR_EVENT_TIMER_EXPIRY, q_args = None\<rparr>]" by auto
  from posted_sent [OF this] timer(1,2) assms(3) show ?thesis by (simp add: sends_def scanned_def)
next
  case (read_event buf bytes s)
  from assms(4) read_event(1) obtain e where e: "named e" "bytes = ev_bytes e" by (auto simp: one_by_one_def)
  have "m_pathEventMap (mgr_of d) = path_events []" using assms(1) by (simp add: table_ok_def)
  with dispatch_named [OF e(1), of "[]" buf "mgr_of d"] read_event(4) e(2)
  have "m_queue s = m_queue (mgr_of d) @ message_of (path_events []) e" by auto
  from posted_sent [OF this] read_event(1,2) e(2) show ?thesis
    by (simp add: sends_def scanned_def reported_event)
qed (use assms(3) in \<open>auto simp: sends_def scanned_def with_mgr_def split: mon_pc.splits\<close>)

lemma run_sends:
  fixes d :: "'w daemon"
  assumes "run (daemon_step env) d ls d'" "table_ok d" "scanned d" "one_by_one ls"
  shows "sent d' = sent d @ concat (map sends ls) \<and> scanned d'"
  using assms
proof (induction rule: run.induct)
  case (run_cons d l e ls d')
  have "one_by_one [l]" "one_by_one ls" using run_cons.prems(3) by (auto simp: one_by_one_def)
  with step_sends [OF run_cons.prems(1) run_cons.hyps(1) run_cons.prems(2)]
    table.step_inv [OF run_cons.prems(1) run_cons.hyps(1)] run_cons.IH show ?case by simp
qed simp

section \<open>The way of one synchronisation\<close>

lemma create_file_sane: "sane_clock env \<Longrightarrow> safe w_ok (create_file env path) (\<lambda>_. w_ok)"
  by (auto simp: safe_def create_file_def call_int_def prog_simps sane_clock_time)

lemma record_sync_safe:
  assumes "sane_clock env"
  shows "safe w_ok (record_sync env) (\<lambda>_. w_ok)"
proof (rule safeI)
  fix s :: "'w world_scheme" assume s: "w_ok s"
  from safeD [OF touch_file_sane [OF assms] s] obtain x s1 where
    s1: "touch_file env (m_directory @ ''/ntp'') s = (Inr x, s1)" "w_ok s1" by blast
  from safeD [OF create_file_sane [OF assms] s1(2)] obtain s2 where
    s2: "create_file env ''/tmp/clock-event'' s1 = (Inr (), s2)" "w_ok s2" by auto
  from safeD [OF write_stream_sane [OF assms] s2(2)] obtain y s3 where
    s3: "write_stream env ''/tmp/ntp_status'' (''Synchronized'' @ [CHR 0x0A]) s2 = (Inr y, s3)" "w_ok s3" by blast
  obtain h where "report_offset env s3 = (Inr (), s3\<lparr>w_hist := h\<rparr>)" using report_offset_run by blast
  with s1(1) s2(1) s3 show "\<exists>x t. record_sync env s = (Inr x, t) \<and> w_ok t"
    by (auto simp: record_sync_def bindM_run)
qed

text \<open>The poll that finds the clock disciplined.\<close>

lemma sync_poll_run:
  fixes s :: "'w mgr_scheme"
  assumes "files_work env" "touch_works env" "disciplined env (w_hist s)"
  shows "\<exists>t. runNTPSyncMonitor 1 env s = (Inr (Some ()), t) \<and> sync_marks s t \<and>
    (sane_clock env \<and> mgr_wf n s \<longrightarrow> mgr_wf n t)"
proof -
  define s0 where "s0 = s\<lparr>w_hist := w_hist s @ [(Adjtimex, ret_code env (w_hist s) Adjtimex)]\<rparr>"
  from record_sync_run [OF assms(1,2), of s0] obtain t where
    t: "record_sync env s0 = (Inr (), t)" "sync_marks s t" by (auto simp: s0_def)
  have run: "runNTPSyncMonitor 1 env s = (Inr (Some ()), t)"
    using t(1) assms(3) by (simp add: bindM_run poll_sync_run ret_run s0_def)
  have "keeps (\<lambda>s :: 'w mgr_scheme. (m_publish s, m_timerSrc s, m_timerSync s)) (record_sync env)"
    unfolding record_sync_def create_file_def report_offset_def
    by (intro keeps_intros | simp add: put_file_def)+
  from keepsD [OF this t(1)] have "mgr_wf n t" if "sane_clock env" "mgr_wf n s"
    using safeD [OF record_sync_safe [OF that(1)], of s0] that(2) t(1) by (auto simp: mgr_wf_def s0_def)
  with run t(2) show ?thesis by blast
qed

lemma ntp_poll_run:
  fixes d :: "'w daemon"
  assumes "files_work env" "touch_works env" "disciplined env (w_hist (mgr_of d))"
    and "ntp_pc d = Ntp_polling" "m_chronyRfcEnabled (mgr_of d)"
  shows "\<exists>d'. daemon_step env d Ntp_poll d' \<and> sync_marks (mgr_of d) (mgr_of d') \<and> ntp_pc d' = Ntp_returned \<and>
    mon_pc d' = mon_pc d \<and> sent d' = sent d \<and> (sane_clock env \<and> mgr_wf n (mgr_of d) \<longrightarrow> mgr_wf n (mgr_of d'))"
proof -
  from sync_poll_run [OF assms(1-3), of n] obtain t where
    t: "runNTPSyncMonitor 1 env (mgr_of d) = (Inr (Some ()), t)" "sync_marks (mgr_of d) t"
      "sane_clock env \<and> mgr_wf n (mgr_of d) \<longrightarrow> mgr_wf n t" by blast
  have "daemon_step env d Ntp_poll ((with_mgr t d)\<lparr>ntp_pc := Ntp_returned\<rparr>)"
    using ntp_poll [OF assms(4,5) t(1)] by simp
  with t(2,3) show ?thesis by (intro exI conjI) (assumption, simp_all add: with_mgr_def mgr_of_def)
qed

text \<open>Passes of the processing thread alone: the status follows the events they handle.\<close>

lemma process_status:
  fixes d :: "'w daemon"
  assumes "run (daemon_step env) d ls d'" "set ls \<subseteq> {Notify_proc, Process_msg}" "d_ok d"
  shows "\<exists>evs. processed d' = processed d @ evs \<and> status (mgr_of d') = fold spec_label (map Handle evs) (status (mgr_of d))"
  using assms
proof (induction rule: run.induct)
  case (run_cons d l e ls d')
  have "\<exists>evs. processed e = processed d @ evs \<and> status (mgr_of e) = fold spec_label (map Handle evs) (status (mgr_of d))"
    using run_cons.hyps(1)
  proof cases
    case (process_msg m s)
    have "ready (mgr_of d)" using run_cons.prems(2) by (simp add: d_ok_def)
    from processMsg_Some [OF process_msg(4) this] process_msg(2) show ?thesis
      by (intro exI [of _ "[q_event m]"]) simp
  next
    case (process_wait s)
    from processMsg_None [OF process_wait(4)] process_wait(2) show ?thesis by simp
  qed (use run_cons.prems(1) in auto)
  moreover from run_cons.IH d_ok_step [OF run_cons.prems(2) run_cons.hyps(1)] run_cons.prems(1)
  obtain evs where "processed d' = processed e @ evs" "status (mgr_of d') = fold spec_label (map Handle evs) (status (mgr_of e))"
    by auto
  ultimately show ?case by (metis append_assoc fold_append o_apply map_append)
qed (intro exI [of _ "[]"], simp)

lemma explained_not_init: "explained evs ps st \<Longrightarrow> fst st \<noteq> eSYSMGR_STATE_INIT"
proof -
  have step: "fst (spec_label l a) \<noteq> eSYSMGR_STATE_INIT" if "fst a \<noteq> eSYSMGR_STATE_INIT" for l a
  proof (cases l)
    case (Handle ev)
    with knows_events [OF that, of "[ev]"] show ?thesis by simp
  next
    case (Power m)
    with that show ?thesis by (cases a) (simp add: spec_power_def)
  qed
  have "fst (fold spec_label ls a) \<noteq> eSYSMGR_STATE_INIT" if "fst a \<noteq> eSYSMGR_STATE_INIT" for ls a
    using that by (induction ls arbitrary: a) (simp_all add: step)
  then show "explained evs ps st \<Longrightarrow> fst st \<noteq> eSYSMGR_STATE_INIT"
    by (auto simp: explained_def)
qed

text \<open>When the last event handled is that of NTP, the manager has network time.\<close>

lemma handled_ntp:
  fixes d :: "'w daemon"
  assumes "run (daemon_step env) d ls d'" "set ls \<subseteq> {Notify_proc, Process_msg}" "d_ok d"
    and "processed d' = evs @ [eSYSMGR_EVENT_NTP_AVAILABLE]" "length (processed d) \<le> length evs"
  shows "m_state (mgr_of d') \<in> {eSYSMGR_STATE_NTP_ACQUIRED, eSYSMGR_STATE_RUNNING} \<and>
    m_timequality (mgr_of d') \<in> {eTIMEQUALILTY_GOOD, eTIMEQUALILTY_SECURE}"
proof -
  from process_status [OF assms(1-3)] obtain new where
    new: "processed d' = processed d @ new" "status (mgr_of d') = fold spec_label (map Handle new) (status (mgr_of d))" by blast
  with assms(4,5) have "eSYSMGR_EVENT_NTP_AVAILABLE \<in> set new"
    by (cases new rule: rev_cases) auto
  moreover have "explained (processed d) (powers d) (status (mgr_of d))" using assms(3) by (simp add: d_ok_def)
  note explained_not_init [OF this]
  ultimately have "eSYSMGR_EVENT_NTP_AVAILABLE \<in> knows (fst (status (mgr_of d')))"
    using knows_events [of "status (mgr_of d)" new] unfolding new(2) by simp
  then have "eSYSMGR_EVENT_NTP_AVAILABLE \<in> knows (m_state (mgr_of d'))" by (simp add: status_def)
  then have state: "m_state (mgr_of d') \<in> {eSYSMGR_STATE_NTP_ACQUIRED, eSYSMGR_STATE_RUNNING}"
    by (cases "m_state (mgr_of d')") simp_all
  have "explained (processed d') (powers d') (status (mgr_of d'))"
    using daemon.run_inv [OF assms(1,3)] by (simp add: d_ok_def)
  note explained_quality [OF this]
  with state show ?thesis by (auto simp: quality_ok_def status_def)
qed

section \<open>A chrony build in operation\<close>

text \<open>The example with the chrony feature enabled, after the start and the look at the files.\<close>

definition chrony_mgr :: mgr where
  "chrony_mgr = example_mgr\<lparr>w_fs := (w_fs example_mgr)
     (''/opt/secure/RFC/chrony/chronyd_enabled'' \<mapsto> \<lparr>content = [], mtime = 1\<rparr>)\<rparr>"

lemma chrony_boot: "boot_ok example_env chrony_mgr" "fresh chrony_mgr"
proof -
  have "bus_works example_env" using example_boot_ok by (simp add: boot_ok_def)
  moreover have "config_ok example_env chrony_mgr (read_entries example_conf)"
    by (auto simp: example_entries config_ok_def src_types_def sync_types_def createTimeSync_def
        sync_readable_def stored_def version_time_def chrony_mgr_def example_mgr_def time_bound_def)
  ultimately show "boot_ok example_env chrony_mgr"
    by (simp add: boot_ok_def chrony_mgr_def example_mgr_def w_ok_def valid_time_def time_bound_def)
  show "fresh chrony_mgr" using example_fresh by (simp add: chrony_mgr_def fresh_def)
qed

lemma example_env_ntp: "touch_works example_env" "disciplined example_env h"
  by (simp_all add: touch_works_def disciplined_def example_env_def drm_env_def calm_env_def TIME_ERROR_def)

lemma chrony_scanned:
  "\<exists>d :: unit daemon. reach (daemon_init example_env) (daemon_step example_env) d \<and> mon_pc d = Mon_scanning [] \<and>
     ntp_pc d = Ntp_polling \<and> m_chronyRfcEnabled (mgr_of d) \<and> sent d = map q_event (m_queue (mgr_of d)) \<and>
     length (m_queue (mgr_of d)) \<le> 4 \<and> mgr_wf 100 (mgr_of d)"
proof -
  from boot_run [OF example_env_sane(1) chrony_boot(1), of 100] obtain t where
    t: "boot example_env chrony_mgr = (Inr (), t)" "mgr_wf 100 t" by auto
  have chrony: "m_chronyRfcEnabled t"
    using boot_wired(5) [OF t(1) chrony_boot(2)] by (simp add: chrony_mgr_def file_exists_def)
  from scanned_reach [OF example_env_sane(3) chrony_boot(2) t(1)] obtain d h where
    d: "reach (daemon_init example_env) (daemon_step example_env) d" "mon_pc d = Mon_scanning []"
      "ntp_pc d = Ntp_polling" "sent d = map q_event (existing t (path_events []))"
      "mgr_of d = t\<lparr>w_hist := h, m_queue := existing t (path_events [])\<rparr>" by blast
  moreover have "length (existing t (path_events [])) \<le> 4" by (simp add: existing_def path_events_table)
  ultimately show ?thesis using t(2) chrony by (intro exI [of _ d]) simp
qed

section \<open>Properties\<close>

text \<open>
  C5: The messages of the daemon are exactly the reports of its sources. Once the path monitor has
  looked for the files, under every interleaving of all the threads in which inotify delivers its
  events one by one, the events sent are the ones sent before followed by one expiry for each round
  of the timer and one event for each change of attributes of a known file, in the order of the
  steps; what has been handled and what is in the queue together are these same events, so none is
  invented, lost, doubled or overtaken.
\<close>

theorem daemon_sends_exactly:
  fixes d :: "'w daemon"
  assumes "reach (daemon_init env) (daemon_step env) d" "scanned d" "one_by_one ls" "run (daemon_step env) d ls d'"
  shows "sent d' = sent d @ concat (map sends ls) \<and>
    processed d' @ map q_event (m_queue (mgr_of d')) = sent d @ concat (map sends ls)"
  using run_sends [OF assms(4) table.reach_inv [OF assms(1)] assms(2,3)]
    table.run_inv [OF assms(4) table.reach_inv [OF assms(1)]]
  by (simp add: table_ok_def d_ok_def)

theorem daemon_sends_exactly_witness:
  "\<exists>(d :: unit daemon) d'. scanned d \<and> run (daemon_step example_env) d [Read (Some (ev_bytes (attrib_of ''drm'')))] d' \<and>
     sent d' = sent d @ [eSYSMGR_EVENT_SECURE_TIME_AVAILABLE] \<and>
     processed d' @ map q_event (m_queue (mgr_of d')) = sent d @ [eSYSMGR_EVENT_SECURE_TIME_AVAILABLE]"
proof -
  from chrony_scanned obtain d0 :: "unit daemon" where
    d0: "reach (daemon_init example_env) (daemon_step example_env) d0" "mon_pc d0 = Mon_scanning []" by blast
  from watch_run [OF example_watch d0(2), of "[]"] obtain d where
    d: "daemon_step example_env d0 Watch d" "mon_pc d = Mon_reading []" by blast
  have r: "reach (daemon_init example_env) (daemon_step example_env) d" using d0(1) d(1) by (rule reach_step)
  have s: "scanned d" by (simp add: scanned_def d(2))
  from read_run [OF d(2) attrib_named(2), of example_env] obtain d' where
    d': "daemon_step example_env d (Read (Some (ev_bytes (attrib_of ''drm'')))) d'" by blast
  have one: "one_by_one [Read (Some (ev_bytes (attrib_of ''drm'')))]"
    using attrib_named(2) by (auto simp: one_by_one_def)
  have "sends (Read (Some (ev_bytes (attrib_of ''drm'')))) = [eSYSMGR_EVENT_SECURE_TIME_AVAILABLE]"
    by (simp add: sends_def reported_event attrib_messages)
  moreover have run: "run (daemon_step example_env) d [Read (Some (ev_bytes (attrib_of ''drm'')))] d'"
    by (rule run_cons [of "daemon_step example_env", OF d' run_nil])
  ultimately show ?thesis using daemon_sends_exactly [OF r s one run] s by auto
qed

text \<open>
  C4: A synchronised clock is announced. In every reachable state of a chrony build in which the path
  monitor reads and the synchronisation monitor polls, when the kernel reports a disciplined clock
  and inotify then reports the change of the NTP file, there is a run of the threads in which the
  monitor leaves its marks, the path monitor sends the event, and the processing thread handles
  everything that was sent before and the NTP event last; then the manager is in a state with
  network time and announces good or secure time.
\<close>

theorem ntp_sync_announced:
  fixes d :: "'w daemon"
  assumes "reach (daemon_init env) (daemon_step env) d" "sane_clock env" "sane_rpc env" "files_work env" "touch_works env"
    and "m_chronyRfcEnabled (mgr_of d)" "ntp_pc d = Ntp_polling" "disciplined env (w_hist (mgr_of d))"
    and "mon_pc d = Mon_reading buf" "named e" "c_string (ev_name e) = ''ntp''" "ev_mask e AND IN_ATTRIB \<noteq> 0"
    and "mgr_wf (Suc (length (m_queue (mgr_of d)))) (mgr_of d)"
  shows "\<exists>d1 ls d2. daemon_step env d Ntp_poll d1 \<and> sync_marks (mgr_of d) (mgr_of d1) \<and>
    run (daemon_step env) d1 (Read (Some (ev_bytes e)) # ls) d2 \<and> set ls \<subseteq> {Notify_proc, Process_msg} \<and>
    processed d2 = sent d @ [eSYSMGR_EVENT_NTP_AVAILABLE] \<and>
    m_state (mgr_of d2) \<in> {eSYSMGR_STATE_NTP_ACQUIRED, eSYSMGR_STATE_RUNNING} \<and>
    m_timequality (mgr_of d2) \<in> {eTIMEQUALILTY_GOOD, eTIMEQUALILTY_SECURE}"
proof -
  from ntp_poll_run [OF assms(4,5,8,7,6)] assms(2,13) obtain d1 where
    d1: "daemon_step env d Ntp_poll d1" "sync_marks (mgr_of d) (mgr_of d1)" "mon_pc d1 = Mon_reading buf" "sent d1 = sent d"
      "mgr_wf (Suc (length (m_queue (mgr_of d)))) (mgr_of d1)" using assms(9) by metis
  have r1: "reach (daemon_init env) (daemon_step env) d1" using assms(1) d1(1) by (rule reach_step)
  note ok = table.reach_inv [OF assms(1)] table.reach_inv [OF r1]
  have q1: "m_queue (mgr_of d1) = m_queue (mgr_of d)"
    using d1(1)
  proof cases
    case (ntp_poll r s)
    from keeps_core [OF keeps_fields(1) ntp_poll(4)] ntp_poll(1) show ?thesis by (simp add: core_def)
  qed
  have msg: "message_of (m_pathEventMap (mgr_of d1)) e = [\<lparr>q_event = eSYSMGR_EVENT_NTP_AVAILABLE, q_args = None\<rparr>]"
    using ok(2) assms(11,12) by (simp add: table_ok_def message_of_def path_events_table smap_find_def)
  from read_run [OF d1(3) assms(10), of env] obtain d2 where
    d2: "daemon_step env d1 (Read (Some (ev_bytes e))) d2" "sent d2 = sent d @ [eSYSMGR_EVENT_NTP_AVAILABLE]"
      "mgr_of d2 = (mgr_of d1)\<lparr>m_queue := m_queue (mgr_of d) @ [\<lparr>q_event = eSYSMGR_EVENT_NTP_AVAILABLE, q_args = None\<rparr>]\<rparr>"
    unfolding msg d1(4) q1 by auto
  have d_ok2: "d_ok d2" using table.step_inv [OF ok(2) d2(1)] by (simp add: table_ok_def)
  have "mgr_wf (length (m_queue (mgr_of d2))) (mgr_of d2)" using d1(5) by (simp add: d2(3))
  from drains [OF assms(2,3) d_ok2 this] obtain ls d3 where
    d3: "set ls \<subseteq> {Notify_proc, Process_msg}" "run (daemon_step env) d2 ls d3"
      "processed d3 = sent d @ [eSYSMGR_EVENT_NTP_AVAILABLE]" unfolding d2(2) by blast
  have "length (sent d2) = length (processed d2) + length (m_queue (mgr_of d2))"
    using d_ok2 by (simp add: d_ok_def)
  then have "length (processed d2) \<le> length (sent d)" by (simp add: d2(2,3))
  from handled_ntp [OF d3(2,1) d_ok2 d3(3) this] d1(1,2) d3 run_cons [of "daemon_step env", OF d2(1) d3(2)]
  show ?thesis by blast
qed

theorem ntp_sync_announced_witness:
  "\<exists>(d :: unit daemon) d1 ls d2. daemon_step example_env d Ntp_poll d1 \<and> sync_marks (mgr_of d) (mgr_of d1) \<and>
    run (daemon_step example_env) d1 (Read (Some (ev_bytes (attrib_of ''ntp''))) # ls) d2 \<and>
    processed d2 = sent d @ [eSYSMGR_EVENT_NTP_AVAILABLE] \<and>
    m_state (mgr_of d2) \<in> {eSYSMGR_STATE_NTP_ACQUIRED, eSYSMGR_STATE_RUNNING}"
proof -
  from chrony_scanned obtain d0 :: "unit daemon" where
    d0: "reach (daemon_init example_env) (daemon_step example_env) d0" "mon_pc d0 = Mon_scanning []" "ntp_pc d0 = Ntp_polling"
      "m_chronyRfcEnabled (mgr_of d0)" "length (m_queue (mgr_of d0)) \<le> 4" "mgr_wf 100 (mgr_of d0)" by blast
  from watch_run [OF example_watch d0(2), of "[]"] obtain d h where
    d: "daemon_step example_env d0 Watch d" "mon_pc d = Mon_reading []" "ntp_pc d = Ntp_polling"
      "mgr_of d = (mgr_of d0)\<lparr>w_hist := h\<rparr>" unfolding d0(3) by blast
  have r: "reach (daemon_init example_env) (daemon_step example_env) d" using d0(1) d(1) by (rule reach_step)
  have "mgr_wf 100 (mgr_of d)" "Suc (length (m_queue (mgr_of d))) \<le> 100" using d0(5,6) by (simp_all add: d(4))
  note wf = mgr_wf_mono [OF this]
  have ev: "c_string (ev_name (attrib_of ''ntp'')) = ''ntp''" "ev_mask (attrib_of ''ntp'') AND IN_ATTRIB \<noteq> 0"
    by (simp_all add: attrib_of_def c_string_def nul_def IN_ATTRIB_def)
  have chrony: "m_chronyRfcEnabled (mgr_of d)" by (simp add: d(4) d0(4))
  from ntp_sync_announced [OF r example_env_sane example_env_ntp(1) chrony d(3) example_env_ntp(2) d(2) attrib_named(1) ev wf]
  obtain d1 ls d2 where "daemon_step example_env d Ntp_poll d1" "sync_marks (mgr_of d) (mgr_of d1)"
    "run (daemon_step example_env) d1 (Read (Some (ev_bytes (attrib_of ''ntp''))) # ls) d2"
    "processed d2 = sent d @ [eSYSMGR_EVENT_NTP_AVAILABLE]"
    "m_state (mgr_of d2) \<in> {eSYSMGR_STATE_NTP_ACQUIRED, eSYSMGR_STATE_RUNNING}" by (elim exE conjE)
  then show ?thesis by (intro exI conjI)
qed

text \<open>
  C34: A synchronisation between the look at the files and the watch is lost. When the path monitor has
  looked for the files and has not yet added its watch, the synchronisation monitor can leave its
  marks and return; the monitor then reads, the NTP file exists, and no event for it has been sent.
  The kernel has none to report, the touch was before the watch; and in every continuation in which
  inotify reports no event, nothing but expiries of the timer is ever sent.
\<close>

theorem sync_before_watch_lost:
  fixes d :: "'w daemon"
  assumes "reach (daemon_init env) (daemon_step env) d" "files_work env" "touch_works env" "watch_works env"
    and "m_chronyRfcEnabled (mgr_of d)" "ntp_pc d = Ntp_polling" "disciplined env (w_hist (mgr_of d))"
    and "mon_pc d = Mon_scanning []"
  shows "\<exists>d1 d2. daemon_step env d Ntp_poll d1 \<and> daemon_step env d1 Watch d2 \<and>
    mon_pc d2 = Mon_reading stack \<and> ntp_pc d2 = Ntp_returned \<and>
    file_exists (mgr_of d2) ''/tmp/systimemgr/ntp'' \<and> sent d2 = sent d \<and>
    (\<forall>ls d3. run (daemon_step env) d2 ls d3 \<and> (\<forall>bytes. Read (Some bytes) \<notin> set ls) \<longrightarrow>
       set (sent d3) \<subseteq> set (sent d) \<union> {eSYSMGR_EVENT_TIMER_EXPIRY})"
proof -
  from ntp_poll_run [OF assms(2,3,7,6,5)] obtain d1 where
    d1: "daemon_step env d Ntp_poll d1" "sync_marks (mgr_of d) (mgr_of d1)" "mon_pc d1 = Mon_scanning []"
      "ntp_pc d1 = Ntp_returned" "sent d1 = sent d" using assms(8) by metis
  from watch_run [OF assms(4) d1(3), of stack] obtain d2 h where
    d2: "daemon_step env d1 Watch d2" "mon_pc d2 = Mon_reading stack" "ntp_pc d2 = Ntp_returned" "sent d2 = sent d"
      "mgr_of d2 = (mgr_of d1)\<lparr>w_hist := h\<rparr>" unfolding d1(4,5) by blast
  have ok: "table_ok d2"
    by (rule table.reach_inv [OF reach_step [OF reach_step [OF assms(1) d1(1)] d2(1)]])
  have "file_exists (mgr_of d2) ''/tmp/systimemgr/ntp''"
    using d1(2) by (simp add: d2(5) sync_marks_def file_exists_def)
  moreover have "set (sent d3) \<subseteq> set (sent d) \<union> {eSYSMGR_EVENT_TIMER_EXPIRY}"
    if "run (daemon_step env) d2 ls d3" "\<forall>bytes. Read (Some bytes) \<notin> set ls" for ls d3
  proof -
    have "sent d3 = sent d @ concat (map sends ls)"
      using run_sends [OF that(1) ok] that(2) d2(2,4) by (simp add: scanned_def one_by_one_def)
    moreover have "set (sends l) \<subseteq> {eSYSMGR_EVENT_TIMER_EXPIRY}" if "l \<in> set ls" for l
      using that \<open>\<forall>bytes. Read (Some bytes) \<notin> set ls\<close>
      by (auto simp: sends_def split: daemon_label.splits option.splits)
    ultimately show ?thesis by auto
  qed
  ultimately show ?thesis using d1(1) d2 by blast
qed

theorem sync_before_watch_lost_witness:
  "\<exists>(d :: unit daemon) d1 d2. daemon_step example_env d Ntp_poll d1 \<and> daemon_step example_env d1 Watch d2 \<and>
    mon_pc d2 = Mon_reading [] \<and> ntp_pc d2 = Ntp_returned \<and>
    file_exists (mgr_of d2) ''/tmp/systimemgr/ntp'' \<and> sent d2 = sent d"
proof -
  from chrony_scanned obtain d :: "unit daemon" where
    d: "reach (daemon_init example_env) (daemon_step example_env) d" "mon_pc d = Mon_scanning []" "ntp_pc d = Ntp_polling"
      "m_chronyRfcEnabled (mgr_of d)" by blast
  from sync_before_watch_lost [OF d(1) example_env_sane(3) example_env_ntp(1) example_watch d(4,3) example_env_ntp(2) d(2)]
  show ?thesis by blast
qed

end
