(* ===== verification/Daemon_Safe.thy ===== *)
theory Daemon_Safe
  imports Daemon_Sync
begin

text \<open>
  Faults and progress of the running daemon. A step of \<open>Daemon\<close> is an action that returned; here are
  the actions that end in a fault instead, an exception that leaves a thread or undefined behaviour,
  and the proof that in a well-behaved environment there are none, under every interleaving. With it,
  the processing thread keeps up with its senders in every run that schedules it often enough.
\<close>

section \<open>Faults\<close>

text \<open>The steps of \<open>daemon_step\<close> that run code which may fault, with the fault they end in.\<close>

inductive daemon_fault :: "env \<Rightarrow> 'w daemon \<Rightarrow> daemon_label \<Rightarrow> fault \<Rightarrow> bool" for env where
  timer_fault: "timer_iteration env (mgr_of d) = (Inl e, s) \<Longrightarrow> daemon_fault env d Timer e"
| process_fault: "proc_pc d = Proc_ready \<Longrightarrow> processMsg_locked env (mgr_of d) = (Inl e, s) \<Longrightarrow>
    daemon_fault env d Process_msg e"
| scan_fault: "mon_pc d = Mon_scanning (p # ps) \<Longrightarrow> scan_entry env p (mgr_of d) = (Inl e, s) \<Longrightarrow>
    daemon_fault env d Scan e"
| watch_fault: "mon_pc d = Mon_scanning [] \<Longrightarrow> watch env (mgr_of d) = (Inl e, s) \<Longrightarrow> daemon_fault env d Watch e"
| read_fault: "mon_pc d = Mon_reading buf \<Longrightarrow> dispatch (fill bytes buf) (mgr_of d) = (Inl e, s) \<Longrightarrow>
    daemon_fault env d (Read (Some bytes)) e"
| ntp_fault: "ntp_pc d = Ntp_polling \<Longrightarrow> m_chronyRfcEnabled (mgr_of d) \<Longrightarrow>
    runNTPSyncMonitor 1 env (mgr_of d) = (Inl e, s) \<Longrightarrow> daemon_fault env d Ntp_poll e"
| net_fault: "m_chronyRfcEnabled (mgr_of d) \<Longrightarrow> loop_pc (net_pc d) = Processing \<Longrightarrow>
    processInternetOnline env (mgr_of d) = (Inl e, s) \<Longrightarrow> daemon_fault env d (Net Process) e"
| sub_start_fault: "m_chronyRfcEnabled (mgr_of d) \<Longrightarrow> sub_pc (net_pc d) = Sub_starting \<Longrightarrow>
    call env (SetEnvironment ''THUNDER_ACCESS'' ''127.0.0.1:9998'') (mgr_of d) = (Inl e, s) \<Longrightarrow> daemon_fault env d (Net Sub_start) e"
| sub_test_fault: "m_chronyRfcEnabled (mgr_of d) \<Longrightarrow> sub_pc (net_pc d) = Sub_testing \<Longrightarrow>
    sub_test (mgr_of d) = (Inl e, s) \<Longrightarrow> daemon_fault env d (Net Sub_test) e"
| sub_create_fault: "m_chronyRfcEnabled (mgr_of d) \<Longrightarrow> sub_pc (net_pc d) = Sub_creating \<Longrightarrow>
    sub_create (mgr_of d) = (Inl e, s) \<Longrightarrow> daemon_fault env d (Net Sub_create) e"
| sub_call_fault: "m_chronyRfcEnabled (mgr_of d) \<Longrightarrow> sub_pc (net_pc d) = Sub_subscribing \<Longrightarrow>
    sub_call env (mgr_of d) = (Inl e, s) \<Longrightarrow> daemon_fault env d (Net Sub_call) e"
| release_fault: "m_chronyRfcEnabled (mgr_of d) \<Longrightarrow> dtor_pc (net_pc d) = Notified \<Longrightarrow>
    release_client env (mgr_of d) = (Inl e, s) \<Longrightarrow> daemon_fault env d (Net Stop_release) e"
| push_fault: "ipower_instance (mgr_of d) = Some (i, sub, f, q) \<Longrightarrow>
    sysTimeMgrPwrEventHandler ev (mgr_of d) = (Inl e, s) \<Longrightarrow> daemon_fault env d (Pwr (Push ev)) e"
| handle_fault: "ipower_instance (mgr_of d) = Some (i, sub, f, q) \<Longrightarrow> evt_pc (d_pwr d) = Handling ev \<Longrightarrow>
    sysTimeMgrHandlePwrEventData (registered_fns env) (currentState ev) (newState ev) (mgr_of d) = (Inl e, s) \<Longrightarrow>
    daemon_fault env d (Pwr Handle_event) e"
| join_fault: "ipower_instance (mgr_of d) = Some (i, sub, f, q) \<Longrightarrow> deinit_pc (d_pwr d) = Joining \<Longrightarrow>
    evt_pc (d_pwr d) = Returned \<Longrightarrow> unregister env (mgr_of d) = (Inl e, s) \<Longrightarrow> daemon_fault env d (Pwr Join) e"
| iarm_fault: "iarm_power_instance (mgr_of d) \<noteq> None \<Longrightarrow>
    powereventHandler (registered_fns env) env (IARM_BUS_PWRMGR_EVENT_MODECHANGED env) ev (mgr_of d) = (Inl e, s) \<Longrightarrow>
    daemon_fault env d (Iarm_power ev) e"
| query_fault: "static_getTimeStatus env args (mgr_of d) = (Inl e, s) \<Longrightarrow> daemon_fault env d (Query args) e"

inductive_cases daemon_faultE: "daemon_fault env d l e"

section \<open>Every action returns\<close>

text \<open>What the manager needs to be in order, apart from its queue and the history of calls.\<close>

definition parts :: "'w mgr_scheme \<Rightarrow> (string \<Rightarrow> inode option) \<times> publisher option \<times> timeSrc option list \<times> timeSync option list" where
  "parts s = (w_fs s, m_publish s, m_timerSrc s, m_timerSync s)"

lemma mgr_wf_parts: "parts t = parts s \<Longrightarrow> mgr_wf n t = mgr_wf n s"
  by (simp add: parts_def mgr_wf_def w_ok_def)

interpretation parts: mgr_frame parts
  by unfold_locales (simp_all add: parts_def)

text \<open>These return whatever the state.\<close>

lemma never_fault:
  "\<not> isl (fst (timer_iteration env s))" "\<not> isl (fst (scan_entry env p s))" "\<not> isl (fst (watch env s))"
  "\<not> isl (fst (dispatch b s))" "\<not> isl (fst (processInternetOnline env s))" "\<not> isl (fst (release_client env s))"
  "\<not> isl (fst (call env c s))" "\<not> isl (fst (sub_test s))" "\<not> isl (fst (sub_create s))" "\<not> isl (fst (sub_call env s))"
  "\<not> isl (fst (unregister env s))"
proof -
  show "\<not> isl (fst (timer_iteration env s))" using timer_iteration_run [of env s] by auto
  show "\<not> isl (fst (scan_entry env p s))"
    by (cases p) (simp add: scan_entry_def open_read_def sendMessage_def prog_simps)
  show "\<not> isl (fst (dispatch b s))" by (simp add: dispatch_def sendMessage_def prog_simps split: option.split)
  show "\<not> isl (fst (watch env s))" by (simp add: watch_def prog_simps)
  show "\<not> isl (fst (processInternetOnline env s))"
    by (auto simp: processInternetOnline_def first_sync_pending_def resync_def call_int_def call_dbl_def
        prog_simps Let_def)
  show "\<not> isl (fst (release_client env s))" by (simp add: release_client_def prog_simps)
  show "\<not> isl (fst (call env c s))" "\<not> isl (fst (sub_test s))" "\<not> isl (fst (sub_create s))" "\<not> isl (fst (sub_call env s))"
    by (simp_all add: sub_test_def sub_create_def sub_call_def prog_simps)
  show "\<not> isl (fst (unregister env s))" by (simp add: unregister_def prog_simps)
qed

text \<open>The monitor of the synchronisation.\<close>

lemma ntp_poll_safe:
  fixes s :: "'w mgr_scheme"
  assumes "sane_clock env" "mgr_wf n s"
  shows "\<exists>r t. runNTPSyncMonitor 1 env s = (Inr r, t) \<and> mgr_wf n t"
proof -
  define s0 where "s0 = s\<lparr>w_hist := w_hist s @ [(Adjtimex, ret_code env (w_hist s) Adjtimex)]\<rparr>"
  have wf: "mgr_wf n s0" using assms(2) by (simp add: s0_def)
  then have "w_ok s0" by (simp add: mgr_wf_def)
  from safeD [OF record_sync_safe [OF assms(1)] this] obtain t where t: "record_sync env s0 = (Inr (), t)" "w_ok t" by auto
  have "keeps (\<lambda>s :: 'w mgr_scheme. (m_publish s, m_timerSrc s, m_timerSync s)) (record_sync env)"
    unfolding record_sync_def create_file_def report_offset_def
    by (intro keeps_intros | simp add: put_file_def)+
  from keepsD [OF this t(1)] wf t(2) have "mgr_wf n t" by (simp add: mgr_wf_def)
  with t(1) wf show ?thesis by (auto simp: bindM_run poll_sync_run ret_run s0_def [symmetric])
qed

text \<open>Calls of the manager from the bus and the power controller.\<close>

lemma query_safe:
  assumes "sane_clock env" "mgr_exists s"
  shows "\<not> isl (fst (static_getTimeStatus env (Some m) s))"
proof -
  obtain v h where "log_times env s = (Inr v, s\<lparr>w_hist := h\<rparr>)" using log_times_run [OF assms(1)] by blast
  with assms(2) show ?thesis
    by (simp add: static_getTimeStatus_def get_instance_def deref_def getTimeStatus_def prog_simps)
qed

lemma power_fn_safe:
  assumes "sane_clock env" "mgr_exists s" "mgr_wf n s"
  shows "\<not> isl (fst (case m of None \<Rightarrow> (Inr (), s) | Some msg \<Rightarrow> invoke_fn (registered_fns env) PowerhandlerFn msg s))"
proof (cases m)
  case (Some msg)
  from safeD [OF deepsleepoff_safe [OF assms(1)] assms(3)] obtain x t where "deepsleepoff env s = (Inr x, t)" by blast
  with assms(2) show ?thesis
    by (simp add: Some invoke_fn_def registered_fns_def bindM_run ret_run powerhandler_run)
qed simp

section \<open>No thread faults\<close>

text \<open>A step uses up at most one of the updates the stores have room for.\<close>

lemma daemon_step_wf:
  fixes d :: "'w daemon"
  assumes "sane_clock env" "sane_rpc env" "d_ok d" "mgr_wf (Suc n) (mgr_of d)" "daemon_step env d l d'"
  shows "mgr_wf n (mgr_of d')"
proof -
  have wf: "mgr_wf n (mgr_of d)" using assms(4) by (rule mgr_wf_mono) simp
  have ready: "ready (mgr_of d)" using assms(3) by (simp add: d_ok_def)
  show ?thesis
    using assms(5)
  proof cases
    case (process_msg m s)
    from processMsg_Some [OF process_msg(4) ready] have "m_queue (mgr_of d) = m # m_queue s" by simp
    from process_one [OF assms(1,2) ready assms(4) this] process_msg(2,4) show ?thesis by auto
  next
    case (process_wait s)
    with processMsg_None [OF process_wait(4)] wf show ?thesis by simp
  next
    case (ntp_poll r s)
    with ntp_poll_safe [OF assms(1) wf] show ?thesis by auto
  qed (use wf mgr_wf_parts [OF parts.step_view [OF assms(3,5)]] in simp_all)
qed

lemma daemon_run_wf:
  fixes d :: "'w daemon"
  assumes "sane_clock env" "sane_rpc env" "run (daemon_step env) d ls d'" "d_ok d" "mgr_wf (n + length ls) (mgr_of d)"
  shows "d_ok d' \<and> mgr_wf n (mgr_of d')"
  using assms(3-)
proof (induction rule: run.induct)
  case (run_cons d l e ls d')
  from daemon_step_wf [OF assms(1,2) run_cons.prems(1) _ run_cons.hyps(1)] run_cons.prems(2)
  have "mgr_wf (n + length ls) (mgr_of e)" by simp
  with run_cons.IH d_ok_step [OF run_cons.prems(1) run_cons.hyps(1)] show ?case by simp
qed simp

lemma no_fault:
  fixes d :: "'w daemon"
  assumes "sane_clock env" "sane_rpc env" "d_ok d" "mgr_wf 1 (mgr_of d)" "daemon_fault env d l e"
  shows "l = Query None"
proof -
  have ready: "ready (mgr_of d)" and ex: "mgr_exists (mgr_of d)" using assms(3) by (simp_all add: d_ok_def ready_def)
  show ?thesis
    using assms(5)
  proof cases
    case (process_fault s)
    show ?thesis
    proof (cases "m_queue (mgr_of d)")
      case Nil
      with process_fault(3) show ?thesis by (simp add: processMsg_locked_def pop_msg_def)
    next
      case (Cons m q)
      from process_one [OF assms(1,2) ready _ Cons, of 0] assms(4) process_fault(3) show ?thesis by auto
    qed
  next
    case (ntp_fault s)
    with ntp_poll_safe [OF assms(1,4)] show ?thesis by auto
  next
    case (push_fault i sub f q ev s)
    with push_instance [OF push_fault(2,3)] show ?thesis by simp
  next
    case (handle_fault i sub f q ev s)
    have "f = PowerhandlerFn" using assms(3) handle_fault(2) by (auto simp: d_ok_def pwr_ok_def)
    with power_fn_safe [OF assms(1) ex assms(4), of "power_message (currentState ev) (newState ev)"] handle_fault(4)
    show ?thesis by (auto simp: sysTimeMgrHandlePwrEventData_run [OF handle_fault(2)])
  next
    case (iarm_fault ev s)
    then have "iarm_power_instance (mgr_of d) = Some PowerhandlerFn" using assms(3) by (auto simp: d_ok_def)
    with power_fn_safe [OF assms(1) ex assms(4), of "power_message (currentState ev) (newState ev)"] iarm_fault(3)
    show ?thesis by (simp add: powereventHandler_run)
  next
    case (query_fault args s)
    with query_safe [OF assms(1) ex] show ?thesis by (cases args) (auto simp: isl_def, metis fst_conv isl_def)
  qed (use never_fault in \<open>metis fst_conv sum.disc(1)\<close>)+
qed

section \<open>The processing thread keeps up\<close>

text \<open>A step only appends to what was sent, and a pass of the processing thread handles a message if there is one.\<close>

lemma step_progress:
  assumes "d_ok d" "daemon_step env d l e"
  shows "(\<exists>new. sent e = sent d @ new) \<and> length (processed d) \<le> length (processed e) \<and>
    (l = Process_msg \<longrightarrow> Suc (length (processed d)) \<le> length (processed e) \<or> length (sent d) \<le> length (processed e))"
  using assms(2)
proof cases
  case (process_wait s)
  from processMsg_None [OF process_wait(4)] assms(1) process_wait(2) show ?thesis by (simp add: d_ok_def)
qed (simp_all add: posted_def Let_def)

lemma run_progress:
  assumes "run (daemon_step env) d ls d'" "d_ok d"
  shows "(\<exists>new. sent d' = sent d @ new) \<and>
    min (length (processed d) + count_list ls Process_msg) (length (sent d)) \<le> length (processed d')"
  using assms
proof (induction rule: run.induct)
  case (run_cons d l e ls d')
  from step_progress [OF run_cons.prems run_cons.hyps(1)] obtain new where
    e: "sent e = sent d @ new" "length (processed d) \<le> length (processed e)"
      "l = Process_msg \<longrightarrow> Suc (length (processed d)) \<le> length (processed e) \<or> length (sent d) \<le> length (processed e)" by blast
  have "(\<exists>new. sent d' = sent e @ new) \<and>
      min (length (processed e) + count_list ls Process_msg) (length (sent e)) \<le> length (processed d')"
    using run_cons.IH d_ok_step [OF run_cons.prems run_cons.hyps(1)] by blast
  with e show ?case by (cases "l = Process_msg") auto
qed (simp add: d_ok_def)

lemma keeps_up:
  assumes "run (daemon_step env) d ls d'" "d_ok d" "length (m_queue (mgr_of d)) \<le> count_list ls Process_msg"
  shows "\<exists>rest. processed d' = sent d @ rest"
proof -
  from run_progress [OF assms(1,2)] obtain new where
    r: "sent d' = sent d @ new" "min (length (processed d) + count_list ls Process_msg) (length (sent d)) \<le> length (processed d')" by blast
  have "length (sent d) = length (processed d) + length (m_queue (mgr_of d))" using assms(2) by (simp add: d_ok_def)
  with r(2) assms(3) have len: "length (sent d) \<le> length (processed d')" by simp
  have "sent d @ new = processed d' @ map q_event (m_queue (mgr_of d'))"
    using daemon.run_inv [OF assms(1,2)] r(1) by (simp add: d_ok_def)
  then have "take (length (sent d)) (processed d') = sent d"
    using len by (metis append_eq_append_conv_if append_take_drop_id length_take min.absorb2)
  then show ?thesis by (metis append_take_drop_id)
qed

section \<open>Properties\<close>

text \<open>
  C7: No thread of the daemon faults. With a sane clock, services that reply as documented, a working
  bus and a configuration of known types and readable stores, a fresh process starts without a
  fault; and after every interleaving of fewer than a thousand million steps of its threads and
  callbacks, whatever files, network and power do, no thread or callback can end in an exception, a
  null pointer or an overflow, except a query on the bus that passes a null pointer.
\<close>

theorem daemon_never_faults:
  fixes s :: "'w mgr_scheme"
  assumes "sane_clock env" "sane_rpc env" "boot_ok env s" "fresh s"
  shows "\<exists>t. boot env s = (Inr (), t) \<and>
    (\<forall>d0 ls d l e. daemon_init env d0 \<and> mgr_of d0 = t \<and> run (daemon_step env) d0 ls d \<and> length ls < 1000000000 \<and>
       daemon_fault env d l e \<longrightarrow> l = Query None)"
proof -
  from boot_run [OF assms(1,3), of 1000000000] obtain t where
    t: "boot env s = (Inr (), t)" "mgr_wf 1000000000 t" by auto
  have "l = Query None" if d0: "daemon_init env d0" "mgr_of d0 = t" "run (daemon_step env) d0 ls d" "length ls < 1000000000"
    and f: "daemon_fault env d l e" for d0 ls d l e
  proof -
    have "mgr_wf (1 + length ls) (mgr_of d0)" using mgr_wf_mono [OF t(2)] d0(2,4) by simp
    from daemon_run_wf [OF assms(1,2) d0(3) d_ok_init [OF d0(1)] this] no_fault [OF assms(1,2) _ _ f]
    show ?thesis by blast
  qed
  with t(1) show ?thesis by blast
qed

theorem daemon_never_faults_witness:
  "\<exists>t. boot example_env example_mgr = (Inr (), t) \<and> \<not> daemon_fault example_env (start_daemon t) Process_msg NullPointer"
proof -
  from daemon_never_faults [OF example_env_sane(1,2) example_boot_ok example_fresh] obtain t where
    t: "boot example_env example_mgr = (Inr (), t)"
      "\<forall>d0 ls d l e. daemon_init example_env d0 \<and> mgr_of d0 = t \<and> run (daemon_step example_env) d0 ls d \<and>
         length ls < 1000000000 \<and> daemon_fault example_env d l e \<longrightarrow> l = Query None" by blast
  have "\<not> daemon_fault example_env (start_daemon t) Process_msg NullPointer"
    using t(2) [rule_format, of "start_daemon t" "[]" "start_daemon t" Process_msg NullPointer]
      start_daemon_init [OF example_fresh t(1)] run_nil [of "daemon_step example_env" "start_daemon t"]
    by (auto simp: start_daemon_def mgr_of_def)
  with t(1) show ?thesis by blast
qed

text \<open>
  C9: The daemon responds. In every reachable state with messages in the queue the processing thread is
  ready or some sender has still to notify it. In every run from there, whatever else is
  interleaved, in which the processing thread makes as many passes as there were messages, all
  events sent before have been handled; and in a well-behaved environment there is such a run of
  notifications and passes alone.
\<close>

theorem daemon_responsive:
  fixes d :: "'w daemon"
  assumes "reach (daemon_init env) (daemon_step env) d" "sane_clock env" "sane_rpc env"
    and "mgr_wf (length (m_queue (mgr_of d))) (mgr_of d)"
  shows "(m_queue (mgr_of d) \<noteq> [] \<longrightarrow> proc_pc d = Proc_ready \<or> 0 < notifies d) \<and>
    (\<forall>ls d'. run (daemon_step env) d ls d' \<and> length (m_queue (mgr_of d)) \<le> count_list ls Process_msg \<longrightarrow>
       (\<exists>rest. processed d' = sent d @ rest)) \<and>
    (\<exists>ls d'. set ls \<subseteq> {Notify_proc, Process_msg} \<and> run (daemon_step env) d ls d' \<and> processed d' = sent d)"
proof -
  note ok = daemon.reach_inv [OF assms(1)]
  have "proc_pc d = Proc_ready \<or> 0 < notifies d" if "m_queue (mgr_of d) \<noteq> []"
    using ok that by (cases "proc_pc d") (auto simp: d_ok_def)
  with keeps_up [OF _ ok] drains [OF assms(2,3) ok assms(4)] show ?thesis by blast
qed

theorem daemon_responsive_witness:
  "\<exists>(d :: unit daemon) ls d' rest. reach (daemon_init example_env) (daemon_step example_env) d \<and> processed d = [] \<and>
    run (daemon_step example_env) d ls d' \<and> count_list ls Process_msg = 1 \<and>
    processed d' = [eSYSMGR_EVENT_TIMER_EXPIRY] @ rest"
proof -
  from timer_reach obtain d :: "unit daemon" where
    d: "reach (daemon_init example_env) (daemon_step example_env) d" "sent d = [eSYSMGR_EVENT_TIMER_EXPIRY]"
      "processed d = []" "proc_pc d = Proc_ready" "length (m_queue (mgr_of d)) = 1"
      "mgr_wf (length (m_queue (mgr_of d))) (mgr_of d)" by blast
  from drain_ready [OF example_env_sane(1,2) daemon.reach_inv [OF d(1)] d(4,6)] obtain d' where
    r: "run (daemon_step example_env) d [Process_msg] d'" unfolding d(5) by auto
  have "length (m_queue (mgr_of d)) \<le> count_list [Process_msg] Process_msg" "count_list [Process_msg] Process_msg = 1"
    by (simp_all add: d(5))
  with daemon_responsive [OF d(1) example_env_sane(1,2) d(6)] r d(1-3) show ?thesis by metis
qed

end
