(* ===== verification/Locks.thy ===== *)
theory Locks
  imports SysTime_Prelude
begin

text \<open>
  Mutexes. The other theories take a critical section as one step; here the sections are taken
  apart. Every function that runs in a thread is the sequence of its operations on the mutexes and
  of its accesses to the data the threads share; a wait on a condition variable gives its mutex back and
  takes it again. Shown are the absence of deadlocks and of data races, with the two exceptions there
  are. Nothing but the mutexes blocks here: what a wait on a condition variable waits for is the
  business of the theories on the threads.
\<close>

section \<open>Operations\<close>

datatype mutex = G_instance_mutex | G_state_mutex | M_queue_mutex | M_pwrEvtMutexLock | M_pwrEvtQueueLock | Net_mutex

text \<open>
  Shared data: the pointer to the singleton; the members of the manager that change after the start
  (state, quality, source, sources and stores); its queue; the queue of power events; the state of
  the network status that has a mutex (\<open>lastStatus\<close>, \<open>internetUpPending\<close>, \<open>stopProcessing\<close>); and the two
  variables next to it that have none, \<open>thunder_client\<close> and \<open>m_networkeventsubscribed\<close>.
\<close>

datatype shared = PInstance | Manager | Msg_queue | Pwr_queue | Net_state | Thunder_client | Net_subscribed

datatype sync_op = Lock mutex | Unlock mutex | Get shared | Put shared

text \<open>A mutex that its owner may take again.\<close>

definition recursive_mutex :: "mutex \<Rightarrow> bool" where
  "recursive_mutex m \<longleftrightarrow> m = G_state_mutex"

section \<open>The functions\<close>

definition get_instance_ops :: "bool \<Rightarrow> sync_op list" where
  "get_instance_ops first =
     [Lock G_instance_mutex, Get PInstance] @ (if first then [Put PInstance] else []) @ [Get PInstance, Unlock G_instance_mutex]"

definition initialize_ops :: "sync_op list" where
  "initialize_ops = [Lock G_state_mutex, Get Manager, Put Manager, Unlock G_state_mutex]"

text \<open>The handlers and \<open>publishStatus\<close> take no mutex of their own.\<close>

definition runStateMachine_ops :: "bool \<Rightarrow> sync_op list" where
  "runStateMachine_ops has_handler =
     [Lock G_state_mutex, Get Manager] @ (if has_handler then [Put Manager, Get Manager] else []) @ [Unlock G_state_mutex]"

text \<open>\<open>while (predicate) cv.wait(lock)\<close>: \<open>n\<close> times woken, and the predicate read each time.\<close>

definition cv_wait_ops :: "mutex \<Rightarrow> shared \<Rightarrow> nat \<Rightarrow> sync_op list" where
  "cv_wait_ops m v n = Get v # concat (replicate n [Unlock m, Lock m, Get v])"

text \<open>One iteration of \<open>processMsg\<close>: the mutex of the queue is held while the handler runs.\<close>

definition processMsg_ops :: "nat \<Rightarrow> bool \<Rightarrow> sync_op list" where
  "processMsg_ops n has_handler =
     [Lock M_queue_mutex] @ cv_wait_ops M_queue_mutex Msg_queue n @ [Put Msg_queue] @
     runStateMachine_ops has_handler @ [Unlock M_queue_mutex]"

definition sendMessage_ops :: "sync_op list" where
  "sendMessage_ops = [Lock M_queue_mutex, Put Msg_queue, Unlock M_queue_mutex]"

definition getTimeStatus_ops :: "bool \<Rightarrow> sync_op list" where
  "getTimeStatus_ops first = get_instance_ops first @ [Lock G_state_mutex, Get Manager, Unlock G_state_mutex]"

definition deepsleepoff_ops :: "sync_op list" where
  "deepsleepoff_ops = [Lock G_state_mutex, Get Manager, Put Manager, Get Manager, Unlock G_state_mutex]"

definition powerhandler_ops :: "bool \<Rightarrow> bool \<Rightarrow> sync_op list" where
  "powerhandler_ops first off = get_instance_ops first @ (if off then deepsleepoff_ops else [])"

definition pwrEventHandler_ops :: "sync_op list" where
  "pwrEventHandler_ops = [Lock M_pwrEvtQueueLock, Put Pwr_queue, Unlock M_pwrEvtQueueLock]"

text \<open>\<open>sysTimeMgrHandlePwrEventData\<close>: no message, or one for the registered function.\<close>

definition handlePwrEventData_ops :: "(bool \<times> bool) option \<Rightarrow> sync_op list" where
  "handlePwrEventData_ops ev = (case ev of None \<Rightarrow> [] | Some (first, off) \<Rightarrow> powerhandler_ops first off)"

text \<open>
  One iteration of the power event thread: the predicate of the wait reads the queue of events with
  the mutex of the condition variable; the inner loop handles \<open>evs\<close> and gives the mutex of the queue
  back for each.
\<close>

definition pwrEventHandlingThread_ops :: "nat \<Rightarrow> (bool \<times> bool) option list \<Rightarrow> sync_op list" where
  "pwrEventHandlingThread_ops n evs =
     [Lock M_pwrEvtMutexLock] @ cv_wait_ops M_pwrEvtMutexLock Pwr_queue n @ [Unlock M_pwrEvtMutexLock] @
     [Lock M_pwrEvtQueueLock, Get Pwr_queue] @
     concat (map (\<lambda>ev. [Put Pwr_queue, Unlock M_pwrEvtQueueLock] @ handlePwrEventData_ops ev @
       [Lock M_pwrEvtQueueLock, Get Pwr_queue]) evs) @
     [Unlock M_pwrEvtQueueLock]"

definition deinitPwrEvt_ops :: "sync_op list" where
  "deinitPwrEvt_ops = [Lock M_pwrEvtMutexLock, Unlock M_pwrEvtMutexLock, Lock M_pwrEvtQueueLock, Put Pwr_queue, Unlock M_pwrEvtQueueLock]"

definition internetStatusChange_ops :: "bool \<Rightarrow> sync_op list" where
  "internetStatusChange_ops connected =
     [Lock Net_mutex, Get Net_state, Put Net_state] @ (if connected then [Put Net_state] else []) @ [Unlock Net_mutex]"

definition eventProcessingLoop_ops :: "nat \<Rightarrow> bool \<Rightarrow> sync_op list" where
  "eventProcessingLoop_ops n stop =
     [Lock Net_mutex] @ cv_wait_ops Net_mutex Net_state n @ [Get Net_state] @ (if stop then [] else [Put Net_state]) @
     [Unlock Net_mutex]"

text \<open>
  One iteration of the subscription loop. It ends at the test of the loop, at the test of the stop
  flag, with a subscription, or after the timed wait; \<open>wait_until\<close> that runs out leaves the loop of the
  wait, and the flag is read once more. The client may be there already or is created.
\<close>

datatype sub_outcome = Already_subscribed | Stop_requested | Subscribed bool | Retry bool nat bool

definition stop_test_ops :: "sync_op list" where
  "stop_test_ops = [Lock Net_mutex, Get Net_state, Unlock Net_mutex]"

definition attempt_ops :: "bool \<Rightarrow> bool \<Rightarrow> sync_op list" where
  "attempt_ops creates subscribed =
     [Get Thunder_client] @ (if creates then [Put Thunder_client] else []) @ [Get Thunder_client, Get Thunder_client] @
     (if subscribed then [Put Net_subscribed] else [Get Thunder_client, Put Thunder_client])"

definition retry_wait_ops :: "nat \<Rightarrow> bool \<Rightarrow> sync_op list" where
  "retry_wait_ops n timeout = [Lock Net_mutex] @ cv_wait_ops Net_mutex Net_state n @
     (if timeout then [Unlock Net_mutex, Lock Net_mutex] else []) @ [Get Net_state, Unlock Net_mutex]"

definition subscribe_ops :: "sub_outcome \<Rightarrow> sync_op list" where
  "subscribe_ops r = Get Net_subscribed # (case r of
       Already_subscribed \<Rightarrow> []
     | Stop_requested \<Rightarrow> stop_test_ops
     | Subscribed creates \<Rightarrow> stop_test_ops @ attempt_ops creates True
     | Retry creates n timeout \<Rightarrow> stop_test_ops @ attempt_ops creates False @ retry_wait_ops n timeout)"

text \<open>The destructor, without a client or with one to unsubscribe, delete and reset.\<close>

definition destroy_network_ops :: "bool \<Rightarrow> sync_op list" where
  "destroy_network_ops client = [Lock Net_mutex, Put Net_state, Unlock Net_mutex, Get Thunder_client] @
     (if client then [Get Thunder_client, Get Thunder_client, Put Thunder_client] else [])"

section \<open>The threads\<close>

text \<open>
  The threads of the daemon and those of the bus, the power controller and the network client, in
  which the callbacks run; of these there may be any number.
\<close>

datatype thread =
    Main_thread | Process_thr | Timer_thr | Path_thr | Nw_process_thr | Nw_subscribe_thr | Pwr_event_thr
  | Library_thr nat

inductive thread_program :: "thread \<Rightarrow> sync_op list \<Rightarrow> bool" where
  start: "thread_program Main_thread (get_instance_ops first @ initialize_ops)"
| exit_network: "thread_program Main_thread (destroy_network_ops client)"
| exit_power: "thread_program Main_thread deinitPwrEvt_ops"
| process: "thread_program Process_thr (processMsg_ops n has_handler)"
| timer: "thread_program Timer_thr sendMessage_ops"
| path: "thread_program Path_thr sendMessage_ops"
| nw_process: "thread_program Nw_process_thr (eventProcessingLoop_ops n stop)"
| nw_subscribe: "thread_program Nw_subscribe_thr (subscribe_ops r)"
| pwr_event: "thread_program Pwr_event_thr (pwrEventHandlingThread_ops n evs)"
| query: "thread_program (Library_thr k) (getTimeStatus_ops first)"
| iarm_power: "thread_program (Library_thr k) (powerhandler_ops first off)"
| pwr_callback: "thread_program (Library_thr k) pwrEventHandler_ops"
| nw_callback: "thread_program (Library_thr k) (internetStatusChange_ops connected)"

text \<open>What each thread has still to do, and the mutexes it holds.\<close>

record 't lock_state =
  todo :: "'t \<Rightarrow> sync_op list"
  held :: "'t \<Rightarrow> mutex list"

definition available :: "mutex \<Rightarrow> 't \<Rightarrow> 't lock_state \<Rightarrow> bool" where
  "available m t s \<longleftrightarrow> (\<forall>u. u \<noteq> t \<longrightarrow> m \<notin> set (held s u)) \<and> (m \<in> set (held s t) \<longrightarrow> recursive_mutex m)"

datatype 't lock_label = Begin 't | Exec 't

inductive lock_step :: "('t \<Rightarrow> sync_op list \<Rightarrow> bool) \<Rightarrow> 't lock_state \<Rightarrow> 't lock_label \<Rightarrow> 't lock_state \<Rightarrow> bool"
  for program where
  begin_program: "todo s t = [] \<Longrightarrow> program t ops \<Longrightarrow> lock_step program s (Begin t) (s\<lparr>todo := (todo s)(t := ops)\<rparr>)"
| acquire: "todo s t = Lock m # ops \<Longrightarrow> available m t s \<Longrightarrow>
    lock_step program s (Exec t) (s\<lparr>todo := (todo s)(t := ops), held := (held s)(t := m # held s t)\<rparr>)"
| release: "todo s t = Unlock m # ops \<Longrightarrow> m \<in> set (held s t) \<Longrightarrow>
    lock_step program s (Exec t) (s\<lparr>todo := (todo s)(t := ops), held := (held s)(t := remove1 m (held s t))\<rparr>)"
| get: "todo s t = Get v # ops \<Longrightarrow> lock_step program s (Exec t) (s\<lparr>todo := (todo s)(t := ops)\<rparr>)"
| put: "todo s t = Put v # ops \<Longrightarrow> lock_step program s (Exec t) (s\<lparr>todo := (todo s)(t := ops)\<rparr>)"

inductive_cases lock_stepE: "lock_step program s l s'"

definition all_idle :: "'t lock_state \<Rightarrow> bool" where
  "all_idle s \<longleftrightarrow> (\<forall>t. todo s t = [] \<and> held s t = [])"

text \<open>The next operation of a thread accesses some data, or writes it.\<close>

definition accesses :: "'t lock_state \<Rightarrow> 't \<Rightarrow> shared \<Rightarrow> bool" where
  "accesses s t v \<longleftrightarrow> (\<exists>ops. todo s t = Get v # ops \<or> todo s t = Put v # ops)"

definition writes :: "'t lock_state \<Rightarrow> 't \<Rightarrow> shared \<Rightarrow> bool" where
  "writes s t v \<longleftrightarrow> (\<exists>ops. todo s t = Put v # ops)"

section \<open>The discipline\<close>

text \<open>
  Mutexes are taken in the order of a rank, given back in the end, and data that has a guard is
  accessed with the guard held. Data that has an owner is accessed by that thread only.
\<close>

fun ordered :: "(mutex \<Rightarrow> nat) \<Rightarrow> (shared \<Rightarrow> mutex option) \<Rightarrow> mutex list \<Rightarrow> sync_op list \<Rightarrow> bool" where
  "ordered rank guard hs [] \<longleftrightarrow> hs = []"
| "ordered rank guard hs (Lock m # ops) \<longleftrightarrow> (\<forall>h \<in> set hs. rank h < rank m) \<and> ordered rank guard (m # hs) ops"
| "ordered rank guard hs (Unlock m # ops) \<longleftrightarrow> m \<in> set hs \<and> ordered rank guard (remove1 m hs) ops"
| "ordered rank guard hs (Get v # ops) \<longleftrightarrow> set_option (guard v) \<subseteq> set hs \<and> ordered rank guard hs ops"
| "ordered rank guard hs (Put v # ops) \<longleftrightarrow> set_option (guard v) \<subseteq> set hs \<and> ordered rank guard hs ops"

locale lock_discipline =
  fixes program :: "'t \<Rightarrow> sync_op list \<Rightarrow> bool"
    and rank :: "mutex \<Rightarrow> nat"
    and guard :: "shared \<Rightarrow> mutex option"
    and owner :: "shared \<Rightarrow> 't option"
  assumes disciplined: "program t ops \<Longrightarrow> ordered rank guard [] ops"
    and owned: "program t ops \<Longrightarrow> c \<in> set ops \<Longrightarrow> c \<in> {Get v, Put v} \<Longrightarrow> owner v = Some u \<Longrightarrow> t = u"
begin

definition lock_inv :: "'t lock_state \<Rightarrow> bool" where
  "lock_inv s \<longleftrightarrow> (\<forall>t. ordered rank guard (held s t) (todo s t)) \<and>
     (\<forall>t u m. m \<in> set (held s t) \<and> m \<in> set (held s u) \<longrightarrow> t = u)"

lemma lock_inv_excl: "lock_inv s \<Longrightarrow> m \<in> set (held s t) \<Longrightarrow> m \<in> set (held s u) \<Longrightarrow> t = u"
  unfolding lock_inv_def by blast

lemma lock_inv_step:
  assumes "lock_inv s" "lock_step program s l s'"
  shows "lock_inv s'"
  using assms(2)
proof cases
  case (begin_program t ops)
  moreover have "held s t = []" using assms(1) begin_program(3) unfolding lock_inv_def by (metis ordered.simps(1))
  ultimately show ?thesis using assms(1) disciplined by (auto simp: lock_inv_def)
next
  case (acquire t m ops)
  have new: "ordered rank guard (m # held s t) ops"
    using assms(1) acquire(3) unfolding lock_inv_def by (metis ordered.simps(2))
  have excl: "x = y" if "k \<in> set (held s' x)" "k \<in> set (held s' y)" for k x y
  proof (cases "k = m")
    case True
    have "z = t" if "m \<in> set (held s' z)" for z using that acquire(2,4) by (auto simp: available_def split: if_splits)
    then have "x = t" "y = t" using that True by blast+
    then show ?thesis by simp
  next
    case False
    then have "k \<in> set (held s z) \<longleftrightarrow> k \<in> set (held s' z)" for z by (simp add: acquire(2))
    with that show ?thesis by (metis lock_inv_excl [OF assms(1)])
  qed
  have "ordered rank guard (held s' u) (todo s' u)" for u
    using assms(1) new by (simp add: acquire(2) lock_inv_def)
  with excl show ?thesis unfolding lock_inv_def by blast
next
  case (release t m ops)
  moreover have "ordered rank guard (remove1 m (held s t)) ops"
    using assms(1) release(3) unfolding lock_inv_def by (metis ordered.simps(3))
  moreover have "set (remove1 m (held s t)) \<subseteq> set (held s t)" by (rule set_remove1_subset)
  ultimately show ?thesis using assms(1) by (fastforce simp: lock_inv_def)
next
  case (get t v ops)
  moreover have "ordered rank guard (held s t) ops"
    using assms(1) get(3) unfolding lock_inv_def by (metis ordered.simps(4))
  ultimately show ?thesis using assms(1) by (auto simp: lock_inv_def)
next
  case (put t v ops)
  moreover have "ordered rank guard (held s t) ops"
    using assms(1) put(3) unfolding lock_inv_def by (metis ordered.simps(5))
  ultimately show ?thesis using assms(1) by (auto simp: lock_inv_def)
qed

lemma reach_lock_inv: "reach all_idle (lock_step program) s \<Longrightarrow> lock_inv s"
proof (induction rule: reach.induct)
  case (reach_init s)
  then show ?case by (simp add: all_idle_def lock_inv_def)
qed (blast intro: lock_inv_step)

text \<open>Only a mutex that is not available stops a thread.\<close>

lemma exec_enabled:
  assumes "lock_inv s" "todo s t = c # ops" "\<And>m. c = Lock m \<Longrightarrow> available m t s"
  shows "\<exists>s'. lock_step program s (Exec t) s'"
proof (cases c)
  case (Unlock m)
  then have "m \<in> set (held s t)" using assms(1,2) unfolding lock_inv_def by (metis ordered.simps(3))
  from release [OF _ this, of ops] Unlock assms(2) show ?thesis by fastforce
next
  case (Lock m)
  from acquire [OF _ assms(3) [OF this], of ops] Lock assms(2) show ?thesis by fastforce
next
  case (Get v)
  from get [of s t v ops] Get assms(2) show ?thesis by fastforce
next
  case (Put v)
  from put [of s t v ops] Put assms(2) show ?thesis by fastforce
qed

text \<open>
  When some thread has work to do, some thread that has can do its next operation: the one that
  holds the mutex of the highest rank, if any is held.
\<close>

lemma deadlock_free:
  assumes "lock_inv s" "todo s t \<noteq> []"
  shows "\<exists>u. todo s u \<noteq> [] \<and> (\<exists>s'. lock_step program s (Exec u) s')"
proof (cases "\<exists>u. held s u \<noteq> []")
  case False
  then have "available m t s" for m by (simp add: available_def)
  with exec_enabled [OF assms(1)] assms(2) show ?thesis by (metis neq_Nil_conv)
next
  case True
  let ?P = "\<lambda>m. \<exists>u. m \<in> set (held s u)"
  have bound: "rank m \<le> Max (range rank)" for m
  proof -
    have "UNIV = {G_instance_mutex, G_state_mutex, M_queue_mutex, M_pwrEvtMutexLock, M_pwrEvtQueueLock, Net_mutex}"
      using mutex.exhaust by blast
    then have "finite (range rank)" by (metis finite.emptyI finite_imageI finite_insert)
    then show ?thesis by (intro Max_ge) auto
  qed
  from True obtain m0 where "?P m0" by (metis list.set_intros(1) neq_Nil_conv)
  from ex_has_greatest_nat [of ?P m0 rank "Suc (Max (range rank))", OF this] bound
  obtain m u where u: "m \<in> set (held s u)" "\<And>m'. ?P m' \<Longrightarrow> rank m' \<le> rank m"
    by (metis le_imp_less_Suc)
  have ord: "ordered rank guard (held s u) (todo s u)" using assms(1) by (simp add: lock_inv_def)
  then have "todo s u \<noteq> []" using u(1) by (cases "todo s u") auto
  then obtain c ops where c: "todo s u = c # ops" by (metis neq_Nil_conv)
  have free: "available m' u s" if "c = Lock m'" for m'
  proof -
    have "rank m < rank m'" using ord u(1) by (simp add: c that)
    with u(2) show ?thesis by (force simp: available_def)
  qed
  have "\<exists>s'. lock_step program s (Exec u) s'" by (rule exec_enabled [OF assms(1) c]) (rule free)
  moreover have "todo s u \<noteq> []" by (simp add: c)
  ultimately show ?thesis by (rule_tac x = u in exI) (rule conjI)
qed

text \<open>Only the owner is about to access what it owns.\<close>

definition own_inv :: "'t lock_state \<Rightarrow> bool" where
  "own_inv s \<longleftrightarrow> (\<forall>t c v u. c \<in> set (todo s t) \<and> c \<in> {Get v, Put v} \<and> owner v = Some u \<longrightarrow> t = u)"

lemma own_inv_shrinks:
  assumes "own_inv s" "todo s t = c # ops" "todo s' = (todo s)(t := ops)"
  shows "own_inv s'"
proof -
  have "set (todo s' u) \<subseteq> set (todo s u)" for u using assms(2,3) by auto
  with assms(1) show ?thesis unfolding own_inv_def by blast
qed

lemma own_inv_step:
  assumes "own_inv s" "lock_step program s l s'"
  shows "own_inv s'"
  using assms(2)
proof cases
  case (begin_program t ops)
  have "u = x" if "c \<in> set (todo s' u)" "c \<in> {Get v, Put v}" "owner v = Some x" for u c v x
  proof (cases "u = t")
    case True
    with that begin_program owned [of t ops] show ?thesis by simp
  next
    case False
    with that begin_program(2) assms(1) show ?thesis unfolding own_inv_def by auto
  qed
  then show ?thesis unfolding own_inv_def by blast
qed (auto intro: own_inv_shrinks [OF assms(1)])

lemma reach_own_inv: "reach all_idle (lock_step program) s \<Longrightarrow> own_inv s"
proof (induction rule: reach.induct)
  case (reach_init s)
  then show ?case by (simp add: own_inv_def all_idle_def)
qed (rule own_inv_step)

lemma owner_only:
  assumes "own_inv s" "owner v = Some u" "accesses s t v"
  shows "t = u"
proof -
  from assms(3) obtain c where "c \<in> set (todo s t)" "c \<in> {Get v, Put v}" by (fastforce simp: accesses_def)
  with assms(1,2) show ?thesis unfolding own_inv_def by blast
qed

text \<open>Two threads never access guarded data at the same time.\<close>

lemma race_free:
  assumes "lock_inv s" "guard v = Some m" "accesses s t v" "accesses s u v"
  shows "t = u"
proof -
  have "m \<in> set (held s w)" if "accesses s w v" for w
    using assms(1,2) that unfolding lock_inv_def accesses_def
    by (metis ordered.simps(4,5) option.set_intros subsetD)
  with assms(3,4) lock_inv_excl [OF assms(1)] show ?thesis by blast
qed

end

section \<open>The daemon keeps it\<close>

text \<open>
  The order in which the daemon nests its mutexes, and the mutex that guards each piece of data. The
  queue of power events has none: the predicate of the wait reads it with another mutex than the
  callback; nor has the client of the network manager. The flag of the subscription has no mutex, but
  belongs to the subscription thread.
\<close>

definition lock_rank :: "mutex \<Rightarrow> nat" where
  "lock_rank m = (case m of M_queue_mutex \<Rightarrow> 0 | G_state_mutex \<Rightarrow> 1 | _ \<Rightarrow> 2)"

definition lock_guard :: "shared \<Rightarrow> mutex option" where
  "lock_guard v = (case v of PInstance \<Rightarrow> Some G_instance_mutex | Manager \<Rightarrow> Some G_state_mutex
     | Msg_queue \<Rightarrow> Some M_queue_mutex | Net_state \<Rightarrow> Some Net_mutex
     | Pwr_queue \<Rightarrow> None | Thunder_client \<Rightarrow> None | Net_subscribed \<Rightarrow> None)"

definition data_owner :: "shared \<Rightarrow> thread option" where
  "data_owner v = (if v = Net_subscribed then Some Nw_subscribe_thr else None)"

text \<open>A piece of a program that holds the same mutexes at its end as at its start.\<close>

definition balanced :: "mutex list \<Rightarrow> sync_op list \<Rightarrow> bool" where
  "balanced hs ops \<longleftrightarrow> (\<forall>rest. ordered lock_rank lock_guard hs rest \<longrightarrow> ordered lock_rank lock_guard hs (ops @ rest))"

lemma balanced_Nil: "balanced hs []"
  by (simp add: balanced_def)

lemma balanced_append: "balanced hs xs \<Longrightarrow> balanced hs ys \<Longrightarrow> balanced hs (xs @ ys)"
  by (simp add: balanced_def)

lemma balanced_concat: "(\<And>x. x \<in> set xss \<Longrightarrow> balanced hs x) \<Longrightarrow> balanced hs (concat xss)"
  by (induction xss) (auto intro: balanced_Nil balanced_append)

lemma balanced_ordered: "balanced [] ops \<Longrightarrow> ordered lock_rank lock_guard [] ops"
  unfolding balanced_def by (metis append_Nil2 ordered.simps(1))

lemmas lock_simps = lock_rank_def lock_guard_def

text \<open>The pieces: functions that are called with no mutex held, and the waits.\<close>

lemma balanced_functions:
  "balanced [] (get_instance_ops first)" "balanced [] initialize_ops" "balanced [] sendMessage_ops"
  "balanced [] deepsleepoff_ops" "balanced [] pwrEventHandler_ops" "balanced [] deinitPwrEvt_ops"
  "balanced [] (internetStatusChange_ops connected)" "balanced [] (destroy_network_ops client)"
  "balanced [M_queue_mutex] (runStateMachine_ops has_handler)"
  by (simp_all add: balanced_def get_instance_ops_def initialize_ops_def sendMessage_ops_def deepsleepoff_ops_def
      pwrEventHandler_ops_def deinitPwrEvt_ops_def internetStatusChange_ops_def destroy_network_ops_def
      runStateMachine_ops_def lock_simps)

lemma balanced_wait:
  assumes "lock_guard v = Some m \<or> lock_guard v = None"
  shows "balanced [m] (cv_wait_ops m v n)"
proof -
  have "balanced [m] [Unlock m, Lock m, Get v]" "balanced [m] [Get v]" using assms by (auto simp: balanced_def)
  then show ?thesis
    using balanced_append [of "[m]" "[Get v]" "concat (replicate n [Unlock m, Lock m, Get v])"]
      balanced_concat [of "replicate n [Unlock m, Lock m, Get v]" "[m]"]
    by (simp add: cv_wait_ops_def)
qed

lemma balanced_power: "balanced [] (powerhandler_ops first off)" "balanced [] (handlePwrEventData_ops ev)"
proof -
  show p: "balanced [] (powerhandler_ops first off)" for first off
    by (simp add: powerhandler_ops_def balanced_append balanced_functions)
  show "balanced [] (handlePwrEventData_ops ev)"
    using p by (auto simp: handlePwrEventData_ops_def balanced_Nil split: option.split)
qed

lemma balanced_inside:
  assumes "balanced [m] ops"
  shows "balanced [] ([Lock m] @ ops @ [Unlock m])"
  using assms by (simp add: balanced_def)

lemma balanced_power_event:
  "balanced [M_pwrEvtQueueLock] ([Put Pwr_queue, Unlock M_pwrEvtQueueLock] @ handlePwrEventData_ops ev @
     [Lock M_pwrEvtQueueLock, Get Pwr_queue])"
  using balanced_power(2) [of ev] by (simp add: balanced_def lock_guard_def)

lemma balanced_threads:
  "balanced [] (processMsg_ops n has_handler)" "balanced [] (eventProcessingLoop_ops n stop)"
  "balanced [] (subscribe_ops r)" "balanced [] (pwrEventHandlingThread_ops n evs)"
  "balanced [] (getTimeStatus_ops first)"
proof -
  have put: "balanced [M_queue_mutex] [Put Msg_queue]" "balanced [Net_mutex] ([Get Net_state] @ (if stop then [] else [Put Net_state]))"
    "balanced [M_pwrEvtQueueLock] [Get Pwr_queue]" "balanced [] [Lock Net_mutex, Get Net_state, Unlock Net_mutex]"
    "balanced [] [Lock G_state_mutex, Get Manager, Unlock G_state_mutex]"
    "balanced [Net_mutex] ((if timeout then [Unlock Net_mutex, Lock Net_mutex] else []) @ [Get Net_state])" for timeout
    by (auto simp: balanced_def lock_simps)
  have free: "balanced [] (attempt_ops creates subscribed)" "balanced [] [Get Net_subscribed]" for creates subscribed
    by (auto simp: balanced_def lock_simps attempt_ops_def)
  have wait: "balanced [m] (cv_wait_ops m v n)" if "(m, v) \<in> {(M_queue_mutex, Msg_queue), (Net_mutex, Net_state), (M_pwrEvtMutexLock, Pwr_queue)}"
    for m v n
    using that by (intro balanced_wait) (auto simp: lock_guard_def)
  show "balanced [] (processMsg_ops n has_handler)"
    using balanced_inside [OF balanced_append [OF wait [of M_queue_mutex Msg_queue n]
          balanced_append [OF put(1) balanced_functions(9) [of has_handler]]]]
    by (simp add: processMsg_ops_def)
  show "balanced [] (eventProcessingLoop_ops n stop)"
    using balanced_inside [OF balanced_append [OF wait [of Net_mutex Net_state n] put(2)]]
    by (simp add: eventProcessingLoop_ops_def)
  have retry: "balanced [] (retry_wait_ops n timeout)" for n timeout
    using balanced_inside [OF balanced_append [OF wait [of Net_mutex Net_state] put(6)]] by (simp add: retry_wait_ops_def)
  show "balanced [] (subscribe_ops r)"
    using put(4) by (cases r) (auto simp: subscribe_ops_def stop_test_ops_def [symmetric] free intro!: balanced_append retry
        balanced_append [of "[]" "[Get Net_subscribed]", simplified])
  have "balanced [M_pwrEvtQueueLock] (concat (map (\<lambda>ev. [Put Pwr_queue, Unlock M_pwrEvtQueueLock] @ handlePwrEventData_ops ev @
       [Lock M_pwrEvtQueueLock, Get Pwr_queue]) evs))"
    by (intro balanced_concat) (use balanced_power_event in auto)
  note balanced_append [OF balanced_inside [OF wait [of M_pwrEvtMutexLock Pwr_queue n]]
      balanced_inside [OF balanced_append [OF put(3) this]]]
  then show "balanced [] (pwrEventHandlingThread_ops n evs)"
    by (simp add: pwrEventHandlingThread_ops_def)
  show "balanced [] (getTimeStatus_ops first)"
    using balanced_append [OF balanced_functions(1) put(5)] by (simp add: getTimeStatus_ops_def)
qed

text \<open>The flag of the subscription is used in no other program.\<close>

lemma wait_accesses: "Get v \<in> set (cv_wait_ops m w n) \<longleftrightarrow> v = w" "Put v \<notin> set (cv_wait_ops m w n)"
  by (auto simp: cv_wait_ops_def)

lemmas not_subscribed = wait_accesses get_instance_ops_def initialize_ops_def runStateMachine_ops_def processMsg_ops_def
  sendMessage_ops_def getTimeStatus_ops_def deepsleepoff_ops_def powerhandler_ops_def pwrEventHandler_ops_def
  handlePwrEventData_ops_def pwrEventHandlingThread_ops_def deinitPwrEvt_ops_def internetStatusChange_ops_def
  eventProcessingLoop_ops_def destroy_network_ops_def

interpretation locks: lock_discipline thread_program lock_rank lock_guard data_owner
proof unfold_locales
  fix t ops assume "thread_program t ops"
  then show "ordered lock_rank lock_guard [] ops"
    by cases (auto intro!: balanced_ordered balanced_append balanced_functions balanced_power balanced_threads)
next
  fix t ops c v u assume "thread_program t ops" "c \<in> set ops" "c \<in> {Get v, Put v}" "data_owner v = Some u"
  then have "v = Net_subscribed" "u = Nw_subscribe_thr" "Get Net_subscribed \<in> set ops \<or> Put Net_subscribed \<in> set ops"
    by (auto simp: data_owner_def split: if_splits)
  with \<open>thread_program t ops\<close> show "t = u" by cases (auto simp: not_subscribed split: option.splits if_splits)
qed

section \<open>Properties\<close>

text \<open>States in which one thread has begun, and has taken its first mutex.\<close>

lemma reach_begin:
  assumes "thread_program t ops"
  shows "\<exists>s. reach all_idle (lock_step thread_program) s \<and> todo s t = ops \<and> (\<forall>u. held s u = []) \<and>
    (\<forall>u. u \<noteq> t \<longrightarrow> todo s u = [])"
proof -
  define s0 :: "thread lock_state" where "s0 = \<lparr>todo = (\<lambda>_. []), held = (\<lambda>_. [])\<rparr>"
  have "lock_step thread_program s0 (Begin t) (s0\<lparr>todo := (todo s0)(t := ops)\<rparr>)"
    using assms by (intro begin_program) (simp_all add: s0_def)
  with reach_init [of all_idle s0] reach_step
  have "reach all_idle (lock_step thread_program) (s0\<lparr>todo := (todo s0)(t := ops)\<rparr>)"
    by (metis all_idle_def lock_state.select_convs s0_def)
  moreover have "todo (s0\<lparr>todo := (todo s0)(t := ops)\<rparr>) t = ops" "\<forall>u. held (s0\<lparr>todo := (todo s0)(t := ops)\<rparr>) u = []"
    "\<forall>u. u \<noteq> t \<longrightarrow> todo (s0\<lparr>todo := (todo s0)(t := ops)\<rparr>) u = []"
    by (simp_all add: s0_def)
  ultimately show ?thesis by metis
qed

lemma reach_begin_acquire:
  assumes "thread_program t (Lock m # ops)"
  shows "\<exists>s. reach all_idle (lock_step thread_program) s \<and> todo s t = ops"
proof -
  obtain s where s: "reach all_idle (lock_step thread_program) s" "todo s t = Lock m # ops" "\<forall>u. held s u = []"
    using reach_begin [OF assms] by blast
  from s(3) have "available m t s" by (simp add: available_def)
  from reach_step [OF s(1) acquire [OF s(2) this]]
  show ?thesis by (rule_tac x = "s\<lparr>todo := (todo s)(t := ops), held := (held s)(t := m # held s t)\<rparr>" in exI) simp
qed

text \<open>
  C13: The mutexes of the daemon do not deadlock. In every reachable state of all threads and callbacks,
  of which there may be any number, when some thread has work to do, some thread that has can make
  its next operation; mutexes are held only inside a function, so none is held when all are idle.
\<close>

theorem no_deadlock:
  assumes "reach all_idle (lock_step thread_program) s"
  shows "(todo s t \<noteq> [] \<longrightarrow> (\<exists>u. todo s u \<noteq> [] \<and> (\<exists>s'. lock_step thread_program s (Exec u) s'))) \<and>
    (todo s t = [] \<longrightarrow> held s t = [])"
proof -
  note inv = locks.reach_lock_inv [OF assms]
  have "held s t = []" if "todo s t = []"
    using inv that unfolding locks.lock_inv_def by (metis ordered.simps(1))
  with locks.deadlock_free [OF inv] show ?thesis by blast
qed

theorem no_deadlock_witness:
  "\<exists>s. reach all_idle (lock_step thread_program) s \<and> todo s Process_thr = processMsg_ops 1 True \<and>
     (\<exists>u. todo s u \<noteq> [] \<and> (\<exists>s'. lock_step thread_program s (Exec u) s'))"
proof -
  obtain s where s: "reach all_idle (lock_step thread_program) s" "todo s Process_thr = processMsg_ops 1 True"
    using reach_begin [OF thread_program.process] by blast
  moreover from s(2) have "todo s Process_thr \<noteq> []" by (simp add: processMsg_ops_def)
  ultimately show ?thesis using no_deadlock [OF s(1), of Process_thr] by blast
qed

text \<open>
  C15: Which shared data is not raced for. In every reachable state of all threads and callbacks, two
  different threads are never both about to access the pointer to the manager, its members that
  change after the start, its message queue, the network status behind its mutex (last status, pending
  signal, stop flag) or the flag of the subscription, not even to read. The queue of power events and
  the client of the network manager are the exceptions.
\<close>

theorem no_data_race:
  assumes "reach all_idle (lock_step thread_program) s" "v \<noteq> Pwr_queue" "v \<noteq> Thunder_client"
    and "accesses s t v" "accesses s u v"
  shows "t = u"
proof (cases "v = Net_subscribed")
  case True
  note only = locks.owner_only [OF locks.reach_own_inv [OF assms(1)], of v Nw_subscribe_thr]
  from True only [OF _ assms(4)] only [OF _ assms(5)] show ?thesis by (simp add: data_owner_def)
next
  case False
  with assms(2,3) obtain m where "lock_guard v = Some m" by (cases v) (auto simp: lock_guard_def)
  from locks.race_free [OF locks.reach_lock_inv [OF assms(1)] this assms(4,5)] show ?thesis .
qed

theorem no_data_race_witness:
  "\<exists>s. reach all_idle (lock_step thread_program) s \<and> writes s Timer_thr Msg_queue \<and>
     (\<forall>u. u = Timer_thr \<or> \<not> accesses s u Msg_queue)"
proof -
  obtain s where s: "reach all_idle (lock_step thread_program) s" "todo s Timer_thr = [Put Msg_queue, Unlock M_queue_mutex]"
    using reach_begin_acquire [of Timer_thr M_queue_mutex] thread_program.timer unfolding sendMessage_ops_def by metis
  then have "accesses s Timer_thr Msg_queue" "writes s Timer_thr Msg_queue" by (simp_all add: accesses_def writes_def)
  with s(1) no_data_race [OF s(1) _ _ _ this(1)] show ?thesis by blast
qed




text \<open>
  C37: The queue of power events is raced for. A state is reachable in which the power event thread is
  about to read the queue in the predicate of its wait while a callback is about to write it: they
  hold different mutexes, so the behaviour of the program is undefined.
\<close>

theorem power_queue_race:
  "\<exists>s. reach all_idle (lock_step thread_program) s \<and> accesses s Pwr_event_thr Pwr_queue \<and>
     writes s (Library_thr 0) Pwr_queue \<and>
     held s Pwr_event_thr = [M_pwrEvtMutexLock] \<and> held s (Library_thr 0) = [M_pwrEvtQueueLock]"
proof -
  define s0 :: "thread lock_state" where "s0 = \<lparr>todo = (\<lambda>_. []), held = (\<lambda>_. [])\<rparr>"
  define s1 where "s1 = s0\<lparr>todo := (todo s0)(Pwr_event_thr := pwrEventHandlingThread_ops 0 [])\<rparr>"
  define s2 where "s2 = s1\<lparr>todo := (todo s1)(Pwr_event_thr := tl (todo s1 Pwr_event_thr)),
    held := (held s1)(Pwr_event_thr := M_pwrEvtMutexLock # held s1 Pwr_event_thr)\<rparr>"
  define s3 where "s3 = s2\<lparr>todo := (todo s2)(Library_thr 0 := pwrEventHandler_ops)\<rparr>"
  define s4 where "s4 = s3\<lparr>todo := (todo s3)(Library_thr 0 := tl (todo s3 (Library_thr 0))),
    held := (held s3)(Library_thr 0 := M_pwrEvtQueueLock # held s3 (Library_thr 0))\<rparr>"
  note defs = s0_def s1_def s2_def s3_def s4_def pwrEventHandlingThread_ops_def pwrEventHandler_ops_def cv_wait_ops_def
  have "reach all_idle (lock_step thread_program) s0" by (rule reach_init) (simp add: all_idle_def s0_def)
  moreover have "lock_step thread_program s0 (Begin Pwr_event_thr) s1"
    unfolding s1_def by (rule begin_program) (simp_all add: s0_def thread_program.pwr_event)
  moreover have "lock_step thread_program s1 (Exec Pwr_event_thr) s2"
    unfolding s2_def by (rule acquire) (simp_all add: defs available_def)
  moreover have "lock_step thread_program s2 (Begin (Library_thr 0)) s3"
    unfolding s3_def by (rule begin_program) (simp_all add: s0_def s1_def s2_def thread_program.pwr_callback)
  moreover have "lock_step thread_program s3 (Exec (Library_thr 0)) s4"
    unfolding s4_def by (rule acquire) (simp_all add: defs available_def)
  ultimately have "reach all_idle (lock_step thread_program) s4" by (blast intro: reach_step)
  moreover have "accesses s4 Pwr_event_thr Pwr_queue" "writes s4 (Library_thr 0) Pwr_queue"
    "held s4 Pwr_event_thr = [M_pwrEvtMutexLock]" "held s4 (Library_thr 0) = [M_pwrEvtQueueLock]"
    by (simp_all add: accesses_def writes_def defs)
  ultimately show ?thesis by blast
qed

end
