(* ===== verification/Mgr_Clients.thy ===== *)
theory Mgr_Clients
  imports Mgr_Boot
begin

text \<open>
  What the clients of the daemon see: the messages it broadcasts for each event, its answers to
  queries, and what it does to the clock and to the stores on a timer event and at the start.
\<close>

section \<open>Broadcasts\<close>

fun broadcast_of :: "xcall \<Rightarrow> TimerMsg list" where
  "broadcast_of (IARM_Bus_BroadcastEvent _ _ m) = [m]"
| "broadcast_of _ = []"

text \<open>All messages the daemon has broadcast so far.\<close>

definition broadcasts :: "'w world_scheme \<Rightarrow> TimerMsg list" where
  "broadcasts s = concat (map broadcast_of (visible_calls s))"

lemma broadcasts_append [simp]:
  "broadcasts (s\<lparr>w_hist := w_hist s @ [(c, r)]\<rparr>) = broadcasts s @ broadcast_of c"
  by (cases c) (simp_all add: broadcasts_def)

lemma broadcast_of_invisible [simp]: "\<not> visible c \<Longrightarrow> broadcast_of c = []"
  by (cases c) simp_all

lemma broadcasts_simps [simp]:
  "broadcasts (s\<lparr>w_fs := f\<rparr>) = broadcasts s" "broadcasts (s\<lparr>w_touched := ts\<rparr>) = broadcasts s"
  "broadcasts (t\<lparr>m_timerSync := x\<rparr>) = broadcasts t" "broadcasts (t\<lparr>m_timerSrc := y\<rparr>) = broadcasts t"
  "broadcasts (t\<lparr>m_state := a\<rparr>) = broadcasts t" "broadcasts (t\<lparr>m_timequality := q\<rparr>) = broadcasts t"
  "broadcasts (t\<lparr>m_timersrc := z\<rparr>) = broadcasts t" "broadcasts (t\<lparr>m_event := e\<rparr>) = broadcasts t"
  by (simp_all add: broadcasts_def)







section \<open>The decision on a timer event\<close>

text \<open>
  The specification of the loop over the sources: the value of the last reference source, and the
  last value other than zero of the other sources, from the list of sources and their answers.
\<close>

definition last_or_zero :: "int list \<Rightarrow> int" where
  "last_or_zero vs = (if vs = [] then 0 else last vs)"

definition reference_time :: "(timeSrc \<times> int) list \<Rightarrow> int" where
  "reference_time vs = last_or_zero [v. (src, v) \<leftarrow> vs, isreference src]"

definition file_time :: "(timeSrc \<times> int) list \<Rightarrow> int" where
  "file_time vs = last_or_zero [v. (src, v) \<leftarrow> vs, \<not> isreference src \<and> v \<noteq> 0]"

definition ask :: "env \<Rightarrow> timeSrc option \<Rightarrow> ('w, timeSrc \<times> int \<times> timeSrc) io" where
  "ask env p = deref p (\<lambda>src. bindM (getTimeSec env src) (\<lambda>(v, src'). ret (src, v, src')))"

definition answers :: "(timeSrc \<times> int \<times> timeSrc) list \<Rightarrow> (timeSrc \<times> int) list" where
  "answers rs = map (\<lambda>(src, v, _). (src, v)) rs"

lemma last_or_zero_snoc [simp]: "last_or_zero (vs @ [v]) = v"
  by (simp add: last_or_zero_def)

lemma times_snoc:
  "reference_time (vs @ [(src, v)]) = (if isreference src then v else reference_time vs)"
  "file_time (vs @ [(src, v)]) = (if \<not> isreference src \<and> v \<noteq> 0 then v else file_time vs)"
  by (simp_all add: reference_time_def file_time_def)

lemma ask_result:
  "ask env p s = (Inr r, u) \<Longrightarrow> \<exists>src v src'. p = Some src \<and> r = (src, v, src') \<and> getTimeSec env src s = (Inr (v, src'), u)"
  by (cases p) (auto simp: ask_def deref_def bindM_run ret_run throwM_run split: prod.splits sum.splits)

lemma read_sources_run:
  assumes "mapM (ask env) ps s = (Inr rs, t)"
  shows "foldM (read_source env) (reference_time (answers qs), file_time (answers qs), ss) ps s =
    (Inr (reference_time (answers (qs @ rs)), file_time (answers (qs @ rs)), ss @ map (\<lambda>(_, _, src). Some src) rs), t)"
  using assms
proof (induction ps arbitrary: s rs qs ss)
  case Nil
  then show ?case by (simp add: ret_run)
next
  case (Cons p ps)
  from Cons.prems obtain r u rs' where r: "ask env p s = (Inr r, u)"
    and rest: "mapM (ask env) ps u = (Inr rs', t)" "rs = r # rs'"
    by (auto simp: bindM_run ret_run split: prod.splits sum.splits)
  from ask_result [OF r] obtain src v src' where
    p: "p = Some src" "r = (src, v, src')" "getTimeSec env src s = (Inr (v, src'), u)" by blast
  have "read_source env (reference_time (answers qs), file_time (answers qs), ss) p s =
    (Inr (reference_time (answers (qs @ [(src, v, src')])), file_time (answers (qs @ [(src, v, src')])), ss @ [Some src']), u)"
    using p by (simp add: read_source_def deref_def bindM_run ret_run answers_def times_snoc)
  with Cons.IH [OF rest(1), of "qs @ [(src, v, src')]" "ss @ [Some src']"] rest(2) p(2) show ?case
    by (simp add: bindM_run)
qed

section \<open>Asking the stores\<close>

lemma ask_stores_run:
  assumes "mapM (\<lambda>p. deref p (sync_getTime env)) ps s = (Inr vs, t)"
  shows "foldM (\<lambda>(v, ys) p. deref p (\<lambda>y. bindM (sync_getTime env y) (\<lambda>(v', y'). ret (v', ys @ [Some y'])))) (v0, ys) ps s =
    (Inr (if vs = [] then v0 else fst (last vs), ys @ map (\<lambda>(_, y). Some y) vs), t)"
  using assms
proof (induction ps arbitrary: s v0 ys vs)
  case Nil
  then show ?case by (simp add: ret_run)
next
  case (Cons p ps)
  from Cons.prems obtain y v' y' u vs' where p: "p = Some y" "sync_getTime env y s = (Inr (v', y'), u)"
    and rest: "mapM (\<lambda>p. deref p (sync_getTime env)) ps u = (Inr vs', t)" "vs = (v', y') # vs'"
    by (cases p) (auto simp: deref_def throwM_run bindM_run ret_run split: prod.splits sum.splits)
  from Cons.IH [OF rest(1), of v' "ys @ [Some y']"] p rest(2) show ?case
    by (simp add: deref_def bindM_run ret_run)
qed

section \<open>The publisher\<close>

definition publishes :: "env \<Rightarrow> 'w mgr_scheme \<Rightarrow> bool" where
  "publishes env s \<longleftrightarrow> (ENABLE_IARM env \<and> \<not> IARM_SUPPORT_DISABLED env \<longrightarrow>
     m_publish s = Some (IarmPublish IARM_BUS_SYSTIME_MGR_NAME))"

lemma connect_bus_publishes:
  fixes s :: "'w mgr_scheme"
  assumes "connect_bus env s = (Inr (), t)"
  shows "publishes env t"
proof (cases "ENABLE_IARM env \<and> \<not> IARM_SUPPORT_DISABLED env")
  case True
  then have split: "connect_bus env = bindM (createPublish env ''iarm'' IARM_BUS_SYSTIME_MGR_NAME) (\<lambda>pub.
      bindM (modM (\<lambda>s. s\<lparr>m_publish := pub\<rparr>)) (\<lambda>_. connect_subs env ''iarm''))"
    by (simp add: connect_bus_def connect_subs_def Let_def)
  obtain u where "createPublish env ''iarm'' IARM_BUS_SYSTIME_MGR_NAME s =
      (Inr (Some (IarmPublish IARM_BUS_SYSTIME_MGR_NAME)), u)"
    using True iarm_connect_run [of env IARM_BUS_SYSTIME_MGR_NAME s]
    by (auto simp: createPublish_def new_IarmPublish_def bindM_run ret_run)
  with assms True have "connect_subs env ''iarm'' (u\<lparr>m_publish := Some (IarmPublish IARM_BUS_SYSTIME_MGR_NAME)\<rparr>) = (Inr (), t)"
    by (simp add: split bindM_run modM_run)
  moreover have "keeps (\<lambda>s :: 'w mgr_scheme. m_publish s) (connect_subs env ''iarm'')"
    unfolding connect_subs_def by (intro keeps_intros | simp)+
  ultimately show ?thesis using keepsD by (fastforce simp: publishes_def)
qed (auto simp: publishes_def)

lemma boot_publishes:
  fixes s :: "'w mgr_scheme"
  assumes "boot env s = (Inr (), t)"
  shows "publishes env t"
proof -
  let ?load = "bindM get_instance (\<lambda>_.
     bindM (whenM (T2_EVENT_ENABLED env) (bindM (call env T2_init) (\<lambda>_. ret ()))) (\<lambda>_.
     bindM (load_config env) (\<lambda>_. bindM (getM m_chronyRfcEnabled) (\<lambda>chrony.
       whenM chrony (bindM (call env Chronyctl_init) (\<lambda>_. ret ()))))))"
  let ?rest = "bindM (modM (\<lambda>s. s\<lparr>m_pathEventMap := path_events (m_pathEventMap s)\<rparr>)) (\<lambda>_.
     bindM (setInitialTime env) (\<lambda>_. modM (\<lambda>s. s\<lparr>stateMachine := fold table_set transitions (stateMachine s),
       m_state := eSYSMGR_STATE_NTP_WAIT\<rparr>)))"
  have split: "boot env = bindM ?load (\<lambda>_. bindM (connect_bus env) (\<lambda>_. ?rest))"
    by (simp add: boot_def initialize_def bindM_assoc)
  obtain x u where u: "?load s = (x, u)" by (cases "?load s")
  obtain y v where v: "connect_bus env u = (y, v)" by (cases "connect_bus env u")
  have y: "y = Inr ()" "?rest v = (Inr (), t)"
    using assms u v unfolding split bindM_run [of ?load] by (cases x; cases y; simp add: bindM_run [of "connect_bus env"])+
  have "keeps (\<lambda>s :: 'w mgr_scheme. m_publish s) ?rest" by (intro keeps_intros | simp)+
  from keepsD [OF this y(2)] connect_bus_publishes [OF v [unfolded y(1)]] show ?thesis
    by (simp add: publishes_def)
qed

interpretation pub: invariant_system "booted env" "mgr_step env" "\<lambda>s. ready s \<and> publishes env s"
proof unfold_locales
  show "ready s \<and> publishes env s" if "booted env s" for s :: "'a mgr_scheme"
    using booted_status [OF that] that boot_publishes by (auto simp: booted_def)
  fix s t :: "'a mgr_scheme" and l assume s: "ready s \<and> publishes env s" and st: "mgr_step env s l t"
  have k: "keeps (\<lambda>s :: 'a mgr_scheme. m_publish s) (handler env f)"
    "keeps (\<lambda>s :: 'a mgr_scheme. m_publish s) (deepsleepoff env)" for f
    by (intro keeps_intros; simp)+
  have "m_publish t = m_publish s"
  proof (cases l)
    case (Handle ev)
    with s st keepsD [OF k(1)] show ?thesis
      by (fastforce simp: runStateMachine_run ready_def split: option.splits)
  next
    case (Power msg)
    with s st powerhandler_keeps [OF _ _ k(2)] show ?thesis by (auto simp: ready_def)
  qed
  with s mgr_step_ready [OF _ st] show "ready t \<and> publishes env t" by (simp add: publishes_def)
qed

section \<open>Properties\<close>



text \<open>
  C14: What a timer event does to the stores. Once all sources have answered, the whole loop of
  \<open>timerExpiry\<close> comes down to one decision: with the time of the last reference source and the last
  time other than zero of the other sources, the stores get the reference time if it is at most ten
  minutes ahead, and zero otherwise. The documents say something else in two cases, which are written
  out: a reference time that is more than ten minutes behind is stored all the same; and when no other
  source has a time, the reference time is discarded and the stores get zero.
\<close>

theorem timerExpiry_decides:
  fixes s :: "'w mgr_scheme"
  assumes "mapM (ask env) (m_timerSrc s) s = (Inr rs, t)"
    and "is_ll (reference_time (answers rs) - file_time (answers rs))"
  defines "u \<equiv> t\<lparr>m_timerSrc := map (\<lambda>(_, _, src). Some src) rs\<rparr>"
  shows "timerExpiry env s = updateTimeSync env
      (if reference_time (answers rs) \<le> file_time (answers rs) + 600 then reference_time (answers rs) else 0) u \<and>
    (reference_time (answers rs) + 600 < file_time (answers rs) \<longrightarrow>
       timerExpiry env s = updateTimeSync env (reference_time (answers rs)) u) \<and>
    ((\<forall>(src, x) \<in> set (answers rs). \<not> isreference src \<longrightarrow> x = 0) \<and> 600 < reference_time (answers rs) \<longrightarrow>
       timerExpiry env s = updateTimeSync env 0 u)"
proof -
  from read_sources_run [OF assms(1), of "[]" "[]"]
  have "foldM (read_source env) (0, 0, []) (m_timerSrc s) s =
    (Inr (reference_time (answers rs), file_time (answers rs), map (\<lambda>(_, _, src). Some src) rs), t)"
    by (simp add: answers_def reference_time_def file_time_def last_or_zero_def)
  with assms(2) have decision: "timerExpiry env s = updateTimeSync env
      (if reference_time (answers rs) \<le> file_time (answers rs) + 600 then reference_time (answers rs) else 0) u"
    by (simp add: timerExpiry_def bindM_run getM_run modM_run checked_ll_def ret_run algebra_simps u_def)
  moreover have "file_time (answers rs) = 0" if "\<forall>(src, x) \<in> set (answers rs). \<not> isreference src \<longrightarrow> x = 0"
  proof -
    have "[v. (src, v) \<leftarrow> answers rs, \<not> isreference src \<and> v \<noteq> 0] = []"
      using that by (auto simp: concat_eq_Nil_conv)
    then show ?thesis by (simp add: file_time_def last_or_zero_def)
  qed
  ultimately show ?thesis by simp
qed

definition ntp_mgr :: mgr where
  "ntp_mgr = example_mgr\<lparr>m_timerSrc := [Some NtpTimeSrc]\<rparr>"

theorem timerExpiry_decides_witness:
  "\<exists>t. timerExpiry example_env ntp_mgr =
    updateTimeSync example_env 0 (t\<lparr>m_timerSrc := [Some NtpTimeSrc]\<rparr>)"
proof -
  obtain t where t: "mapM (ask example_env) (m_timerSrc ntp_mgr) ntp_mgr = (Inr [(NtpTimeSrc, 1700000000, NtpTimeSrc)], t)"
    by (auto simp: ntp_mgr_def ask_def deref_def ntp_getTimeSec_def call_int_def prog_simps
        example_env_def drm_env_def calm_env_def)
  have v: "reference_time (answers [(NtpTimeSrc, 1700000000, NtpTimeSrc)]) = 1700000000"
    "file_time (answers [(NtpTimeSrc, 1700000000, NtpTimeSrc)]) = 0"
    by (simp_all add: reference_time_def file_time_def answers_def last_or_zero_def)
  have "is_ll (1700000000 - 0)" by (simp add: is_ll_def LLONG_MIN_def LLONG_MAX_def)
  with timerExpiry_decides [OF t] v show ?thesis by auto
qed

text \<open>Creating a file with an output stream.\<close>

lemma create_stream_run:
  "create_stream env path t = (Inr (0 \<le> ret_code env (w_hist t) (Open_trunc path)),
    t\<lparr>w_hist := w_hist t @ [(Open_trunc path, ret_code env (w_hist t) (Open_trunc path))],
      w_fs := if 0 \<le> ret_code env (w_hist t) (Open_trunc path)
        then (w_fs t)(path \<mapsto> \<lparr>content = [], mtime = out_int env (w_hist t) (Open_trunc path)\<rparr>) else w_fs t\<rparr>)"
  by (cases "0 \<le> ret_code env (w_hist t) (Open_trunc path)")
    (simp_all add: create_stream_def call_int_def prog_simps put_file_def)

text \<open>
  C22: What the start does to the clock. The time of the start is the answer of the last store. If it is
  zero, or there is no store, the start leaves clock and quality alone and tells the clients nothing,
  contrary to the specification of the start. Otherwise it never sets the clock back: it sets it to
  that time if and only if the clock cannot be read or is not ahead of it, the quality becomes poor,
  and the clients are told so exactly once. In both cases the file that marks the start exists
  afterwards if it can be created.
\<close>

theorem initial_time_never_back:
  fixes s :: "'w mgr_scheme"
  assumes "sane_clock env" "m_publish s = Some (IarmPublish pub)"
    and "mapM (\<lambda>p. deref p (sync_getTime env)) (m_timerSync s) s = (Inr vs, t)"
  defines "v \<equiv> last_or_zero (map fst vs)" and "r \<equiv> ret_code env (w_hist t) (Open_trunc ''/tmp/systimeset'')"
  defines "h \<equiv> w_hist t @ [(Open_trunc ''/tmp/systimeset'', r)]"
  shows "\<exists>u m. setInitialTime env s = (Inr (), u) \<and>
    (0 \<le> r \<longrightarrow> file_exists u ''/tmp/systimeset'') \<and>
    (if v = 0 then visible_calls u = visible_calls s \<and> m_timequality u = m_timequality s
     else m_timequality u = eTIMEQUALILTY_POOR \<and>
       announces m ePUBLISH_TIME_INITIAL ''Poor'' eTIMEQUALILTY_POOR (m_timersrc s) \<and>
       visible_calls u = visible_calls s @
         (if ret_code env h Clock_gettime = 0 \<and> v < out_int env h Clock_gettime then [] else [Clock_settime v]) @
         [IARM_Bus_BroadcastEvent (c_string pub) cTIMER_STATUS_UPDATE m])"
proof -
  let ?p = "\<lambda>s :: 'w mgr_scheme. (visible_calls s, m_publish s, m_timequality s, m_timersrc s)"
  have "keeps ?p (mapM (\<lambda>p. deref p (sync_getTime env)) (m_timerSync s))" by (intro keeps_intros) simp
  note kt = keepsD [OF this assms(3)]
  define t1 where "t1 = t\<lparr>m_timerSync := map (\<lambda>(_, y). Some y) vs\<rparr>"
  obtain x t2 where t2: "create_stream env ''/tmp/systimeset'' t1 = (Inr x, t2)" "w_hist t2 = h" "?p t2 = ?p t1"
    "0 \<le> r \<longrightarrow> file_exists t2 ''/tmp/systimeset''"
    using create_stream_run [of env "''/tmp/systimeset''" t1]
    by (rule that) (simp_all add: h_def r_def t1_def file_exists_def visible_calls_def)
  have "?p t1 = ?p s" using kt by (simp add: t1_def)
  note t2(3) [unfolded this]
  then have k2: "visible_calls t2 = visible_calls s" "m_publish t2 = Some (IarmPublish pub)"
    "m_timequality t2 = m_timequality s" "m_timersrc t2 = m_timersrc s" using assms(2) by simp_all
  have run: "setInitialTime env s = (if v = 0 then (Inr (), t2)
      else initial_clock env v (t2\<lparr>m_timequality := eTIMEQUALILTY_POOR\<rparr>))"
    using ask_stores_run [OF assms(3), of 0 "[]"] t2(1)
    by (simp add: setInitialTime_def bindM_run getM_run modM_run ret_run v_def t1_def last_or_zero_def last_map)
  show ?thesis
  proof (cases "v = 0")
    case True
    with run k2 t2(4) show ?thesis by auto
  next
    case False
    from initial_clock_run [OF assms(1), of "t2\<lparr>m_timequality := eTIMEQUALILTY_POOR\<rparr>" "IarmPublish pub" v] k2 t2(2)
    obtain h' m where "initial_clock env v (t2\<lparr>m_timequality := eTIMEQUALILTY_POOR\<rparr>) =
        (Inr (), t2\<lparr>m_timequality := eTIMEQUALILTY_POOR, w_hist := h'\<rparr>)"
      "announces m ePUBLISH_TIME_INITIAL ''Poor'' eTIMEQUALILTY_POOR (m_timersrc s)"
      "visible_calls (t2\<lparr>m_timequality := eTIMEQUALILTY_POOR, w_hist := h'\<rparr>) = visible_calls s @
         (if ret_code env h Clock_gettime = 0 \<and> v < out_int env h Clock_gettime then [] else [Clock_settime v]) @
         [IARM_Bus_BroadcastEvent (c_string pub) cTIMER_STATUS_UPDATE m]" by auto
    with False run t2(4) show ?thesis
      by (intro exI [of _ "t2\<lparr>m_timequality := eTIMEQUALILTY_POOR, w_hist := h'\<rparr>"] exI [of _ m])
        (simp add: file_exists_def)
  qed
qed

text \<open>A device whose store has an older time than the clock.\<close>

definition stored_mgr :: mgr where
  "stored_mgr = example_mgr\<lparr>m_publish := Some (IarmPublish ''x''), m_timerSync := [Some (TestTimeSync ''/t'')],
     w_fs := [''/t'' \<mapsto> \<lparr>content = show_int 1600000000 @ [newline], mtime = 1\<rparr>]\<rparr>"

theorem initial_time_never_back_witness:
  "\<exists>u m. setInitialTime example_env stored_mgr = (Inr (), u) \<and> file_exists u ''/tmp/systimeset'' \<and>
    m_timequality u = eTIMEQUALILTY_POOR \<and>
    announces m ePUBLISH_TIME_INITIAL ''Poor'' eTIMEQUALILTY_POOR (m_timersrc stored_mgr) \<and>
    visible_calls u = [IARM_Bus_BroadcastEvent ''x'' cTIMER_STATUS_UPDATE m]"
proof -
  have ll: "istream_ll (show_int 1600000000 @ [newline]) = 1600000000"
    by (rule istream_show_int) (simp add: is_ll_def LLONG_MIN_def LLONG_MAX_def)
  have x: "c_string ''x'' = ''x''" by code_simp
  obtain t where t: "mapM (\<lambda>p. deref p (sync_getTime example_env)) (m_timerSync stored_mgr) stored_mgr =
      (Inr [(1600000000, TestTimeSync ''/t'')], t)" "w_fs t = w_fs stored_mgr"
    by (auto simp: stored_mgr_def deref_def test_getTime_def open_read_def prog_simps ll
        example_env_def drm_env_def calm_env_def)
  have "m_publish stored_mgr = Some (IarmPublish ''x'')" "visible_calls stored_mgr = []"
    by (simp_all add: stored_mgr_def example_mgr_def visible_calls_def)
  moreover have "ret_code example_env k Clock_gettime = 0" "out_int example_env k Clock_gettime = 1700000000" for k
    by (simp_all add: example_env_def drm_env_def calm_env_def)
  moreover have "ret_code example_env k (Open_trunc p) = 0" for k p
    by (simp add: example_env_def drm_env_def calm_env_def)
  ultimately show ?thesis
    using initial_time_never_back [OF example_env_sane(1) _ t(1), of "''x''"] by (simp add: x last_or_zero_def)
qed

text \<open>
  C21: A query is answered. In every state a started daemon reaches, the function registered on the bus
  returns zero and fills the caller's message with the code and the name of the current quality, the
  source of time and the time of day when the query came, each terminated within its array, and
  changes nothing but the history of calls.
\<close>

theorem query_answers:
  fixes s :: "'w mgr_scheme"
  assumes "reach (booted env) (mgr_step env) s" "sane_clock env"
    and "length (msg_timerSrc m) = 80" "length (msg_currentTime m) = 80"
  shows "\<exists>h m'. static_getTimeStatus env (Some m) s = (Inr (0, Some m'), s\<lparr>w_hist := h\<rparr>) \<and>
    msg_event m' = msg_event m \<and> msg_quality m' = quality_code (m_timequality s) \<and>
    c_string (msg_message m') = quality_text (m_timequality s) \<and>
    c_string (msg_timerSrc m') = take 79 (c_string (m_timersrc s)) \<and>
    c_string (msg_currentTime m') = show_int (wall_clock env (w_hist s)) \<and>
    length (msg_message m') = 80 \<and> length (msg_timerSrc m') = 80 \<and> length (msg_currentTime m') = 80"
proof -
  have ex: "mgr_exists s" using qual.reach_inv [OF assms(1)] by (simp add: ready_def)
  define v where "v = wall_clock env (w_hist s)"
  obtain h where v: "log_times env s = (Inr v, s\<lparr>w_hist := h\<rparr>)" "valid_time v"
    using log_times_run [OF assms(2)] wall_clock_sane [OF assms(2)] by (auto simp: v_def)
  define m' where "m' = m\<lparr>msg_quality := quality_code (m_timequality s),
       msg_message := put_text (quality_text (m_timequality s)) zeros,
       msg_timerSrc := put_text (m_timersrc s) (msg_timerSrc m),
       msg_currentTime := put_text (show_int v) (msg_currentTime m)\<rparr>"
  have "static_getTimeStatus env (Some m) s = (Inr (0, Some m'), s\<lparr>w_hist := h\<rparr>)"
    using v(1) ex by (simp add: static_getTimeStatus_def get_instance_def getTimeStatus_def deref_def prog_simps m'_def)
  moreover have "take 79 (c_string (quality_text q)) = quality_text q" for q
    by (cases q) (simp_all add: quality_text_def c_string_def nul_def)
  moreover have "length (show_int v) \<le> 79" using show_int_length [OF valid_time_ll [OF v(2)]] by simp
  ultimately show ?thesis
    using assms(3,4) by (auto simp: m'_def v_def [symmetric] c_string_put_text c_string_show_int length_put_text zeros_def
        cTIMER_STATUS_MESSAGE_LENGTH_def)
qed

theorem query_answers_witness:
  "\<exists>(s :: mgr) h m'. reach (booted example_env) (mgr_step example_env) s \<and>
    static_getTimeStatus example_env (Some \<lparr>msg_event = 9, msg_quality = 9, msg_timerSrc = zeros,
      msg_currentTime = zeros, msg_message = zeros\<rparr>) s = (Inr (0, Some m'), s\<lparr>w_hist := h\<rparr>) \<and>
    c_string (msg_message m') = quality_text (m_timequality s) \<and> c_string (msg_currentTime m') = show_int 1700000000"
proof -
  let ?m = "\<lparr>msg_event = 9, msg_quality = 9, msg_timerSrc = zeros, msg_currentTime = zeros, msg_message = zeros\<rparr>"
  obtain s t :: mgr where "booted example_env s" "run (mgr_step example_env) s [] t"
    by (rule example_runE [OF _ that]) simp_all
  from this(1) have r: "reach (booted example_env) (mgr_step example_env) s" by (rule reach_init)
  have "length (msg_timerSrc ?m) = 80" "length (msg_currentTime ?m) = 80"
    by (simp_all add: zeros_def cTIMER_STATUS_MESSAGE_LENGTH_def)
  moreover have "wall_clock example_env (w_hist s) = 1700000000"
    by (simp add: wall_clock_def Let_def example_env_def drm_env_def calm_env_def)
  ultimately show ?thesis using query_answers [OF r example_env_sane(1), of ?m] r by auto
qed

end
