(* ===== verification/Mgr_Config.thy ===== *)
theory Mgr_Config
  imports Mgr_Boot
begin

text \<open>
  The configuration file: what the extraction loop of \<open>SysTimeMgr::initialize\<close> makes of its text.
  The reference definition splits the whole text into words and groups them by three; the loop of
  the code reads one word after the other from the stream.
\<close>

section \<open>Words and entries\<close>

function words :: "string \<Rightarrow> string list" where
  "words s = (case read_word s of None \<Rightarrow> [] | Some (w, r) \<Rightarrow> w # words r)"
  by pat_completeness auto
termination
  by (relation "measure length") (auto dest: read_word_shorter)

declare words.simps [simp del]

fun triples :: "'a list \<Rightarrow> ('a \<times> 'a \<times> 'a) list" where
  "triples (a # b # c # xs) = (a, b, c) # triples xs"
| "triples _ = []"

lemma words_Some: "read_word s = Some (w, r) \<Longrightarrow> words s = w # words r"
  by (subst words.simps) simp

lemma words_None: "read_word s = None \<Longrightarrow> words s = []"
  by (subst words.simps) simp

lemma read_entries_words: "read_entries s = triples (words s)"
proof (induction s rule: read_entries.induct)
  case (1 s)
  show ?case
  proof (cases "read_entry s")
    case None
    then show ?thesis
      by (subst read_entries.simps)
        (auto simp: read_entry_def words_Some words_None split: option.splits)
  next
    case (Some x)
    obtain e r where x: "x = (e, r)" by (cases x)
    from Some x 1 have "read_entries r = triples (words r)" by simp
    with Some x show ?thesis
      by (subst read_entries.simps)
        (auto simp: read_entry_def words_Some split: option.splits)
  qed
qed

lemma triples_concat:
  "length extra < 3 \<Longrightarrow> triples (concat (map (\<lambda>(a, b, c). [a, b, c]) es) @ extra) = es"
proof (induction es)
  case Nil
  then show ?case by (cases extra rule: triples.cases) auto
qed auto

section \<open>Laying out words\<close>

definition is_word :: "string \<Rightarrow> bool" where
  "is_word w \<longleftrightarrow> w \<noteq> [] \<and> (\<forall>c \<in> set w. \<not> is_space c)"

definition blank :: "string \<Rightarrow> bool" where
  "blank sep \<longleftrightarrow> (\<forall>c \<in> set sep. is_space c)"

text \<open>A text as blanks and words in turn; only the first word may have no blank before it.\<close>

definition layout :: "(string \<times> string) list \<Rightarrow> string" where
  "layout ps = concat (map (\<lambda>(sep, w). sep @ w) ps)"

definition well_spaced :: "(string \<times> string) list \<Rightarrow> bool" where
  "well_spaced ps \<longleftrightarrow> (\<forall>(sep, w) \<in> set ps. blank sep \<and> is_word w) \<and> (\<forall>(sep, w) \<in> set (tl ps). sep \<noteq> [])"

lemma dropWhile_blank: "blank sep \<Longrightarrow> dropWhile is_space (sep @ s) = dropWhile is_space s"
  by (simp add: blank_def dropWhile_append2)

lemma read_word_layout:
  assumes "blank sep" "is_word w" "r = [] \<or> is_space (hd r)"
  shows "read_word (sep @ w @ r) = Some (w, r)"
proof -
  obtain c cs where w: "w = c # cs" "\<not> is_space c" "\<forall>c \<in> set cs. \<not> is_space c"
    using assms(2) by (cases w) (auto simp: is_word_def)
  then have "dropWhile is_space (sep @ w @ r) = w @ r"
    by (simp add: dropWhile_blank [OF assms(1)])
  with assms(3) w show ?thesis
    by (cases r) (auto simp: read_word_def Let_def takeWhile_append dropWhile_append)
qed

lemma words_layout:
  assumes "well_spaced ps" "blank trail"
  shows "words (layout ps @ trail) = map snd ps"
  using assms(1)
proof (induction ps)
  case Nil
  from assms(2) have "read_word trail = None" by (simp add: read_word_def Let_def blank_def)
  then show ?case by (simp add: layout_def words_None)
next
  case (Cons p ps)
  obtain sep w where p: "p = (sep, w)" by (cases p)
  have "layout ps @ trail = [] \<or> is_space (hd (layout ps @ trail))"
  proof (cases ps)
    case Nil
    with assms(2) show ?thesis by (cases trail) (auto simp: layout_def blank_def)
  next
    case (Cons q qs)
    with \<open>well_spaced (p # ps)\<close> show ?thesis
      by (cases q; cases "fst q") (auto simp: layout_def well_spaced_def blank_def)
  qed
  moreover from Cons.prems p have "blank sep" "is_word w" "well_spaced ps"
    by (auto simp: well_spaced_def) (cases ps; auto)
  ultimately show ?case
    using Cons.IH words_Some [OF read_word_layout] by (simp add: p layout_def)
qed

section \<open>Properties\<close>

text \<open>
  C16: The configuration file is read as written. For every file of words, however they are separated
  by blanks and line ends, the manager creates exactly the sources and the stores that the entries
  of three words name, in the order of the file, each with the path of its third word under the
  directory of the daemon; entries of another category and an incomplete entry at the end are
  ignored, and nothing else changes.
\<close>

theorem config_as_written:
  fixes s :: "'w mgr_scheme"
  assumes "files_work env" "w_fs s (c_string (m_cfgfile s)) = Some f" "content f = layout ps @ trail"
    and "well_spaced ps" "blank trail" "map snd ps = concat (map (\<lambda>(c, ty, a). [c, ty, a]) es) @ extra" "length extra < 3"
  shows "\<exists>h. load_config env s = (Inr (), s\<lparr>w_hist := h,
    m_timerSrc := m_timerSrc s @ [createTimeSrc env ty (''/tmp/systimemgr'' @ a). (c, ty, a) \<leftarrow> es, c = ''timesrc''],
    m_timerSync := m_timerSync s @ [createTimeSync env ty (''/tmp/systimemgr'' @ a). (c, ty, a) \<leftarrow> es, c = ''timesync'']\<rparr>)"
proof -
  have "read_entries (content f) = es"
    unfolding read_entries_words assms(3) words_layout [OF assms(4,5)] assms(6)
    by (rule triples_concat [OF assms(7)])
  moreover have "config_entries env s = read_entries (content f)"
    using config_entries_cases(2) [OF assms(1,2), of "w_hist s"] by simp
  ultimately show ?thesis
    using load_config_run [of env s] unfolding configured_src_def configured_sync_def m_directory_def by simp
qed

theorem config_as_written_witness:
  "\<exists>h. load_config example_env (example_mgr\<lparr>m_cfgfile := ''/c'', w_fs := [''/c'' \<mapsto> \<lparr>content = ''timesrc drm /drm timesync'', mtime = 1\<rparr>]\<rparr>) =
    (Inr (), example_mgr\<lparr>m_cfgfile := ''/c'', w_fs := [''/c'' \<mapsto> \<lparr>content = ''timesrc drm /drm timesync'', mtime = 1\<rparr>], w_hist := h,
       m_timerSrc := m_timerSrc example_mgr @ [Some (DrmTimeSrc ''/tmp/systimemgr/drm'')]\<rparr>)"
proof -
  let ?ps = "[([], ''timesrc''), ('' '', ''drm''), ('' '', ''/drm''), ('' '', ''timesync'')]"
  let ?s = "example_mgr\<lparr>m_cfgfile := ''/c'', w_fs := [''/c'' \<mapsto> \<lparr>content = ''timesrc drm /drm timesync'', mtime = 1\<rparr>]\<rparr>"
  have spaced: "well_spaced ?ps" by code_simp
  have "c_string ''/c'' = ''/c''" by code_simp
  then have cfg: "w_fs ?s (c_string (m_cfgfile ?s)) = Some \<lparr>content = ''timesrc drm /drm timesync'', mtime = 1\<rparr>"
    by simp
  from config_as_written [OF example_env_sane(3) cfg _ spaced, of "[]" "[(''timesrc'', ''drm'', ''/drm'')]" "[''timesync'']"]
  show ?thesis by (simp add: layout_def blank_def createTimeSrc_def)
qed

end
