(* ===== verification/Test_Sources.thy ===== *)
theory Test_Sources
  imports Factory
begin

text \<open>
  The repository's unit tests of the time sources and of their factory, run on the model:
  \<open>drmtimerUnitTest.cpp\<close>, \<open>dtttimerUnitTest.cpp\<close> and \<open>timerfactory_gtest.cpp\<close>. A test is a truth
  value: its assertions on the results and the counts of its expectations on the mocks, which are
  read off the call history of the run. The replies are values of the JSON library, so they are
  arguments of the tests, and what the assignments of the test make them is a hypothesis.
\<close>

section \<open>The mock of the JSON-RPC client\<close>

text \<open>
  \<open>TestMock::getReturnValue\<close>: methods with the same key share an expectation, which gives its
  replies in turn and then the default value of the JSON type. Without a mock the client throws.
\<close>

definition rpc_count :: "(string \<Rightarrow> bool) \<Rightarrow> hist \<Rightarrow> nat" where
  "rpc_count P h = length (filter (\<lambda>(c, _). case c of CallMethod m _ \<Rightarrow> P m | _ \<Rightarrow> False) h)"

definition mock_client :: "(string \<Rightarrow> 'k) \<Rightarrow> ('k \<Rightarrow> rpc_reply list) \<Rightarrow> rpc_reply \<Rightarrow> env \<Rightarrow> env" where
  "mock_client key replies null env = env\<lparr>rpc_result := (\<lambda>h c. case c of
       CallMethod m _ \<Rightarrow>
         (let n = rpc_count (\<lambda>m'. key m' = key m) h; rs = replies (key m)
          in Some (if n < length rs then rs ! n else null))
     | _ \<Rightarrow> None)\<rparr>"

definition no_client :: "env \<Rightarrow> env" where
  "no_client env = env\<lparr>rpc_result := (\<lambda>_ _. None)\<rparr>"

text \<open>The accessors of a null value: the empty string and false.\<close>

definition null_json :: "rpc_reply \<Rightarrow> bool" where
  "null_json r \<longleftrightarrow> (\<forall>p. as_string r p = Some [] \<and> as_bool r p = Some False)"

text \<open>A test runs in its own process: the history of calls is empty at its start.\<close>

definition fixture :: "'w world_scheme \<Rightarrow> 'w world_scheme" where
  "fixture s = s\<lparr>w_hist := []\<rparr>"

section \<open>DrmTimeSrc\<close>

definition DRM_TEST_FILE :: string where
  "DRM_TEST_FILE = ''/opt/DRMTEST.txt''"

text \<open>An expectation on \<open>getReturnValue(_,_)\<close> with the replies of its \<open>WillOnce\<close> clauses.\<close>

definition drm_mock :: "rpc_reply list \<Rightarrow> rpc_reply \<Rightarrow> env \<Rightarrow> env" where
  "drm_mock rs = mock_client (\<lambda>_. ()) (\<lambda>_. rs)"

definition drm_getTimeSecTestwithINactive :: "env \<Rightarrow> rpc_reply \<Rightarrow> rpc_reply \<Rightarrow> 'w world_scheme \<Rightarrow> bool" where
  "drm_getTimeSecTestwithINactive env value null s =
     (case getTimeSec (drm_mock [value] null env) (DrmTimeSrc DRM_TEST_FILE) (fixture s) of
        (Inr (v, _), t) \<Rightarrow> v = 0 \<and> rpc_count (\<lambda>_. True) (w_hist t) = 1
      | _ \<Rightarrow> False)"

definition drm_getTimeSecTestwithActiveWithoutSuccess :: "env \<Rightarrow> rpc_reply \<Rightarrow> 'w world_scheme \<Rightarrow> bool" where
  "drm_getTimeSecTestwithActiveWithoutSuccess env null s =
     (case getTimeSec (drm_mock [] null env) (DrmTimeSrc DRM_TEST_FILE) (fixture s) of
        (Inr (v, _), t) \<Rightarrow> v = 0 | _ \<Rightarrow> False)"

definition drm_getTimeSecTestwithActiveWithSuccess :: "env \<Rightarrow> rpc_reply \<Rightarrow> rpc_reply \<Rightarrow> 'w world_scheme \<Rightarrow> bool" where
  "drm_getTimeSecTestwithActiveWithSuccess env value null s =
     (case getTimeSec (drm_mock [value] null env) (DrmTimeSrc DRM_TEST_FILE) (fixture s) of
        (Inr (v, _), t) \<Rightarrow> v = 0 \<and> rpc_count (\<lambda>_. True) (w_hist t) = 2
      | _ \<Rightarrow> False)"

definition drm_isReferenceTest :: bool where
  "drm_isReferenceTest = (\<not> isreference (DrmTimeSrc DRM_TEST_FILE))"

definition drm_checkTimeTestTrue :: "env \<Rightarrow> rpc_reply \<Rightarrow> rpc_reply \<Rightarrow> 'w world_scheme \<Rightarrow> bool" where
  "drm_checkTimeTestTrue env value null s =
     (case checkTime (drm_mock [value, value] null env) (DrmTimeSrc DRM_TEST_FILE) (fixture s) of
        (Inr (b, _), t) \<Rightarrow> \<not> b \<and> rpc_count (\<lambda>_. True) (w_hist t) = 2
      | _ \<Rightarrow> False)"

definition drm_isClockProviderTest :: bool where
  "drm_isClockProviderTest = (\<not> isclockProvider (DrmTimeSrc DRM_TEST_FILE))"

definition drm_checkTimeTest :: "env \<Rightarrow> 'w world_scheme \<Rightarrow> bool" where
  "drm_checkTimeTest env s =
     (case checkTime (no_client env) (DrmTimeSrc DRM_TEST_FILE) (fixture s) of
        (Inr (b, _), t) \<Rightarrow> b | _ \<Rightarrow> False)"

section \<open>DttTimeSrc\<close>

definition DTT_TEST_FILE :: string where
  "DTT_TEST_FILE = ''/opt/DTTTEST.txt''"

text \<open>One expectation for the activation, one for the query, each with its own replies.\<close>

definition activate_method :: string where
  "activate_method = ''Controller.1.activate''"

definition info_method :: string where
  "info_method = ''org.rdk.MediaSystem.1.getBroadcastTimeInfo''"

definition dtt_mock :: "rpc_reply list \<Rightarrow> rpc_reply list \<Rightarrow> rpc_reply \<Rightarrow> env \<Rightarrow> env" where
  "dtt_mock acts infos = mock_client (\<lambda>m. m) (\<lambda>m. if m = activate_method then acts else if m = info_method then infos else [])"

definition dtt_expects :: "nat \<Rightarrow> nat \<Rightarrow> hist \<Rightarrow> bool" where
  "dtt_expects a i h \<longleftrightarrow> rpc_count ((=) activate_method) h = a \<and> rpc_count ((=) info_method) h = i"

definition new_dtt :: timeSrc where
  "new_dtt = DttTimeSrc DTT_TEST_FILE False False"

definition dtt_getTimeSecTestwithNoSuccess :: "env \<Rightarrow> rpc_reply \<Rightarrow> rpc_reply \<Rightarrow> 'w world_scheme \<Rightarrow> bool" where
  "dtt_getTimeSecTestwithNoSuccess env value null s =
     (case getTimeSec (dtt_mock [value] [value] null env) new_dtt (fixture s) of
        (Inr (v, _), t) \<Rightarrow> v = 0 \<and> dtt_expects 1 1 (w_hist t) | _ \<Rightarrow> False)"

definition dtt_getTimeSecTestwithSuccessNoinfo :: "env \<Rightarrow> rpc_reply \<Rightarrow> rpc_reply \<Rightarrow> 'w world_scheme \<Rightarrow> bool" where
  "dtt_getTimeSecTestwithSuccessNoinfo env value null s =
     (case getTimeSec (dtt_mock [value] [value] null env) new_dtt (fixture s) of
        (Inl e, t) \<Rightarrow> e = Std_exception ''invalid_argument'' \<and> dtt_expects 1 1 (w_hist t) | _ \<Rightarrow> False)"

definition dtt_getTimeSecTestwithSuccessInfo :: "env \<Rightarrow> rpc_reply \<Rightarrow> rpc_reply \<Rightarrow> 'w world_scheme \<Rightarrow> bool" where
  "dtt_getTimeSecTestwithSuccessInfo env value null s =
     (case getTimeSec (dtt_mock [value] [value] null env) new_dtt (fixture s) of
        (Inr (v, _), t) \<Rightarrow> v = 1234567890 \<and> dtt_expects 1 1 (w_hist t) | _ \<Rightarrow> False)"

definition dtt_getTimeSecTestActivateonceNegetive :: "env \<Rightarrow> rpc_reply \<Rightarrow> rpc_reply \<Rightarrow> 'w world_scheme \<Rightarrow> bool" where
  "dtt_getTimeSecTestActivateonceNegetive env value null s =
     (let m = dtt_mock [value] [value, value] null env in
      case bindM (getTimeSec m new_dtt) (\<lambda>(v, src). bindM (getTimeSec m src) (\<lambda>(w, _). ret (v, w))) (fixture s) of
        (Inr (v, w), t) \<Rightarrow> v = 0 \<and> w = 0 \<and> dtt_expects 1 2 (w_hist t) | _ \<Rightarrow> False)"

definition dtt_isReferenceTest :: bool where
  "dtt_isReferenceTest = (\<not> isreference new_dtt)"

definition dtt_checkTimeTestTrue :: "env \<Rightarrow> rpc_reply \<Rightarrow> rpc_reply \<Rightarrow> 'w world_scheme \<Rightarrow> bool" where
  "dtt_checkTimeTestTrue env value null s =
     (case checkTime (dtt_mock [value] [value] null env) new_dtt (fixture s) of
        (Inr (b, _), t) \<Rightarrow> \<not> b \<and> dtt_expects 1 1 (w_hist t) | _ \<Rightarrow> False)"

definition dtt_isClockProviderTest :: bool where
  "dtt_isClockProviderTest = isclockProvider new_dtt"

definition dtt_checkTimeTest :: "env \<Rightarrow> 'w world_scheme \<Rightarrow> bool" where
  "dtt_checkTimeTest env s =
     (case checkTime (no_client env) new_dtt (fixture s) of (Inr (b, _), t) \<Rightarrow> b | _ \<Rightarrow> False)"

section \<open>The factory\<close>

text \<open>\<open>dynamic_cast\<close> to the class of a source or of a store.\<close>

definition createTimeSrc_tests :: "env \<Rightarrow> bool" where
  "createTimeSrc_tests env \<longleftrightarrow>
     createTimeSrc env ''ntp'' '''' = Some NtpTimeSrc \<and>
     createTimeSrc env ''stt'' '''' = Some SttTimeSrc \<and>
     (case createTimeSrc env ''regular'' ''param'' of Some (RegularTimeSrc _) \<Rightarrow> True | _ \<Rightarrow> False) \<and>
     (case createTimeSrc env ''drm'' ''/path'' of Some (DrmTimeSrc _) \<Rightarrow> True | _ \<Rightarrow> False) \<and>
     createTimeSrc env ''unknown'' ''xyz'' = None"

definition createTimeSync_tests :: "env \<Rightarrow> bool" where
  "createTimeSync_tests env \<longleftrightarrow>
     (case createTimeSync env ''test'' ''arg'' of Some (TestTimeSync _) \<Rightarrow> True | _ \<Rightarrow> False) \<and>
     (case createTimeSync env ''rdkdefault'' '''' of Some (RdkDefaultTimeSync _ _) \<Rightarrow> True | _ \<Rightarrow> False) \<and>
     createTimeSync env ''blah'' '''' = None"

section \<open>The tests pass\<close>

lemma rpc_count_simps [simp]:
  "rpc_count P [] = 0"
  "rpc_count P ((c, r) # h) = (case c of CallMethod m _ \<Rightarrow> if P m then 1 else 0 | _ \<Rightarrow> 0) + rpc_count P h"
  "rpc_count P (g @ h) = rpc_count P g + rpc_count P h"
  by (simp_all add: rpc_count_def split: xcall.split)

lemma mock_client_simps [simp]:
  "rpc_result (mock_client key rs null env) h (CallMethod m ps) =
     Some (if rpc_count (\<lambda>m'. key m' = key m) h < length (rs (key m))
           then rs (key m) ! rpc_count (\<lambda>m'. key m' = key m) h else null)"
  "ret_code (mock_client key rs null env) = ret_code env" "out_int (mock_client key rs null env) = out_int env"
  "LOCAL_TEST (mock_client key rs null env) = LOCAL_TEST env"
  "WPEVGDRM_ENABLED (mock_client key rs null env) = WPEVGDRM_ENABLED env"
  "rpc_result (no_client env) h c = None" "LOCAL_TEST (no_client env) = LOCAL_TEST env"
  by (simp_all add: mock_client_def no_client_def Let_def)

lemma stoll_values:
  "stoll (show_int 1234567890) = Inr 1234567890" "stoll ''123456789'' = Inr 123456789" "stoll [] = Inl Invalid_argument"
proof -
  show "stoll (show_int 1234567890) = Inr 1234567890"
    by (rule stoll_show_int) (simp add: is_ll_def LLONG_MIN_def LLONG_MAX_def)
  show "stoll ''123456789'' = Inr 123456789"
    by (simp add: stoll_def scan_ll_def is_space_def is_digit_def read_nat_def digit_val_def is_ll_def
        LLONG_MIN_def LLONG_MAX_def)
qed (simp add: stoll_def scan_ll_def)

lemmas test_simps = src_defs prog_simps fixture_def drm_mock_def dtt_mock_def new_dtt_def checkTime_def
  stoll_values call_int_def call_dbl_def touch_file_def put_file_def

text \<open>What the assignments of the tests make the replies, for the members that the code reads.\<close>

definition drm_value :: "string \<Rightarrow> bool \<Rightarrow> string \<Rightarrow> rpc_reply \<Rightarrow> bool" where
  "drm_value active success securetime r \<longleftrightarrow> as_string r [''activationstatus''] = Some active \<and>
     as_bool r [''success''] = Some success \<and> as_string r [''securetime''] = Some securetime"

definition dtt_value :: "bool \<Rightarrow> string \<Rightarrow> rpc_reply \<Rightarrow> bool" where
  "dtt_value success timeUtc r \<longleftrightarrow> as_bool r [''success''] = Some success \<and>
     as_string r [''info'', ''timeUtc''] = Some timeUtc"

lemma drm_time_tests:
  assumes "\<not> LOCAL_TEST env" "null_json null"
  shows "drm_value ''iNActive'' False [] v \<Longrightarrow> drm_getTimeSecTestwithINactive env v null s"
    and "drm_getTimeSecTestwithActiveWithoutSuccess env null s"
    and "drm_value ''Active'' True [] v \<Longrightarrow> drm_getTimeSecTestwithActiveWithSuccess env v null s"
    and "drm_value ''Active'' True ''123456789'' v \<Longrightarrow> drm_checkTimeTestTrue env v null s"
    and "drm_checkTimeTest env s"
  using assms
  by (simp_all add: drm_getTimeSecTestwithINactive_def drm_getTimeSecTestwithActiveWithoutSuccess_def
      drm_getTimeSecTestwithActiveWithSuccess_def drm_checkTimeTestTrue_def drm_checkTimeTest_def
      test_simps drm_value_def null_json_def)

text \<open>The steps of a query of the media service under the mock, with their counts.\<close>

definition rpc_counts :: "hist \<Rightarrow> nat \<times> nat" where
  "rpc_counts h = (rpc_count ((=) activate_method) h, rpc_count ((=) info_method) h)"

lemma dtt_subscribe_run: "\<exists>b t. dtt_subscribe env s = (Inr b, t) \<and> rpc_counts (w_hist t) = rpc_counts (w_hist s)"
  by (auto simp: dtt_subscribe_def prog_simps rpc_counts_def)

lemma notify_counts:
  "\<exists>t. notifypathAvailable env path s = (Inr (), t) \<and> rpc_counts (w_hist t) = rpc_counts (w_hist s)"
  by (simp add: notifypathAvailable_def touch_file_def call_int_def prog_simps put_file_def rpc_counts_def)

lemma info_call_run:
  assumes "rpc_count ((=) info_method) (w_hist s) < length infos"
  shows "\<exists>t. callMethod (dtt_mock acts infos null env) info_method ps s =
      (Inr (infos ! rpc_count ((=) info_method) (w_hist s)), t) \<and>
    rpc_counts (w_hist t) = (case rpc_counts (w_hist s) of (a, i) \<Rightarrow> (a, Suc i))"
proof -
  have "(\<lambda>m. m = info_method) = (=) info_method" by auto
  with assms show ?thesis
    by (simp add: callMethod_def dtt_mock_def prog_simps rpc_counts_def activate_method_def info_method_def)
qed

lemma dtt_query_run:
  fixes s :: "'w world_scheme"
  assumes "\<not> LOCAL_TEST env" "rpc_count ((=) info_method) (w_hist s) < length infos"
    and "dtt_value ok tm (infos ! rpc_count ((=) info_method) (w_hist s))"
  shows "\<exists>t sub'. dtt_query (dtt_mock acts infos null env) path sub s =
      ((if ok then (case stoll tm of Inr v \<Rightarrow> Inr (v, DttTimeSrc path True sub')
          | Inl Invalid_argument \<Rightarrow> Inl (Std_exception ''invalid_argument'')
          | Inl Out_of_range \<Rightarrow> Inl (Std_exception ''out_of_range''))
        else Inr (0, DttTimeSrc path True sub')), t) \<and>
    rpc_counts (w_hist t) = (case rpc_counts (w_hist s) of (a, i) \<Rightarrow> (a, Suc i))"
proof -
  let ?m = "dtt_mock acts infos null env"
  obtain b s1 where s1: "(if sub then ret True else dtt_subscribe ?m) s = (Inr b, s1)"
    "rpc_counts (w_hist s1) = rpc_counts (w_hist s)"
    using dtt_subscribe_run [of ?m s] by (cases sub) (auto simp: ret_run)
  then have n: "rpc_count ((=) info_method) (w_hist s1) = rpc_count ((=) info_method) (w_hist s)"
    by (simp add: rpc_counts_def)
  from info_call_run [of s1 infos acts null env "[(''id'', ''2'')]"] assms(2) obtain s2 where
    s2: "callMethod ?m info_method [(''id'', ''2'')] s1 = (Inr (infos ! rpc_count ((=) info_method) (w_hist s)), s2)"
      "rpc_counts (w_hist s2) = (case rpc_counts (w_hist s) of (a, i) \<Rightarrow> (a, Suc i))"
    unfolding n s1(2) by blast
  obtain s3 where s3: "notifypathAvailable ?m path s2 = (Inr (), s3)" "rpc_counts (w_hist s3) = rpc_counts (w_hist s2)"
    using notify_counts by blast
  have "LOCAL_TEST ?m = LOCAL_TEST env" by (simp add: dtt_mock_def)
  with assms(1,3) s2(1) s3(1)
  have "dtt_broadcast_time ?m path b (infos ! rpc_count ((=) info_method) (w_hist s)) s2 =
      ((if ok then (case stoll tm of Inr v \<Rightarrow> Inr (v, DttTimeSrc path True b)
          | Inl Invalid_argument \<Rightarrow> Inl (Std_exception ''invalid_argument'')
          | Inl Out_of_range \<Rightarrow> Inl (Std_exception ''out_of_range''))
        else Inr (0, DttTimeSrc path True b)), if ok then s3 else s2)"
    by (simp add: dtt_broadcast_time_def dtt_value_def asBool_def asString_def dtt_unavailable_def no_time_def
        stoll_io_def bindM_run ret_run throwM_run split: sum.split stoll_error.split)
  with s1(1) s2 s3 show ?thesis
    by (intro exI [of _ "if ok then s3 else s2"] exI [of _ b])
      (simp add: dtt_query_def tryRpc_def catchM_run bindM_run ret_run info_method_def)
qed

text \<open>The first call of a new source activates the plugin, then it queries.\<close>

lemma dtt_first_run:
  fixes s :: "'w world_scheme"
  assumes "\<not> LOCAL_TEST env" "dtt_value ok tm i"
  shows "\<exists>t sub'. getTimeSec (dtt_mock (a # acts) (i # infos) null env) new_dtt (fixture s) =
      ((if ok then (case stoll tm of Inr v \<Rightarrow> Inr (v, DttTimeSrc DTT_TEST_FILE True sub')
          | Inl Invalid_argument \<Rightarrow> Inl (Std_exception ''invalid_argument'')
          | Inl Out_of_range \<Rightarrow> Inl (Std_exception ''out_of_range''))
        else Inr (0, DttTimeSrc DTT_TEST_FILE True sub')), t) \<and> rpc_counts (w_hist t) = (1, 1)"
proof -
  let ?m = "dtt_mock (a # acts) (i # infos) null env"
  obtain s1 where s1: "dtt_activate ?m (fixture s) = (Inr (), s1)" "rpc_counts (w_hist s1) = (1, 0)"
    by (simp add: dtt_activate_def callMethod_def dtt_mock_def prog_simps rpc_counts_def fixture_def
        activate_method_def info_method_def)
  then have "rpc_count ((=) info_method) (w_hist s1) = 0" by (simp add: rpc_counts_def)
  with dtt_query_run [OF assms(1), of s1 "i # infos" ok tm "a # acts" null DTT_TEST_FILE False] assms(2) s1
  show ?thesis
    by (simp add: new_dtt_def dtt_getTimeSec_def tryRpc_def catchM_run bindM_run ret_run)
qed

lemma dtt_first_tests:
  assumes "\<not> LOCAL_TEST env"
  shows "dtt_value False [] v \<Longrightarrow> dtt_getTimeSecTestwithNoSuccess env v null s"
    and "dtt_value True [] v \<Longrightarrow> dtt_getTimeSecTestwithSuccessNoinfo env v null s"
    and "dtt_value True (show_int 1234567890) v \<Longrightarrow> dtt_getTimeSecTestwithSuccessInfo env v null s"
    and "dtt_value True (show_int 1234567890) v \<Longrightarrow> dtt_checkTimeTestTrue env v null s"
    and "dtt_checkTimeTest env s"
  using dtt_first_run [OF assms, of _ _ v v "[]" "[]" null s] assms
  by (fastforce simp: dtt_getTimeSecTestwithNoSuccess_def dtt_getTimeSecTestwithSuccessNoinfo_def
      dtt_getTimeSecTestwithSuccessInfo_def dtt_checkTimeTestTrue_def dtt_checkTimeTest_def checkTime_def
      stoll_values dtt_expects_def rpc_counts_def bindM_run ret_run new_dtt_def dtt_getTimeSec_def
      dtt_activate_def callMethod_def tryRpc_def catchM_run throwM_run dtt_unavailable_def no_time_def
      call_with_run)+

lemma dtt_second_test:
  fixes s :: "'w world_scheme"
  assumes "\<not> LOCAL_TEST env" "dtt_value False tm v"
  shows "dtt_getTimeSecTestActivateonceNegetive env v null s"
proof -
  let ?m = "dtt_mock [v] [v, v] null env"
  from dtt_first_run [OF assms, of v "[]" "[v]" null s] obtain t sub where
    t: "getTimeSec ?m new_dtt (fixture s) = (Inr (0, DttTimeSrc DTT_TEST_FILE True sub), t)"
      "rpc_counts (w_hist t) = (1, 1)" by auto
  then have "rpc_count ((=) info_method) (w_hist t) = 1" by (simp add: rpc_counts_def)
  with dtt_query_run [OF assms(1), of t "[v, v]" False tm "[v]" null DTT_TEST_FILE sub] assms(2) t(2)
  obtain u sub' where "dtt_query ?m DTT_TEST_FILE sub t = (Inr (0, DttTimeSrc DTT_TEST_FILE True sub'), u)"
    "rpc_counts (w_hist u) = (1, 2)" by auto
  with t(1) show ?thesis
    by (simp add: dtt_getTimeSecTestActivateonceNegetive_def Let_def bindM_run ret_run dtt_getTimeSec_def
        dtt_expects_def rpc_counts_def)
qed

section \<open>Properties\<close>

text \<open>
  The model passes these unit tests of the time sources and their factory. For every environment
  without the local-test option and every world, and for every reply that reads as the test has set
  it, the results, the exceptions and the numbers of calls on the mock are the ones the tests expect.
\<close>

theorem source_tests_pass:
  fixes s :: "'w world_scheme"
  assumes "\<not> LOCAL_TEST env" "null_json null"
    and "drm_value ''iNActive'' False [] v1" "drm_value ''Active'' True [] v2"
    and "drm_value ''Active'' True ''123456789'' v4"
    and "dtt_value False [] w1" "dtt_value True [] w2" "dtt_value True (show_int 1234567890) w3"
  shows "drm_getTimeSecTestwithINactive env v1 null s \<and> drm_getTimeSecTestwithActiveWithoutSuccess env null s \<and>
    drm_getTimeSecTestwithActiveWithSuccess env v2 null s \<and>
    drm_isReferenceTest \<and>
    drm_checkTimeTestTrue env v4 null s \<and> drm_isClockProviderTest \<and> drm_checkTimeTest env s \<and>
    dtt_getTimeSecTestwithNoSuccess env w1 null s \<and> dtt_getTimeSecTestwithSuccessNoinfo env w2 null s \<and>
    dtt_getTimeSecTestwithSuccessInfo env w3 null s \<and> dtt_getTimeSecTestActivateonceNegetive env w1 null s \<and>
    dtt_isReferenceTest \<and> dtt_checkTimeTestTrue env w3 null s \<and> dtt_isClockProviderTest \<and> dtt_checkTimeTest env s \<and>
    createTimeSrc_tests env \<and> createTimeSync_tests env"
proof -
  have fixed: drm_isReferenceTest drm_isClockProviderTest dtt_isReferenceTest dtt_isClockProviderTest
    "createTimeSrc_tests env" "createTimeSync_tests env"
    by (simp_all add: drm_isReferenceTest_def drm_isClockProviderTest_def dtt_isReferenceTest_def
        dtt_isClockProviderTest_def new_dtt_def createTimeSrc_tests_def createTimeSrc_def createTimeSync_tests_def
        createTimeSync_def)
  show ?thesis
    by (intro conjI fixed drm_time_tests [OF assms(1,2)] dtt_first_tests dtt_second_test [OF _ assms(6)] assms)
qed

definition drm_reply :: "string \<Rightarrow> bool \<Rightarrow> string \<Rightarrow> rpc_reply" where
  "drm_reply active success securetime = \<lparr>as_string = (\<lambda>p. Some (if p = [''activationstatus''] then active else securetime)),
     as_bool = (\<lambda>_. Some success)\<rparr>"

theorem source_tests_pass_witness:
  "dtt_getTimeSecTestActivateonceNegetive (calm_env 1700000000) (drm_reply [] False []) (drm_reply [] False []) empty_world"
proof -
  have drm: "drm_value a b c (drm_reply a b c)" for a b c by (simp add: drm_value_def drm_reply_def)
  have dtt: "dtt_value b c (drm_reply [] b c)" for b c by (simp add: dtt_value_def drm_reply_def)
  have "null_json (drm_reply [] False [])" by (simp add: null_json_def drm_reply_def)
  from source_tests_pass [OF _ this drm drm drm dtt dtt dtt, of "calm_env 1700000000" empty_world] show ?thesis
    by (simp add: calm_env_def)
qed

end
