(* ===== verification/Test_Stores.thy ===== *)
theory Test_Stores
  imports Factory
begin

text \<open>
  The repository's unit tests of the default time store, run on the model:
  \<open>rdkDefaulttimesyncUnitTest.cpp\<close>, and \<open>TokenizeTest\<close> of \<open>test/rdkdefaulttimesyncTest.cpp\<close>. A test
  is a program that ends with the truth value of its assertion; an exception fails it. The tests
  run one after the other and leave their files behind, so what a test expects depends on the
  version file that the first one has written.
\<close>

definition passes :: "('w, bool) io \<Rightarrow> 'w world_scheme \<Rightarrow> bool" where
  "passes test s = (fst (test s) = Inr True)"

section \<open>The tests\<close>

text \<open>The first one writes the version file, with a stream of its own.\<close>

definition test_version :: string where
  "test_version = ''BUILD_TIME='' @ [CHR 0x22] @ ''2022-01-01 00:00:00'' @ [CHR 0x22, newline]"

definition getTimeBuildTimeTest :: "env \<Rightarrow> ('w, bool) io" where
  "getTimeBuildTimeTest env =
     bindM (write_stream env ''/version.txt'' test_version) (\<lambda>_.
     bindM (sync_getTime env (RdkDefaultTimeSync ''/opt/secure/clock.txt'' 0)) (\<lambda>(result, _).
     ret (result = 1640995200)))"

text \<open>The two tests that update a store and compare its time with the first line of its file.\<close>

definition updateTime_compare :: "env \<Rightarrow> int \<Rightarrow> ('w, bool) io" where
  "updateTime_compare env t =
     bindM (sync_updateTime env (RdkDefaultTimeSync ''/tmp/clock.txt'' 0) t) (\<lambda>store.
     bindM (open_read env ''/tmp/clock.txt'') (\<lambda>f. case f of
         None \<Rightarrow> throwM (Std_exception ''runtime_error'')
       | Some text \<Rightarrow>
           bindM (stoll_io (takeWhile (\<lambda>c. c \<noteq> newline) text)) (\<lambda>data.
           bindM (sync_getTime env store) (\<lambda>(v, _). ret (v = data)))))"

definition updateTimeWithZero :: "env \<Rightarrow> ('w, bool) io" where
  "updateTimeWithZero env = updateTime_compare env 0"

definition updateTimeWithNonZero :: "env \<Rightarrow> ('w, bool) io" where
  "updateTimeWithNonZero env = updateTime_compare env 1640995200"

definition updateTimeWitDefaultFile :: "env \<Rightarrow> ('w, bool) io" where
  "updateTimeWitDefaultFile env =
     bindM (sync_updateTime env (RdkDefaultTimeSync ''/opt/secure/clock.txt'' 0) 1640995200) (\<lambda>_.
     getM (\<lambda>s. file_exists s ''/opt/secure/clock.txt''))"

definition updateTimeWithExistingTime :: "env \<Rightarrow> ('w, bool) io" where
  "updateTimeWithExistingTime env =
     bindM (time_null env) (\<lambda>C_TIME.
     bindM (sync_updateTime env (RdkDefaultTimeSync ''/opt/secure/clock.txt'' 0) 0) (\<lambda>store.
     bindM (sync_getTime env store) (\<lambda>(updatedTime, _).
     ret (updatedTime + 10 * 60 > C_TIME))))"

definition updateTimeWithOlderTimeIncrementsBy10Minutes :: "env \<Rightarrow> ('w, bool) io" where
  "updateTimeWithOlderTimeIncrementsBy10Minutes env =
     bindM (sync_updateTime env (RdkDefaultTimeSync ''/tmp/clock.txt'' 0) 1640995200) (\<lambda>s1.
     bindM (sync_getTime env s1) (\<lambda>(afterFirst, s2).
     bindM (sync_updateTime env s2 1640990000) (\<lambda>s3.
     bindM (sync_getTime env s3) (\<lambda>(afterSecond, _).
     ret (afterSecond = afterFirst)))))"

definition tokenizeBreakCoverage :: bool where
  "tokenizeBreakCoverage =
     (smap_find (tokenize (''KEY1=VALUE1'' @ [newline] @ ''KEY2='') ''='') ''KEY1'' = Some ''VALUE1'')"

definition TokenizeTest :: bool where
  "TokenizeTest =
     (tokenize (''key1=value1'' @ [newline] @ ''key2=value2'' @ [newline] @ ''key3=value3'' @ [newline]) ''='' =
      [(''key1'', ''value1''), (''key2'', ''value2''), (''key3'', ''value3'')])"

section \<open>Updates and queries of a store\<close>

text \<open>A time that the clock has read at some moment.\<close>

definition clock_reading :: "env \<Rightarrow> int \<Rightarrow> bool" where
  "clock_reading env u \<longleftrightarrow> (\<exists>h. u = out_int env h Time_null \<or> u = out_int env h Clock_gettime)"

lemma clock_reading_wall: "clock_reading env (wall_clock env h)"
  by (auto simp: clock_reading_def wall_clock_def Let_def)

lemma store_update_run:
  fixes s :: "'w world_scheme"
  assumes "sane_clock env" "files_work env" "valid_time t" "0 \<le> cur" "cur + 600 < 2 ^ 40" "path \<noteq> ''/version.txt''"
  shows "\<exists>u m s'. sync_updateTime env (RdkDefaultTimeSync path cur) t s =
      (Inr (RdkDefaultTimeSync path (if cur \<le> u then u else cur + 600)), s') \<and>
    valid_time u \<and> (t \<noteq> 0 \<longrightarrow> u = t) \<and> (t = 0 \<longrightarrow> clock_reading env u) \<and>
    w_fs s' path = Some \<lparr>content = show_int u @ [newline], mtime = m\<rparr> \<and> stored s' path = u \<and>
    version_time s' = version_time s"
proof -
  define u where "u = (if t = 0 then wall_clock env (w_hist s) else t)"
  from rdk_updateTime_run [OF assms(1,3-5), of s path, folded u_def]
  obtain h where u: "valid_time u" "t \<noteq> 0 \<longrightarrow> u = t" "t = 0 \<longrightarrow> clock_reading env u"
    and r: "rdk_updateTime env path cur t s = (Inr (RdkDefaultTimeSync path (if cur \<le> u then u else cur + 600)),
       snd (write_stream env path (show_int u @ [newline]) (s\<lparr>w_hist := h\<rparr>)))"
    using clock_reading_wall by (auto simp: u_def)
  from write_stream_run [of env "s\<lparr>w_hist := h\<rparr>" path "show_int u @ [newline]"] assms(2)
  obtain h' m where w: "write_stream env path (show_int u @ [newline]) (s\<lparr>w_hist := h\<rparr>) =
      (Inr True, put_file path (show_int u @ [newline]) m (s\<lparr>w_hist := h'\<rparr>))"
    by (auto simp: files_work_def)
  define s' where "s' = put_file path (show_int u @ [newline]) m (s\<lparr>w_hist := h'\<rparr>)"
  have "version_time s' = version_time s" "stored s' path = u"
    "w_fs s' path = Some \<lparr>content = show_int u @ [newline], mtime = m\<rparr>"
    using u(1) assms(6) by (simp_all add: s'_def version_time_def stored_def put_file_def istream_show_int valid_time_ll)
  moreover have "sync_updateTime env (RdkDefaultTimeSync path cur) t s =
      (Inr (RdkDefaultTimeSync path (if cur \<le> u then u else cur + 600)), s')"
    using r w by (simp add: s'_def)
  ultimately show ?thesis using u by blast
qed

lemma store_get_run:
  fixes s :: "'w world_scheme"
  assumes "sane_clock env" "files_work env" "valid_time (stored s path)" "valid_time (version_time s)"
  defines "v \<equiv> max (version_time s) (stored s path)"
  shows "\<exists>h. sync_getTime env (RdkDefaultTimeSync path cur) s = (Inr (v, RdkDefaultTimeSync path v), s\<lparr>w_hist := h\<rparr>)"
proof -
  have "rdk_answer env path s = v" using assms(2) by (simp add: rdk_answer_def files_work_def Let_def v_def)
  moreover have "valid_time v" using assms(3,4) by (simp add: v_def max_def)
  ultimately show ?thesis using rdk_getTime_run [OF assms(1), of path s] by simp
qed

text \<open>The build time that the first test writes.\<close>

lemma test_version_time:
  assumes "w_fs s ''/version.txt'' = Some \<lparr>content = test_version, mtime = m\<rparr>"
  shows "version_time s = 1640995200"
proof -
  have date: "date_text 2022 1 1 0 0 0 = ''2022-01-01 00:00:00''" by code_simp
  have "test_version = render [(''BUILD_TIME'', CHR 0x22 # date_text 2022 1 1 0 0 0 @ [CHR 0x22])]"
    unfolding date by (simp add: test_version_def render_def)
  moreover have "list_all line_ok [(''BUILD_TIME'', CHR 0x22 # date_text 2022 1 1 0 0 0 @ [CHR 0x22])]"
    unfolding date by code_simp
  moreover have "86400 * days_from_civil 2022 1 1 = 1640995200" by code_simp
  ultimately show ?thesis
    using version_time_render [of s "[(''BUILD_TIME'', CHR 0x22 # date_text 2022 1 1 0 0 0 @ [CHR 0x22])]" m 2022 1 1 0 0 0] assms
    by simp
qed

lemma valid_2022 [simp]: "valid_time 1640995200" "valid_time 1640990000"
  by (simp_all add: valid_time_def time_bound_def)

lemma takeWhile_show_int: "takeWhile (\<lambda>c. c \<noteq> newline) (show_int u @ [newline]) = show_int u"
proof -
  have "newline \<notin> set (show_nat n)" for n
    using show_nat_props [of n] by (fastforce simp: is_digit_def newline_def)
  then have "c \<noteq> newline" if "c \<in> set (show_int u)" for c
    using that by (auto simp: show_int_def newline_def split: if_splits)
  then show ?thesis by (simp add: takeWhile_append2)
qed

text \<open>The comparing tests pass when the time written is not before the build time.\<close>

lemma compare_passes:
  fixes s :: "'w world_scheme"
  assumes "sane_clock env" "files_work env" "valid_time t" "valid_time (version_time s)"
    and "t \<noteq> 0 \<Longrightarrow> version_time s \<le> t" "t = 0 \<Longrightarrow> \<forall>u. clock_reading env u \<longrightarrow> version_time s \<le> u"
  shows "passes (updateTime_compare env t) s"
proof -
  from store_update_run [OF assms(1-3), of 0 "''/tmp/clock.txt''" s] obtain u m s' where
    s': "sync_updateTime env (RdkDefaultTimeSync ''/tmp/clock.txt'' 0) t s = (Inr (RdkDefaultTimeSync ''/tmp/clock.txt'' u), s')"
      "w_fs s' ''/tmp/clock.txt'' = Some \<lparr>content = show_int u @ [newline], mtime = m\<rparr>" "stored s' ''/tmp/clock.txt'' = u"
      "version_time s' = version_time s" "valid_time u" "version_time s \<le> u"
    using assms(5,6) by (cases "t = 0") (auto simp: valid_time_def)
  define s2 where "s2 = s'\<lparr>w_hist := w_hist s' @ [(Open_read ''/tmp/clock.txt'', ret_code env (w_hist s') (Open_read ''/tmp/clock.txt''))]\<rparr>"
  have f: "open_read env ''/tmp/clock.txt'' s' = (Inr (Some (show_int u @ [newline])), s2)"
    using assms(2) s'(2) by (simp add: open_read_def prog_simps s2_def files_work_def)
  have s2: "stored s2 ''/tmp/clock.txt'' = u" "version_time s2 = version_time s"
    using s'(3,4) by (simp_all add: s2_def stored_def)
  from store_get_run [OF assms(1,2), of s2 "''/tmp/clock.txt''" u] s2 s'(5,6) assms(4) obtain h y where
    "sync_getTime env (RdkDefaultTimeSync ''/tmp/clock.txt'' u) s2 = (Inr (u, y), s2\<lparr>w_hist := h\<rparr>)"
    by (auto simp: max_def split: if_splits)
  with s'(1,5) f show ?thesis
    by (simp add: passes_def updateTime_compare_def bindM_run ret_run takeWhile_show_int stoll_io_sane
        del: sync_updateTime.simps sync_getTime.simps)
qed

lemma default_file_passes:
  fixes s :: "'w world_scheme"
  assumes "sane_clock env" "files_work env"
  shows "passes (updateTimeWitDefaultFile env) s"
  using store_update_run [OF assms, of 1640995200 0 "''/opt/secure/clock.txt''" s]
  by (auto simp: passes_def updateTimeWitDefaultFile_def bindM_run getM_run file_exists_def)

lemma existing_time_passes:
  fixes s :: "'w world_scheme"
  assumes "sane_clock env" "files_work env" "valid_time (version_time s)"
    and "\<And>a b. clock_reading env a \<Longrightarrow> clock_reading env b \<Longrightarrow> a < b + 600"
  shows "passes (updateTimeWithExistingTime env) s"
proof -
  define c s1 where "c = out_int env (w_hist s) Time_null"
    and "s1 = s\<lparr>w_hist := w_hist s @ [(Time_null, ret_code env (w_hist s) Time_null)]\<rparr>"
  have t: "time_null env s = (Inr c, s1)" by (simp add: time_null_def call_int_def prog_simps c_def s1_def)
  have c: "clock_reading env c" by (auto simp: clock_reading_def c_def)
  from store_update_run [OF assms(1,2) valid_time_0, of 0 "''/opt/secure/clock.txt''" s1] obtain u s2 where
    s2: "sync_updateTime env (RdkDefaultTimeSync ''/opt/secure/clock.txt'' 0) 0 s1 = (Inr (RdkDefaultTimeSync ''/opt/secure/clock.txt'' u), s2)"
      "valid_time u" "clock_reading env u" "stored s2 ''/opt/secure/clock.txt'' = u" "version_time s2 = version_time s"
    by (auto simp: s1_def valid_time_def)
  from store_get_run [OF assms(1,2), of s2 "''/opt/secure/clock.txt''" u] s2(2,4,5) assms(3) obtain h y where
    "sync_getTime env (RdkDefaultTimeSync ''/opt/secure/clock.txt'' u) s2 = (Inr (max (version_time s) u, y), s2\<lparr>w_hist := h\<rparr>)" by auto
  with t s2(1) assms(4) [OF c s2(3)] show ?thesis
    by (simp add: passes_def updateTimeWithExistingTime_def bindM_run ret_run
        del: sync_updateTime.simps sync_getTime.simps)
qed

lemma build_time_passes:
  fixes s :: "'w world_scheme"
  assumes "sane_clock env" "files_work env" "valid_time (stored s ''/opt/secure/clock.txt'')"
    and "stored s ''/opt/secure/clock.txt'' \<le> 1640995200"
  shows "passes (getTimeBuildTimeTest env) s"
proof -
  obtain h m where w: "write_stream env ''/version.txt'' test_version s =
      (Inr True, put_file ''/version.txt'' test_version m (s\<lparr>w_hist := h\<rparr>))"
    using write_stream_run [of env s "''/version.txt''" test_version] assms(2) by (auto simp: files_work_def)
  define s1 where "s1 = put_file ''/version.txt'' test_version m (s\<lparr>w_hist := h\<rparr>)"
  have v: "version_time s1 = 1640995200" by (rule test_version_time [of _ m]) (simp add: s1_def put_file_def)
  have st: "stored s1 ''/opt/secure/clock.txt'' = stored s ''/opt/secure/clock.txt''"
    by (simp add: s1_def put_file_def stored_def)
  from store_get_run [OF assms(1,2), of s1 "''/opt/secure/clock.txt''" 0] st v assms(3,4) obtain h' y where
    "sync_getTime env (RdkDefaultTimeSync ''/opt/secure/clock.txt'' 0) s1 = (Inr (1640995200, y), s1\<lparr>w_hist := h'\<rparr>)"
    by (auto simp: max_def split: if_splits)
  with w show ?thesis
    by (simp add: passes_def getTimeBuildTimeTest_def bindM_run ret_run s1_def del: sync_getTime.simps)
qed

section \<open>Properties\<close>

text \<open>
  C40: The test named for the ten-minute increment does not test it. It passes on the model exactly
  when the image was built no earlier than the first time it stores: the second, older time has
  replaced the first one in the file, and both queries answer the build time that an earlier test
  has left in the version file. With an older image the stored time has gone back and the test fails.
\<close>

theorem older_time_test_iff:
  fixes s :: "'w world_scheme"
  assumes "sane_clock env" "files_work env" "valid_time (version_time s)"
  shows "passes (updateTimeWithOlderTimeIncrementsBy10Minutes env) s \<longleftrightarrow> 1640995200 \<le> version_time s"
proof -
  let ?p = "''/tmp/clock.txt''"
  from store_update_run [OF assms(1,2), of 1640995200 0 ?p s] obtain s1 where
    s1: "sync_updateTime env (RdkDefaultTimeSync ?p 0) 1640995200 s = (Inr (RdkDefaultTimeSync ?p 1640995200), s1)"
      "stored s1 ?p = 1640995200" "version_time s1 = version_time s" by auto
  define v1 where "v1 = max (version_time s) 1640995200"
  from store_get_run [OF assms(1,2), of s1 ?p 1640995200] s1 assms(3) obtain h1 where
    s2: "sync_getTime env (RdkDefaultTimeSync ?p 1640995200) s1 = (Inr (v1, RdkDefaultTimeSync ?p v1), s1\<lparr>w_hist := h1\<rparr>)"
    by (auto simp: v1_def)
  have "0 \<le> v1" "v1 + 600 < 2 ^ 40" "1640990000 < v1"
    using assms(3) by (auto simp: v1_def valid_time_def time_bound_def max_def)
  with store_update_run [OF assms(1,2), of 1640990000 v1 ?p "s1\<lparr>w_hist := h1\<rparr>"] obtain s3 where
    s3: "sync_updateTime env (RdkDefaultTimeSync ?p v1) 1640990000 (s1\<lparr>w_hist := h1\<rparr>) =
        (Inr (RdkDefaultTimeSync ?p (v1 + 600)), s3)"
      "stored s3 ?p = 1640990000" "version_time s3 = version_time s"
    using s1(3) by auto
  from store_get_run [OF assms(1,2), of s3 ?p "v1 + 600"] s3 assms(3) obtain h3 y where
    "sync_getTime env (RdkDefaultTimeSync ?p (v1 + 600)) s3 = (Inr (max (version_time s) 1640990000, y), s3\<lparr>w_hist := h3\<rparr>)"
    by auto
  with s1(1) s2 s3(1) have "passes (updateTimeWithOlderTimeIncrementsBy10Minutes env) s \<longleftrightarrow> max (version_time s) 1640990000 = v1"
    by (simp add: passes_def updateTimeWithOlderTimeIncrementsBy10Minutes_def bindM_run ret_run
        del: sync_updateTime.simps sync_getTime.simps)
  then show ?thesis by (auto simp: v1_def max_def)
qed

theorem older_time_test_iff_witness:
  "\<not> passes (updateTimeWithOlderTimeIncrementsBy10Minutes (calm_env 1700000000)) empty_world"
proof -
  have "version_time empty_world = 0" by (simp add: version_time_def empty_world_def)
  with older_time_test_iff [of "calm_env 1700000000" empty_world] show ?thesis
    by (simp add: calm_env_sane calm_env_files valid_time_def time_bound_def)
qed

text \<open>
  The model passes the repository's unit tests of the default time store. When the clock is sane,
  set to a time after 2021 and moves by less than ten minutes during the tests, the files can be
  written, and the version file is the one the first test leaves, the tests that update and query a
  store and the two tests of the tokenizer pass.
\<close>

theorem store_tests_pass:
  fixes s :: "'w world_scheme"
  assumes "sane_clock env" "files_work env" "\<And>u. clock_reading env u \<Longrightarrow> 1640995200 \<le> u"
    and "\<And>a b. clock_reading env a \<Longrightarrow> clock_reading env b \<Longrightarrow> a < b + 600"
    and "w_fs s ''/version.txt'' = Some \<lparr>content = test_version, mtime = m\<rparr>"
    and "valid_time (stored s ''/opt/secure/clock.txt'')" "stored s ''/opt/secure/clock.txt'' \<le> 1640995200"
  shows "passes (getTimeBuildTimeTest env) s \<and> passes (updateTimeWithZero env) s \<and>
    passes (updateTimeWithNonZero env) s \<and> passes (updateTimeWitDefaultFile env) s \<and>
    passes (updateTimeWithExistingTime env) s \<and> tokenizeBreakCoverage \<and> TokenizeTest"
proof -
  have v: "version_time s = 1640995200" by (rule test_version_time [OF assms(5)])
  have "passes (updateTime_compare env 0) s" "passes (updateTime_compare env 1640995200) s"
    using assms(3) by (auto intro!: compare_passes [OF assms(1,2)] simp: v)
  moreover have tokenizeBreakCoverage TokenizeTest by code_simp+
  ultimately show ?thesis
    using build_time_passes [OF assms(1,2,6,7)] default_file_passes [OF assms(1,2), of s]
      existing_time_passes [OF assms(1,2) _ assms(4), of s] v
    by (simp add: updateTimeWithZero_def updateTimeWithNonZero_def)
qed

theorem store_tests_pass_witness:
  "passes (updateTimeWithZero (calm_env 1700000000))
     (empty_world\<lparr>w_fs := [''/version.txt'' \<mapsto> \<lparr>content = test_version, mtime = 1\<rparr>]\<rparr>)"
proof -
  have "sane_clock (calm_env 1700000000)" by (rule calm_env_sane) (simp add: valid_time_def time_bound_def)
  from store_tests_pass [OF this calm_env_files, of "empty_world\<lparr>w_fs := [''/version.txt'' \<mapsto> \<lparr>content = test_version, mtime = 1\<rparr>]\<rparr>" 1]
  show ?thesis by (simp add: clock_reading_def stored_def) (simp add: calm_env_def)
qed

end
