(* ===== verification/Test_Bus.thy ===== *)
theory Test_Bus
  imports Power_Controller
begin

text \<open>
  The repository's unit tests of the publishers and subscribers, run on the model:
  \<open>iarmpublish_gtest.cpp\<close>, \<open>iarmtimerstatus_gtest.cpp\<close>, \<open>iarmpowersubscribe_gtest.cpp\<close>,
  \<open>ipowercontrollersubscriber_gtest.cpp\<close> and \<open>pubsubfactory_gtest.cpp\<close>. The mocks of the bus and of
  the power controller are environments: a function with an expectation returns what the test says,
  every other one returns zero, the default of the mocking library.
\<close>

section \<open>Mocks and fixtures\<close>

text \<open>The results of \<open>libIARM.h\<close>.\<close>

definition IARM_RESULT_INVALID_PARAM :: int where
  "IARM_RESULT_INVALID_PARAM = 1"

definition IARM_RESULT_INVALID_STATE :: int where
  "IARM_RESULT_INVALID_STATE = 2"

definition IARM_RESULT_IPCCORE_FAIL :: int where
  "IARM_RESULT_IPCCORE_FAIL = 3"

definition mock_bus :: "(xcall \<Rightarrow> int option) \<Rightarrow> env \<Rightarrow> env" where
  "mock_bus results env = env\<lparr>ret_code := (\<lambda>h c. case results c of None \<Rightarrow> 0 | Some r \<Rightarrow> r)\<rparr>"

definition not_connected :: "int \<Rightarrow> xcall \<Rightarrow> int option" where
  "not_connected r c = (case c of IARM_Bus_IsConnected _ \<Rightarrow> Some r | _ \<Rightarrow> None)"

definition times :: "(xcall \<Rightarrow> bool) \<Rightarrow> 'w world_scheme \<Rightarrow> nat" where
  "times P s = length (filter (\<lambda>(c, _). P c) (w_hist s))"

definition is_init :: "xcall \<Rightarrow> bool" where
  "is_init c = (case c of IARM_Bus_Init _ \<Rightarrow> True | _ \<Rightarrow> False)"

definition is_register :: "xcall \<Rightarrow> bool" where
  "is_register c = (case c of IARM_Bus_RegisterCall _ \<Rightarrow> True | _ \<Rightarrow> False)"

text \<open>
  The process of a test, with the variables its handlers write: what the handler has received, and
  whether it was called. A test starts with no calls made and no instance.
\<close>

record test_bus = bus +
  gReceivedStatus :: string
  handlerCalled :: bool

definition bus_fixture :: "'w test_bus_scheme \<Rightarrow> 'w test_bus_scheme" where
  "bus_fixture s = s\<lparr>w_hist := [], b_subs := [], b_pInstance := None, b_threads := [],
     gReceivedStatus := [], handlerCalled := False\<rparr>"

text \<open>\<open>TestPowerHandler\<close> and \<open>testHandler\<close>: the function pointer that the tests register.\<close>

definition test_handlers :: "funcPtr \<Rightarrow> string \<Rightarrow> ('w test_bus_ext, unit) bus_io" where
  "test_handlers f status = modM (\<lambda>s. s\<lparr>gReceivedStatus := status, handlerCalled := True\<rparr>)"

definition after :: "('s \<Rightarrow> ('e + 'a) \<times> 's) \<Rightarrow> 's \<Rightarrow> ('a \<Rightarrow> 's \<Rightarrow> bool) \<Rightarrow> bool" where
  "after m s P = (case m s of (Inr x, t) \<Rightarrow> P x t | _ \<Rightarrow> False)"

section \<open>IarmPublish\<close>

definition Constructor_DoesNotInitIfConnected :: "env \<Rightarrow> 'w test_bus_scheme \<Rightarrow> bool" where
  "Constructor_DoesNotInitIfConnected env s =
     after (new_IarmPublish (mock_bus (not_connected IARM_RESULT_SUCCESS) env) ''TestPublisher'') (bus_fixture s)
       (\<lambda>_ t. times ((=) (IARM_Bus_IsConnected ''TestPublisher'')) t = 1 \<and> times is_init t = 0 \<and>
          times ((=) IARM_Bus_Connect) t = 0)"

definition Constructor_CallsInitAndConnectIfNotConnected :: "env \<Rightarrow> 'w test_bus_scheme \<Rightarrow> bool" where
  "Constructor_CallsInitAndConnectIfNotConnected env s =
     after (new_IarmPublish (mock_bus (not_connected IARM_RESULT_IPCCORE_FAIL) env) ''TestPublisher'') (bus_fixture s)
       (\<lambda>_ t. times ((=) (IARM_Bus_IsConnected ''TestPublisher'')) t = 1 \<and>
          times ((=) (IARM_Bus_Init ''TestPublisher'')) t = 1 \<and> times ((=) IARM_Bus_Connect) t = 1)"

definition Publish_CallsBroadcastEventWithCorrectArgs :: "env \<Rightarrow> TimerMsg \<Rightarrow> 'w test_bus_scheme \<Rightarrow> bool" where
  "Publish_CallsBroadcastEventWithCorrectArgs env msg s =
     (let m = mock_bus (not_connected IARM_RESULT_SUCCESS) env in
      after (bindM (new_IarmPublish m ''TestPublisher'') (\<lambda>publisher.
               publish m publisher 100 (msg\<lparr>msg_event := 100, msg_quality := 50\<rparr>))) (bus_fixture s)
        (\<lambda>_ t. times (\<lambda>c. case c of IARM_Bus_BroadcastEvent owner event _ \<Rightarrow> owner = ''TestPublisher'' \<and> event = 100
             | _ \<Rightarrow> False) t = 1))"

section \<open>IarmTimerStatusSubscriber\<close>

definition timer_Constructor_IarmNotConnected :: "env \<Rightarrow> 'w test_bus_scheme \<Rightarrow> bool" where
  "timer_Constructor_IarmNotConnected env s =
     after (new_IarmTimerStatusSubscriber (mock_bus (not_connected IARM_RESULT_INVALID_STATE) env) ''test_subscriber'')
       (bus_fixture s) (\<lambda>_ t. times is_init t = 1 \<and> times ((=) IARM_Bus_Connect) t = 1)"

definition timer_Constructor_IarmAlreadyConnected :: "env \<Rightarrow> 'w test_bus_scheme \<Rightarrow> bool" where
  "timer_Constructor_IarmAlreadyConnected env s =
     after (new_IarmTimerStatusSubscriber (mock_bus (not_connected IARM_RESULT_SUCCESS) env) ''test_subscriber'')
       (bus_fixture s) (\<lambda>_ t. times is_init t = 0 \<and> times ((=) IARM_Bus_Connect) t = 0)"

text \<open>A new subscriber, and \<open>subscribe\<close> with the result of the registration.\<close>

definition timer_subscribe :: "env \<Rightarrow> int \<Rightarrow> string \<Rightarrow> 'w test_bus_scheme \<Rightarrow> (bool \<Rightarrow> 'w test_bus_scheme \<Rightarrow> bool) \<Rightarrow> bool" where
  "timer_subscribe env result eventname s P =
     (let m = mock_bus (\<lambda>c. if is_register c then Some result else None) env in
      after (bindM (new_IarmTimerStatusSubscriber m ''test_subscriber'') (\<lambda>i.
               subscribe m (Some i) eventname GetTimeStatusFn)) (bus_fixture s) P)"

definition timer_Subscribe_InvalidEventName :: "env \<Rightarrow> 'w test_bus_scheme \<Rightarrow> bool" where
  "timer_Subscribe_InvalidEventName env s =
     timer_subscribe env 0 ''INVALID_EVENT'' s (\<lambda>result t. \<not> result \<and> times is_register t = 0)"

definition timer_Subscribe_ReturnsFalseOnSuccess :: "env \<Rightarrow> 'w test_bus_scheme \<Rightarrow> bool" where
  "timer_Subscribe_ReturnsFalseOnSuccess env s =
     timer_subscribe env IARM_RESULT_SUCCESS TIMER_STATUS_MSG s
       (\<lambda>result t. \<not> result \<and> times ((=) (IARM_Bus_RegisterCall TIMER_STATUS_MSG)) t = 1)"

definition timer_Subscribe_ReturnsTrueOnFailure :: "env \<Rightarrow> 'w test_bus_scheme \<Rightarrow> bool" where
  "timer_Subscribe_ReturnsTrueOnFailure env s =
     timer_subscribe env IARM_RESULT_INVALID_STATE TIMER_STATUS_MSG s
       (\<lambda>result t. result \<and> times ((=) (IARM_Bus_RegisterCall TIMER_STATUS_MSG)) t = 1)"

section \<open>IarmPowerSubscriber\<close>

definition power_Constructor_NotConnected :: "env \<Rightarrow> 'w test_bus_scheme \<Rightarrow> bool" where
  "power_Constructor_NotConnected env s =
     after (new_IarmPowerSubscriber (mock_bus (not_connected IARM_RESULT_INVALID_STATE) env) ''TestSub'')
       (bus_fixture s) (\<lambda>_ t. times is_init t = 1 \<and> times ((=) IARM_Bus_Connect) t = 1)"

text \<open>A new subscriber that subscribes \<open>TestPowerHandler\<close>, with the result of the registration.\<close>

definition power_subscribe :: "env \<Rightarrow> int \<Rightarrow> string \<Rightarrow> ('w test_bus_ext, bool) bus_io" where
  "power_subscribe env result eventname =
     (let m = mock_bus (\<lambda>c. if c = IARM_Bus_RegisterEventHandler then Some result else None) env in
      bindM (new_IarmPowerSubscriber m ''TestSub'') (\<lambda>i. subscribe m (Some i) eventname PowerhandlerFn))"

definition power_Subscribe_ValidPowerEvent_Success :: "env \<Rightarrow> 'w test_bus_scheme \<Rightarrow> bool" where
  "power_Subscribe_ValidPowerEvent_Success env s =
     after (power_subscribe env IARM_RESULT_INVALID_PARAM POWER_CHANGE_MSG) (bus_fixture s)
       (\<lambda>result t. result \<and> times ((=) IARM_Bus_RegisterEventHandler) t = 1)"

definition power_Subscribe_InvalidEvent :: "env \<Rightarrow> 'w test_bus_scheme \<Rightarrow> bool" where
  "power_Subscribe_InvalidEvent env s =
     after (power_subscribe env 0 ''UNKNOWN_EVENT'') (bus_fixture s) (\<lambda>result t. \<not> result)"

text \<open>The tests of the event handler: subscribe, deliver an event, look at the status received.\<close>

definition power_event :: "env \<Rightarrow> int \<Rightarrow> powerState \<Rightarrow> powerState \<Rightarrow> 'w test_bus_scheme \<Rightarrow> string \<Rightarrow> bool" where
  "power_event env eventId cur new s expected =
     after (bindM (power_subscribe env 0 POWER_CHANGE_MSG) (\<lambda>_.
              powereventHandler test_handlers env eventId \<lparr>currentState = cur, newState = new\<rparr>)) (bus_fixture s)
       (\<lambda>_ t. gReceivedStatus t = expected)"

definition PowerEventHandler_tests :: "env \<Rightarrow> 'w test_bus_scheme \<Rightarrow> bool" where
  "PowerEventHandler_tests env s \<longleftrightarrow>
     (let e = IARM_BUS_PWRMGR_EVENT_MODECHANGED env in
      power_event env e POWER_STATE_ON POWER_STATE_STANDBY_DEEP_SLEEP s ''DEEP_SLEEP_ON'' \<and>
      power_event env e POWER_STATE_STANDBY_DEEP_SLEEP POWER_STATE_ON s ''DEEP_SLEEP_OFF'' \<and>
      power_event env e POWER_STATE_STANDBY_DEEP_SLEEP POWER_STATE_STANDBY_LIGHT_SLEEP s ''DEEP_SLEEP_OFF'' \<and>
      power_event env e POWER_STATE_STANDBY_DEEP_SLEEP POWER_STATE_STANDBY s ''DEEP_SLEEP_OFF'')"

text \<open>Another event: the test passes no data, so the states are arguments.\<close>

definition PowerEventHandler_UnrelatedEventId :: "env \<Rightarrow> powerState \<Rightarrow> powerState \<Rightarrow> 'w test_bus_scheme \<Rightarrow> bool" where
  "PowerEventHandler_UnrelatedEventId env cur new s = power_event env 999 cur new s []"

definition PowerEventHandler_NullSingleton :: "env \<Rightarrow> 'w test_bus_scheme \<Rightarrow> bool" where
  "PowerEventHandler_NullSingleton env s =
     after (powereventHandler test_handlers env (IARM_BUS_PWRMGR_EVENT_MODECHANGED env)
              \<lparr>currentState = POWER_STATE_ON, newState = POWER_STATE_STANDBY_DEEP_SLEEP\<rparr>)
       ((bus_fixture s)\<lparr>b_pInstance := None\<rparr>) (\<lambda>_ t. True)"

section \<open>IpowerControllerSubscriber\<close>

text \<open>
  The destructor of an object that has not subscribed: its event thread was never started, so there
  is nothing to join.
\<close>

definition destroy_unsubscribed :: "env \<Rightarrow> nat \<Rightarrow> ('w, unit) bus_io" where
  "destroy_unsubscribed env i = bindM (modM (set_pwr_queue i [])) (\<lambda>_. unregister env)"

definition Destructor_CallsPowerControllerTerm :: "env \<Rightarrow> 'w test_bus_scheme \<Rightarrow> bool" where
  "Destructor_CallsPowerControllerTerm env s =
     (let m = mock_bus (\<lambda>_. None) env in
      after (bindM (new_IpowerControllerSubscriber ''test_subscriber'') (destroy_unsubscribed m)) (bus_fixture s)
        (\<lambda>_ t. times ((=) PowerController_Term) t = 1))"

definition Destructor_UnregisterCallbackFails_StillCleansUp :: "env \<Rightarrow> 'w test_bus_scheme \<Rightarrow> bool" where
  "Destructor_UnregisterCallbackFails_StillCleansUp env s =
     (let m = mock_bus (\<lambda>c. if c = PowerController_UnRegisterPowerModeChangedCallback then Some 1 else None) env in
      after (bindM (new_IpowerControllerSubscriber ''test_subscriber'') (destroy_unsubscribed m)) (bus_fixture s)
        (\<lambda>_ t. times ((=) PowerController_Term) t = 1 \<and>
           times ((=) PowerController_UnRegisterPowerModeChangedCallback) t = 1))"

definition ipower_Subscribe_Invalid :: "env \<Rightarrow> string \<Rightarrow> 'w test_bus_scheme \<Rightarrow> bool" where
  "ipower_Subscribe_Invalid env eventname s =
     (let m = mock_bus (\<lambda>_. None) env in
      after (bindM (new_IpowerControllerSubscriber ''test_subscriber'') (\<lambda>i. subscribe m (Some i) eventname NullFn))
        (bus_fixture s) (\<lambda>ret t. \<not> ret))"

text \<open>An object with its handler assigned by the test, and a power change handled.\<close>

definition ipower_handle :: "funcPtr \<Rightarrow> powerState \<Rightarrow> powerState \<Rightarrow> 'w test_bus_scheme \<Rightarrow> ('w test_bus_scheme \<Rightarrow> bool) \<Rightarrow> bool" where
  "ipower_handle handler cur new s P =
     after (bindM (new_IpowerControllerSubscriber ''sub'') (\<lambda>i.
            bindM (put_sub i (IpowerControllerSubscriber ''sub'' handler [])) (\<lambda>_.
            sysTimeMgrHandlePwrEventData test_handlers cur new))) (bus_fixture s) (\<lambda>_. P)"

definition HandlePwrEventData_DeepSleepOn :: "'w test_bus_scheme \<Rightarrow> bool" where
  "HandlePwrEventData_DeepSleepOn s =
     ipower_handle PowerhandlerFn POWER_STATE_UNKNOWN POWER_STATE_OFF s
       (\<lambda>t. handlerCalled t \<and> gReceivedStatus t = ''DEEP_SLEEP_ON'')"

definition HandlePwrEventData_DeepSleepOff :: "'w test_bus_scheme \<Rightarrow> bool" where
  "HandlePwrEventData_DeepSleepOff s =
     ipower_handle PowerhandlerFn POWER_STATE_STANDBY_DEEP_SLEEP POWER_STATE_ON s
       (\<lambda>t. handlerCalled t \<and> gReceivedStatus t = ''DEEP_SLEEP_OFF'')"

definition HandlePwrEventData_NoHandler_DoesNotCrash :: "'w test_bus_scheme \<Rightarrow> bool" where
  "HandlePwrEventData_NoHandler_DoesNotCrash s =
     ipower_handle NullFn POWER_STATE_UNKNOWN POWER_STATE_OFF s (\<lambda>t. True)"

text \<open>The object of the test double that subscribes without a bus.\<close>

definition Subscribe_WithTestSubscriber :: "env \<Rightarrow> 'w test_bus_scheme \<Rightarrow> bool" where
  "Subscribe_WithTestSubscriber env s =
     after (bindM (alloc_sub (TestSubscriber ''test_subscriber'')) (\<lambda>i. subscribe env (Some i) POWER_CHANGE_MSG NullFn))
       (bus_fixture s) (\<lambda>ret t. ret)"

definition SysTimeMgrPwrEventHandler_EnqueuesEvent :: "'w test_bus_scheme \<Rightarrow> bool" where
  "SysTimeMgrPwrEventHandler_EnqueuesEvent s =
     after (bindM (new_IpowerControllerSubscriber ''test_subscriber'') (\<lambda>i.
            bindM (modM (set_pwr_queue i [])) (\<lambda>_.
            bindM (sysTimeMgrPwrEventHandler \<lparr>currentState = POWER_STATE_OFF, newState = POWER_STATE_ON\<rparr>) (\<lambda>_.
            getM (pwr_queue i))))) (bus_fixture s)
       (\<lambda>q t. length q = 1 \<and> currentState (hd q) = POWER_STATE_OFF \<and> newState (hd q) = POWER_STATE_ON)"

section \<open>The factory\<close>

definition createPublish_tests :: "env \<Rightarrow> 'w test_bus_scheme \<Rightarrow> bool" where
  "createPublish_tests env s \<longleftrightarrow>
     after (createPublish env ''test'' ''args_for_test'') (bus_fixture s)
       (\<lambda>pub t. case pub of Some (TestPublish _) \<Rightarrow> True | _ \<Rightarrow> False) \<and>
     (ENABLE_IARM env \<longrightarrow> after (createPublish env ''iarm'' ''args_for_iarm'') (bus_fixture s)
       (\<lambda>pub t. case pub of Some (IarmPublish _) \<Rightarrow> True | _ \<Rightarrow> False)) \<and>
     after (createPublish env ''unknown'' ''some_arg'') (bus_fixture s) (\<lambda>pub t. pub = None)"

text \<open>A pointer to a new subscriber of a class.\<close>

definition points_to :: "(subscriber \<Rightarrow> bool) \<Rightarrow> nat option \<Rightarrow> 'w test_bus_scheme \<Rightarrow> bool" where
  "points_to is p t = (case p of None \<Rightarrow> False | Some i \<Rightarrow> i < length (b_subs t) \<and> is (b_subs t ! i))"

definition createSubscriber_tests :: "env \<Rightarrow> 'w test_bus_scheme \<Rightarrow> bool" where
  "createSubscriber_tests env s \<longleftrightarrow>
     after (createSubscriber env ''test'' ''args_test'' ''unused_subtype'') (bus_fixture s)
       (points_to (\<lambda>o'. case o' of TestSubscriber _ \<Rightarrow> True | _ \<Rightarrow> False)) \<and>
     (ENABLE_IARM env \<longrightarrow>
        after (createSubscriber env ''iarm'' ''args_timer'' TIMER_STATUS_MSG) (bus_fixture s)
          (points_to (\<lambda>o'. case o' of IarmTimerStatusSubscriber _ \<Rightarrow> True | _ \<Rightarrow> False)) \<and>
        after (createSubscriber env ''iarm'' ''args_power'' POWER_CHANGE_MSG) (bus_fixture s)
          (points_to (\<lambda>o'. case o' of IpowerControllerSubscriber _ _ _ \<Rightarrow> PWRMGRPLUGIN_ENABLED env
             | IarmPowerSubscriber _ _ \<Rightarrow> \<not> PWRMGRPLUGIN_ENABLED env | _ \<Rightarrow> False))) \<and>
     after (createSubscriber env ''unknown'' ''some_arg'' ''some_subtype'') (bus_fixture s) (\<lambda>p t. p = None)"

section \<open>The tests pass\<close>

lemma times_simps [simp]:
  "times P (s\<lparr>w_hist := []\<rparr>) = 0" "times P (s\<lparr>w_hist := (c, r) # h\<rparr>) = (if P c then 1 else 0) + times P (s\<lparr>w_hist := h\<rparr>)"
  by (simp_all add: times_def)

lemma mock_bus_simps [simp]:
  "ret_code (mock_bus results env) h c = (case results c of None \<Rightarrow> 0 | Some r \<Rightarrow> r)"
  "IARM_BUS_PWRMGR_EVENT_MODECHANGED (mock_bus results env) = IARM_BUS_PWRMGR_EVENT_MODECHANGED env"
  by (simp_all add: mock_bus_def)

lemma c_string_names [simp]: "c_string ''TestPublisher'' = ''TestPublisher''" "c_string TIMER_STATUS_MSG = TIMER_STATUS_MSG"
  by code_simp+

lemmas bus_test_simps = after_def bus_fixture_def times_def is_init_def is_register_def not_connected_def
  IARM_RESULT_SUCCESS_def IARM_RESULT_INVALID_PARAM_def IARM_RESULT_INVALID_STATE_def IARM_RESULT_IPCCORE_FAIL_def
  iarm_connect_def new_IarmSubscriber_def alloc_sub_def put_sub_def subscribe_def deref_def prog_simps Let_def

lemma publish_tests:
  "Constructor_DoesNotInitIfConnected env s" "Constructor_CallsInitAndConnectIfNotConnected env s"
  "Publish_CallsBroadcastEventWithCorrectArgs env msg s"
  by (simp_all add: Constructor_DoesNotInitIfConnected_def Constructor_CallsInitAndConnectIfNotConnected_def
      Publish_CallsBroadcastEventWithCorrectArgs_def new_IarmPublish_def bus_test_simps)

lemma timer_tests:
  "timer_Constructor_IarmNotConnected env s" "timer_Constructor_IarmAlreadyConnected env s"
  "timer_Subscribe_InvalidEventName env s" "timer_Subscribe_ReturnsFalseOnSuccess env s"
  "timer_Subscribe_ReturnsTrueOnFailure env s"
  by (simp_all add: timer_Constructor_IarmNotConnected_def timer_Constructor_IarmAlreadyConnected_def
      timer_Subscribe_InvalidEventName_def timer_Subscribe_ReturnsFalseOnSuccess_def
      timer_Subscribe_ReturnsTrueOnFailure_def timer_subscribe_def new_IarmTimerStatusSubscriber_def
      timerstatus_subscribe_def bus_test_simps) (simp add: TIMER_STATUS_MSG_def)

lemma power_tests:
  "power_Constructor_NotConnected env s" "power_Subscribe_ValidPowerEvent_Success env s" "power_Subscribe_InvalidEvent env s"
  by (simp_all add: power_Constructor_NotConnected_def power_Subscribe_ValidPowerEvent_Success_def
      power_Subscribe_InvalidEvent_def power_subscribe_def new_IarmPowerSubscriber_def iarmpower_subscribe_def
      bus_test_simps POWER_CHANGE_MSG_def)

text \<open>After the subscription the handler is the one registered.\<close>

lemma power_subscribe_run:
  "\<exists>b t. power_subscribe env r POWER_CHANGE_MSG (bus_fixture s) = (Inr b, t) \<and>
     iarm_power_instance t = Some PowerhandlerFn \<and> gReceivedStatus t = []"
  by (simp add: power_subscribe_def new_IarmPowerSubscriber_def iarmpower_subscribe_def iarm_power_instance_def
      bus_test_simps)

lemma power_event_run:
  "power_event env (IARM_BUS_PWRMGR_EVENT_MODECHANGED env) cur new s expected \<longleftrightarrow>
     expected = (case power_message cur new of None \<Rightarrow> [] | Some m \<Rightarrow> m)"
proof -
  obtain b t where t: "power_subscribe env 0 POWER_CHANGE_MSG (bus_fixture s) = (Inr b, t)"
    "iarm_power_instance t = Some PowerhandlerFn" "gReceivedStatus t = []"
    using power_subscribe_run by blast
  from powereventHandler_run [OF t(2), of test_handlers env "\<lparr>currentState = cur, newState = new\<rparr>"] t(1,3)
  show ?thesis
    by (auto simp: power_event_def after_def bindM_run invoke_fn_def test_handlers_def modM_run split: option.split)
qed

lemma handler_tests:
  "PowerEventHandler_tests env s" "PowerEventHandler_NullSingleton env s"
  "IARM_BUS_PWRMGR_EVENT_MODECHANGED env \<noteq> 999 \<Longrightarrow> PowerEventHandler_UnrelatedEventId env cur new s"
proof -
  show "PowerEventHandler_tests env s"
    by (simp add: PowerEventHandler_tests_def Let_def power_event_run power_message_def)
  show "PowerEventHandler_NullSingleton env s"
    by (simp add: PowerEventHandler_NullSingleton_def powereventHandler_def iarm_power_instance_def after_def prog_simps)
  obtain b t where "power_subscribe env 0 POWER_CHANGE_MSG (bus_fixture s) = (Inr b, t)" "gReceivedStatus t = []"
    using power_subscribe_run by blast
  then show "PowerEventHandler_UnrelatedEventId env cur new s" if "IARM_BUS_PWRMGR_EVENT_MODECHANGED env \<noteq> 999"
    using that by (simp add: PowerEventHandler_UnrelatedEventId_def power_event_def after_def powereventHandler_def
        bindM_run ret_run)
qed

lemma ipower_tests:
  "Destructor_CallsPowerControllerTerm env s" "Destructor_UnregisterCallbackFails_StillCleansUp env s"
  "eventname \<noteq> POWER_CHANGE_MSG \<Longrightarrow> ipower_Subscribe_Invalid env eventname s"
  "HandlePwrEventData_DeepSleepOn s" "HandlePwrEventData_DeepSleepOff s" "HandlePwrEventData_NoHandler_DoesNotCrash s"
  "Subscribe_WithTestSubscriber env s" "SysTimeMgrPwrEventHandler_EnqueuesEvent s"
  by (simp_all add: Destructor_CallsPowerControllerTerm_def Destructor_UnregisterCallbackFails_StillCleansUp_def
      ipower_Subscribe_Invalid_def HandlePwrEventData_DeepSleepOn_def HandlePwrEventData_DeepSleepOff_def
      HandlePwrEventData_NoHandler_DoesNotCrash_def Subscribe_WithTestSubscriber_def
      SysTimeMgrPwrEventHandler_EnqueuesEvent_def destroy_unsubscribed_def unregister_def ipower_handle_def
      new_IpowerControllerSubscriber_def ipower_subscribe_def sysTimeMgrHandlePwrEventData_def ipower_instance_def
      invoke_fn_def test_handlers_def sysTimeMgrPwrEventHandler_def set_pwr_queue_def pwr_queue_def bus_test_simps)

lemma factory_tests: "createPublish_tests env s" "createSubscriber_tests env s"
  by (simp_all add: createPublish_tests_def createPublish_def new_IarmPublish_def createSubscriber_tests_def
      createSubscriber_def points_to_def new_IarmTimerStatusSubscriber_def new_IarmPowerSubscriber_def
      new_IpowerControllerSubscriber_def bus_test_simps TIMER_STATUS_MSG_def POWER_CHANGE_MSG_def)

section \<open>Properties\<close>

text \<open>
  The model passes these unit tests of the publishers and subscribers. For every environment and
  every world, with the results the mocks are set to, the constructors connect to
  the bus as expected, publishing broadcasts once, a subscription answers what the tests expect,
  including the inverted answer of the IARM registrations, the event handlers of both power back
  ends pass on the expected status or nothing, events are queued, an object that has not subscribed
  is destroyed cleanly, and the factory makes the expected objects.
\<close>

theorem bus_tests_pass:
  fixes s :: "'w test_bus_scheme"
  assumes "IARM_BUS_PWRMGR_EVENT_MODECHANGED env \<noteq> 999"
  shows "Constructor_DoesNotInitIfConnected env s \<and> Constructor_CallsInitAndConnectIfNotConnected env s \<and>
    Publish_CallsBroadcastEventWithCorrectArgs env msg s \<and>
    timer_Constructor_IarmNotConnected env s \<and> timer_Constructor_IarmAlreadyConnected env s \<and>
    timer_Subscribe_InvalidEventName env s \<and> timer_Subscribe_ReturnsFalseOnSuccess env s \<and>
    timer_Subscribe_ReturnsTrueOnFailure env s \<and>
    power_Constructor_NotConnected env s \<and> power_Subscribe_ValidPowerEvent_Success env s \<and>
    power_Subscribe_InvalidEvent env s \<and> PowerEventHandler_tests env s \<and>
    PowerEventHandler_UnrelatedEventId env cur new s \<and> PowerEventHandler_NullSingleton env s \<and>
    Destructor_CallsPowerControllerTerm env s \<and> Destructor_UnregisterCallbackFails_StillCleansUp env s \<and>
    ipower_Subscribe_Invalid env ''INVALID_EVENT'' s \<and> ipower_Subscribe_Invalid env [] s \<and>
    HandlePwrEventData_DeepSleepOn s \<and> HandlePwrEventData_DeepSleepOff s \<and>
    HandlePwrEventData_NoHandler_DoesNotCrash s \<and> Subscribe_WithTestSubscriber env s \<and>
    SysTimeMgrPwrEventHandler_EnqueuesEvent s \<and> createPublish_tests env s \<and> createSubscriber_tests env s"
proof -
  have "''INVALID_EVENT'' \<noteq> POWER_CHANGE_MSG" "[] \<noteq> POWER_CHANGE_MSG" by (simp_all add: POWER_CHANGE_MSG_def)
  then show ?thesis
    by (intro conjI publish_tests timer_tests power_tests handler_tests assms ipower_tests factory_tests)
qed

definition idle_bus :: test_bus where
  "idle_bus = \<lparr>w_fs = (\<lambda>_. None), w_hist = [], w_touched = [], b_subs = [], b_pInstance = None, b_threads = [],
     gReceivedStatus = [], handlerCalled = False\<rparr>"

theorem bus_tests_pass_witness:
  "PowerEventHandler_UnrelatedEventId (calm_env 1) POWER_STATE_ON POWER_STATE_OFF idle_bus"
  using bus_tests_pass [of "calm_env 1" idle_bus _ POWER_STATE_ON POWER_STATE_OFF] by (simp add: calm_env_def)

end
