(* ===== verification/Test_Manager.thy ===== *)
theory Test_Manager
  imports Mgr_Main
begin

text \<open>
  The repository's unit tests of the manager (\<open>SysTimeMgrUnitTest.cpp\<close>), run on the model: those
  that do not replace a time source or a store by a mock and do not start threads. The mock of the
  publisher counts its calls and does nothing else; here it is an IARM publisher, each of whose
  calls is one broadcast. The fixture has no sources and no stores, and it does not initialise the
  manager, so the table of transitions is empty.
\<close>

section \<open>The fixture\<close>

definition mgr_fixture :: "'w mgr_scheme \<Rightarrow> 'w mgr_scheme" where
  "mgr_fixture s = (snd (get_instance (s\<lparr>mgr_exists := False, w_hist := []\<rparr>)))
     \<lparr>m_timerSrc := [], m_timerSync := [], m_publish := Some (IarmPublish ''MockPublisherForTest''),
      m_pathEventMap := path_events []\<rparr>"

text \<open>The number of calls of \<open>publish\<close>.\<close>

definition publishes :: "'w world_scheme \<Rightarrow> nat" where
  "publishes s = length (filter (\<lambda>c. case c of IARM_Bus_BroadcastEvent _ _ _ \<Rightarrow> True | _ \<Rightarrow> False) (visible_calls s))"

text \<open>A test that returns, with its assertions on the result and the state.\<close>

definition test_ok :: "('w, 'a) mgr_io \<Rightarrow> 'w mgr_scheme \<Rightarrow> ('a \<Rightarrow> 'w mgr_scheme \<Rightarrow> bool) \<Rightarrow> bool" where
  "test_ok m s P = (case m (mgr_fixture s) of (Inr x, t) \<Rightarrow> P x t | _ \<Rightarrow> False)"

section \<open>The tests\<close>

text \<open>The object of the singleton is its state: a second call leaves it alone.\<close>

definition SingletonReturnsSamePointer :: "'w mgr_scheme \<Rightarrow> bool" where
  "SingletonReturnsSamePointer s = test_ok get_instance s (\<lambda>_ t. mgr_exists t \<and> m_cfgfile t = m_cfgfile (mgr_fixture s) \<and>
     m_publish t = m_publish (mgr_fixture s) \<and> m_state t = m_state (mgr_fixture s))"

text \<open>A manager that is not the singleton, constructed and deleted.\<close>

definition DestructorCovers :: "env \<Rightarrow> 'w mgr_scheme \<Rightarrow> bool" where
  "DestructorCovers env s =
     test_ok (bindM (new_SysTimeMgr ''dummy.cfg'') (\<lambda>_. destroy_SysTimeMgr env)) s (\<lambda>_ t. True)"

definition RunStateMachineUnknownEvent :: "env \<Rightarrow> 'w mgr_scheme \<Rightarrow> bool" where
  "RunStateMachineUnknownEvent env s = test_ok (runStateMachine env eSYSMGR_EVENT_UNKNOWN) s (\<lambda>_ t. True)"

definition NtpFailedPublishesStatus :: "env \<Rightarrow> 'w mgr_scheme \<Rightarrow> bool" where
  "NtpFailedPublishesStatus env s = test_ok (ntpFailed env) s (\<lambda>_ t. publishes t \<ge> 1)"

definition NtpFailed_test :: "env \<Rightarrow> 'w mgr_scheme \<Rightarrow> bool" where
  "NtpFailed_test env s =
     test_ok (ntpFailed env) s (\<lambda>_ t. publishes t \<ge> 1 \<and> m_state t = eSYSMGR_STATE_NTP_FAIL)"

definition NtpAquiredPublishesStatusAndUpdatesState :: "env \<Rightarrow> 'w mgr_scheme \<Rightarrow> bool" where
  "NtpAquiredPublishesStatusAndUpdatesState env s =
     test_ok (ntpAquired env) s (\<lambda>_ t. publishes t \<ge> 1 \<and> m_state t = eSYSMGR_STATE_NTP_ACQUIRED)"

definition DttAcquiredPublishesStatusAndUpdatesState :: "env \<Rightarrow> 'w mgr_scheme \<Rightarrow> bool" where
  "DttAcquiredPublishesStatusAndUpdatesState env s =
     test_ok (dttAquired env) s (\<lambda>_ t. publishes t \<ge> 1 \<and> m_state t = eSYSMGR_STATE_DTT_ACQUIRED)"

definition SecureTimeAcquiredUpdatesState :: "env \<Rightarrow> 'w mgr_scheme \<Rightarrow> bool" where
  "SecureTimeAcquiredUpdatesState env s =
     test_ok (secureTimeAcquired env) s (\<lambda>_ t. m_state t = eSYSMGR_STATE_SECURE_TIME_ACQUIRED)"

definition UpdateSecureTimePublishesStatusAndUpdatesState :: "env \<Rightarrow> 'w mgr_scheme \<Rightarrow> bool" where
  "UpdateSecureTimePublishesStatusAndUpdatesState env s =
     test_ok (updateSecureTime env) s (\<lambda>_ t. publishes t \<ge> 1 \<and> m_state t = eSYSMGR_STATE_RUNNING)"

definition SendMessageQueuesEvent :: "'w mgr_scheme \<Rightarrow> bool" where
  "SendMessageQueuesEvent s = test_ok (sendMessage eSYSMGR_EVENT_TIMER_EXPIRY None) s (\<lambda>_ t. True)"

definition GetTimeStatusPopulatesFields :: "env \<Rightarrow> TimerMsg \<Rightarrow> 'w mgr_scheme \<Rightarrow> bool" where
  "GetTimeStatusPopulatesFields env msg s =
     test_ok (getTimeStatus env msg) s (\<lambda>m t. length (c_string (msg_message m)) \<ge> 0)"

definition PowerHandlerHandlesSleepEvents :: "env \<Rightarrow> 'w mgr_scheme \<Rightarrow> bool" where
  "PowerHandlerHandlesSleepEvents env s =
     test_ok (bindM (powerhandler env ''DEEP_SLEEP_ON'') (\<lambda>a.
              bindM (powerhandler env ''DEEP_SLEEP_OFF'') (\<lambda>b. ret (a, b)))) s (\<lambda>(a, b) t. a = 1 \<and> b = 1)"

definition DeepSleepOffPublishesStatus :: "env \<Rightarrow> 'w mgr_scheme \<Rightarrow> bool" where
  "DeepSleepOffPublishesStatus env s =
     test_ok (bindM (modM (\<lambda>s. s\<lparr>m_timequality := eTIMEQUALILTY_SECURE\<rparr>)) (\<lambda>_. deepsleepoff env)) s
       (\<lambda>_ t. publishes t \<ge> 1)"

definition DeepSleepOffCoversPoorCase :: "env \<Rightarrow> 'w mgr_scheme \<Rightarrow> bool" where
  "DeepSleepOffCoversPoorCase env s =
     test_ok (bindM (modM (\<lambda>s. s\<lparr>m_timequality := eTIMEQUALILTY_POOR\<rparr>)) (\<lambda>_. deepsleepoff env)) s (\<lambda>_ t. True)"

definition DeepSleepOnLogs :: "'w mgr_scheme \<Rightarrow> bool" where
  "DeepSleepOnLogs s = test_ok deepsleepon s (\<lambda>_ t. True)"

definition RunDetachesThreadsWhenNotForever :: "env \<Rightarrow> 'w mgr_scheme \<Rightarrow> bool" where
  "RunDetachesThreadsWhenNotForever env s = test_ok (run_threads env False) s (\<lambda>_ t. True)"

definition GetTimeStatus_AllQualities :: "env \<Rightarrow> TimerMsg \<Rightarrow> 'w mgr_scheme \<Rightarrow> bool" where
  "GetTimeStatus_AllQualities env msg s =
     test_ok (foldM (\<lambda>m q. bindM (modM (\<lambda>s. s\<lparr>m_timequality := q\<rparr>)) (\<lambda>_. getTimeStatus env m)) msg
       [eTIMEQUALILTY_POOR, eTIMEQUALILTY_GOOD, eTIMEQUALILTY_SECURE]) s (\<lambda>_ t. True)"

definition PublishStatusCoversAll :: "env \<Rightarrow> 'w mgr_scheme \<Rightarrow> bool" where
  "PublishStatusCoversAll env s =
     test_ok (seqM (map (\<lambda>(event, message). publishStatus env event message)
       [(ePUBLISH_NTP_FAIL, ''Poor''), (ePUBLISH_NTP_SUCCESS, ''Good''), (ePUBLISH_SECURE_TIME_SUCCESS, ''Secure''),
        (ePUBLISH_DTT_SUCCESS, ''Good''), (ePUBLISH_TIME_INITIAL, ''Poor''), (ePUBLISH_DEEP_SLEEP_ON, ''Unknown'')])) s
       (\<lambda>_ t. publishes t \<ge> 1)"

definition RunStateMachine_AllStatesEvents :: "env \<Rightarrow> 'w mgr_scheme \<Rightarrow> bool" where
  "RunStateMachine_AllStatesEvents env s =
     test_ok (seqM (map (\<lambda>state. bindM (modM (\<lambda>s. s\<lparr>m_state := state\<rparr>)) (\<lambda>_. seqM (map (runStateMachine env)
         [eSYSMGR_EVENT_TIMER_EXPIRY, eSYSMGR_EVENT_NTP_AVAILABLE, eSYSMGR_EVENT_SECURE_TIME_AVAILABLE,
          eSYSMGR_EVENT_DTT_TIME_AVAILABLE])))
       [eSYSMGR_STATE_RUNNING, eSYSMGR_STATE_NTP_WAIT, eSYSMGR_STATE_NTP_ACQUIRED, eSYSMGR_STATE_NTP_FAIL,
        eSYSMGR_STATE_DTT_ACQUIRED, eSYSMGR_STATE_SECURE_TIME_ACQUIRED])) s (\<lambda>_ t. True)"

definition GetTimeStatusStaticFunctionWorks :: "env \<Rightarrow> TimerMsg \<Rightarrow> 'w mgr_scheme \<Rightarrow> bool" where
  "GetTimeStatusStaticFunctionWorks env msg s =
     test_ok (static_getTimeStatus env (Some msg)) s (\<lambda>(r, m) t. r = 0)"

definition RunStateMachine_HitsFunctionPointer :: "env \<Rightarrow> 'w mgr_scheme \<Rightarrow> bool" where
  "RunStateMachine_HitsFunctionPointer env s =
     test_ok (bindM (modM (\<lambda>s. s\<lparr>stateMachine := table_set (eSYSMGR_STATE_RUNNING, eSYSMGR_EVENT_TIMER_EXPIRY, UpdateTime)
         (stateMachine s), m_state := eSYSMGR_STATE_RUNNING\<rparr>)) (\<lambda>_.
       runStateMachine env eSYSMGR_EVENT_TIMER_EXPIRY)) s (\<lambda>_ t. True)"

section \<open>The tests pass\<close>

lemma mgr_fixture_fields [simp]:
  "m_timerSrc (mgr_fixture s) = []" "m_timerSync (mgr_fixture s) = []"
  "m_publish (mgr_fixture s) = Some (IarmPublish ''MockPublisherForTest'')" "stateMachine (mgr_fixture s) = []"
  "mgr_exists (mgr_fixture s)" "visible_calls (mgr_fixture s) = []"
  by (simp_all add: mgr_fixture_def get_instance_def new_SysTimeMgr_def prog_simps visible_calls_def)

lemma updateTimeSync_none: "m_timerSync s = [] \<Longrightarrow> updateTimeSync env v s = (Inr (), s\<lparr>m_timerSync := []\<rparr>)"
  by (simp add: updateTimeSync_def prog_simps)

lemma timerExpiry_none:
  "m_timerSrc s = [] \<Longrightarrow> m_timerSync s = [] \<Longrightarrow> timerExpiry env s = (Inr (), s\<lparr>m_timerSrc := [], m_timerSync := []\<rparr>)"
  by (simp add: timerExpiry_def prog_simps checked_ll_def is_ll_def LLONG_MIN_def LLONG_MAX_def updateTimeSync_none)

lemma publish_counted:
  fixes s :: "'w mgr_scheme"
  assumes "sane_clock env" "m_publish s = Some (IarmPublish p)"
  shows "\<exists>h. publishStatus env ev message s = (Inr (), s\<lparr>w_hist := h\<rparr>) \<and> publishes (s\<lparr>w_hist := h\<rparr>) = Suc (publishes s)"
  using publishStatus_run [OF assms, of ev message] by (auto simp: publishes_def)

lemma publishes_simps [simp]:
  "publishes (s\<lparr>m_timerSync := x\<rparr>) = publishes s" "publishes (s\<lparr>m_timerSrc := y\<rparr>) = publishes s"
  "publishes (s\<lparr>m_state := a\<rparr>) = publishes s" "publishes (s\<lparr>m_timequality := q\<rparr>) = publishes s"
  "publishes (s\<lparr>m_timersrc := z\<rparr>) = publishes s"
  by (simp_all add: publishes_def)

lemma handler_publishes:
  fixes s :: "'w mgr_scheme"
  assumes "sane_clock env"
  shows "NtpFailedPublishesStatus env s" "NtpFailed_test env s" "NtpAquiredPublishesStatusAndUpdatesState env s"
    "DttAcquiredPublishesStatusAndUpdatesState env s" "SecureTimeAcquiredUpdatesState env s"
    "UpdateSecureTimePublishesStatusAndUpdatesState env s"
proof -
  have pub: "\<exists>h. publishStatus env ev message t = (Inr (), t\<lparr>w_hist := h\<rparr>) \<and> publishes (t\<lparr>w_hist := h\<rparr>) = Suc (publishes t)"
    if "m_publish t = m_publish (mgr_fixture s)" for ev message and t :: "'w mgr_scheme"
    using publish_counted [OF assms, of t] that by simp
  show "NtpFailedPublishesStatus env s" "NtpFailed_test env s"
    using pub [of "(mgr_fixture s)\<lparr>m_timerSync := [], m_state := eSYSMGR_STATE_NTP_FAIL\<rparr>" ePUBLISH_NTP_FAIL "''Poor''"]
    by (auto simp: NtpFailed_test_def NtpFailedPublishesStatus_def test_ok_def ntpFailed_def bindM_run modM_run updateTimeSync_none)
  show "NtpAquiredPublishesStatusAndUpdatesState env s"
    using pub [of "(mgr_fixture s)\<lparr>m_timerSync := [], m_timequality := eTIMEQUALILTY_GOOD,
        m_state := eSYSMGR_STATE_NTP_ACQUIRED, m_timersrc := ''NTP''\<rparr>" ePUBLISH_NTP_SUCCESS "''Good''"]
    by (auto simp: NtpAquiredPublishesStatusAndUpdatesState_def test_ok_def ntpAquired_def bindM_run modM_run updateTimeSync_none)
  show "DttAcquiredPublishesStatusAndUpdatesState env s"
    using pub [of "(mgr_fixture s)\<lparr>m_timerSync := [], m_timequality := eTIMEQUALILTY_GOOD,
        m_state := eSYSMGR_STATE_DTT_ACQUIRED, m_timersrc := ''DTT''\<rparr>" ePUBLISH_DTT_SUCCESS "''Good''"]
    by (auto simp: DttAcquiredPublishesStatusAndUpdatesState_def test_ok_def dttAquired_def bindM_run modM_run updateTimeSync_none)
  show "SecureTimeAcquiredUpdatesState env s"
    by (simp add: SecureTimeAcquiredUpdatesState_def test_ok_def secureTimeAcquired_def bindM_run modM_run updateTimeSync_none)
  show "UpdateSecureTimePublishesStatusAndUpdatesState env s"
    using pub [of "(mgr_fixture s)\<lparr>m_timerSrc := [], m_timerSync := [], m_state := eSYSMGR_STATE_RUNNING,
        m_timequality := eTIMEQUALILTY_SECURE\<rparr>" ePUBLISH_SECURE_TIME_SUCCESS "''Secure''"]
    by (auto simp: UpdateSecureTimePublishesStatusAndUpdatesState_def test_ok_def updateSecureTime_def bindM_run modM_run
        timerExpiry_none)
qed

text \<open>A wake-up publishes once, whatever the quality was.\<close>

lemma deepsleepoff_counted:
  fixes s :: "'w mgr_scheme"
  assumes "sane_clock env" "m_publish s = Some (IarmPublish p)"
  shows "\<exists>t. deepsleepoff env s = (Inr (), t) \<and> publishes t = Suc (publishes s) \<and> mgr_exists t = mgr_exists s"
proof -
  define q where "q = (if m_timequality s = eTIMEQUALILTY_SECURE then eTIMEQUALILTY_GOOD else m_timequality s)"
  define s' where "s' = (if m_timequality s = eTIMEQUALILTY_SECURE
    then s\<lparr>m_timequality := eTIMEQUALILTY_GOOD, m_state := eSYSMGR_STATE_NTP_ACQUIRED\<rparr> else s)\<lparr>m_timersrc := ''Last Known''\<rparr>"
  have s': "m_publish s' = Some (IarmPublish p)" "publishes s' = publishes s" "mgr_exists s' = mgr_exists s"
    "deepsleepoff_locked env s = publishStatus env ePUBLISH_DEEP_SLEEP_ON (quality_text q) s'"
    using assms(2) by (simp_all add: s'_def q_def deepsleepoff_locked_def prog_simps)
  obtain h where h: "deepsleepoff_locked env s = (Inr (), s'\<lparr>w_hist := h\<rparr>)"
    "publishes (s'\<lparr>w_hist := h\<rparr>) = Suc (publishes s)"
    using publish_counted [OF assms(1) s'(1)] unfolding s'(2,4) by blast
  obtain r u where u: "restart_timesync env (s'\<lparr>w_hist := h\<rparr>) = (r, u)" by (cases "restart_timesync env (s'\<lparr>w_hist := h\<rparr>)")
  have "keeps (\<lambda>s :: 'w mgr_scheme. (visible_calls s, mgr_exists s)) (restart_timesync env)"
    unfolding restart_timesync_def by (intro keeps_intros | simp)+
  from keepsD [OF this u] have "publishes u = publishes (s'\<lparr>w_hist := h\<rparr>)" "mgr_exists u = mgr_exists s"
    using s'(3) by (simp_all add: publishes_def)
  moreover have "r = Inr ()" using restart_timesync_run [of env "s'\<lparr>w_hist := h\<rparr>"] u by auto
  ultimately show ?thesis using h u by (simp add: deepsleepoff_def bindM_run)
qed

lemma power_handler_tests:
  fixes s :: "'w mgr_scheme"
  assumes "sane_clock env"
  shows "PowerHandlerHandlesSleepEvents env s" "DeepSleepOffPublishesStatus env s" "DeepSleepOffCoversPoorCase env s"
proof -
  have off: "\<exists>t. deepsleepoff env u = (Inr (), t) \<and> publishes t = Suc (publishes u)"
    if "m_publish u = m_publish (mgr_fixture s)" for u :: "'w mgr_scheme"
    using deepsleepoff_counted [OF assms, of u] that by auto
  show "PowerHandlerHandlesSleepEvents env s"
    using off [of "mgr_fixture s"]
    by (auto simp: PowerHandlerHandlesSleepEvents_def test_ok_def powerhandler_run bindM_run ret_run)
  show "DeepSleepOffPublishesStatus env s" "DeepSleepOffCoversPoorCase env s"
    using off [of "(mgr_fixture s)\<lparr>m_timequality := eTIMEQUALILTY_SECURE\<rparr>"]
      off [of "(mgr_fixture s)\<lparr>m_timequality := eTIMEQUALILTY_POOR\<rparr>"]
    by (auto simp: DeepSleepOffPublishesStatus_def DeepSleepOffCoversPoorCase_def test_ok_def bindM_run modM_run)
qed

lemma empty_table_run: "stateMachine s = [] \<Longrightarrow> runStateMachine env ev s = (Inr (), s)"
  by (simp add: runStateMachine_def prog_simps smap_find_def)

lemma table_tests:
  "RunStateMachineUnknownEvent env s" "RunStateMachine_AllStatesEvents env s" "RunStateMachine_HitsFunctionPointer env s"
proof -
  show "RunStateMachineUnknownEvent env s"
    by (simp add: RunStateMachineUnknownEvent_def test_ok_def empty_table_run)
  show "RunStateMachine_AllStatesEvents env s"
    by (simp add: RunStateMachine_AllStatesEvents_def test_ok_def empty_table_run prog_simps)
  show "RunStateMachine_HitsFunctionPointer env s"
    by (simp add: RunStateMachine_HitsFunctionPointer_def test_ok_def runStateMachine_def prog_simps table_set_def
        smap_find_def smap_index_def updateTime_def updateTimeSync_none check_sources_def)
qed

lemma query_tests:
  fixes s :: "'w mgr_scheme"
  assumes "sane_clock env"
  shows "GetTimeStatusPopulatesFields env msg s" "GetTimeStatus_AllQualities env msg s" "GetTimeStatusStaticFunctionWorks env msg s"
proof -
  have get: "\<exists>m h. getTimeStatus env p t = (Inr m, t\<lparr>w_hist := h\<rparr>)" for p and t :: "'w mgr_scheme"
    using log_times_run [OF assms, of t] by (auto simp: getTimeStatus_def prog_simps)
  have step: "\<exists>m t'. bindM (modM (\<lambda>s. s\<lparr>m_timequality := q\<rparr>)) (\<lambda>_. getTimeStatus env p) t = (Inr m, t')"
    for q p and t :: "'w mgr_scheme"
    using get [of p "t\<lparr>m_timequality := q\<rparr>"] by (auto simp: bindM_run modM_run)
  have "\<exists>m t'. foldM (\<lambda>m q. bindM (modM (\<lambda>s. s\<lparr>m_timequality := q\<rparr>)) (\<lambda>_. getTimeStatus env m)) p qs t = (Inr m, t')"
    for p qs and t :: "'w mgr_scheme"
  proof (induction qs arbitrary: p t)
    case (Cons q qs)
    from step [of q p t] obtain m t' where
      "bindM (modM (\<lambda>s. s\<lparr>m_timequality := q\<rparr>)) (\<lambda>_. getTimeStatus env p) t = (Inr m, t')" by blast
    with Cons.IH [of m t'] show ?case by (simp add: bindM_run)
  qed (simp add: ret_run)
  from this [of msg "[eTIMEQUALILTY_POOR, eTIMEQUALILTY_GOOD, eTIMEQUALILTY_SECURE]" "mgr_fixture s"]
  show "GetTimeStatus_AllQualities env msg s"
    unfolding GetTimeStatus_AllQualities_def test_ok_def by auto
  show "GetTimeStatusPopulatesFields env msg s"
    using get [of msg "mgr_fixture s"] by (auto simp: GetTimeStatusPopulatesFields_def test_ok_def)
  show "GetTimeStatusStaticFunctionWorks env msg s"
    using get [of msg "mgr_fixture s"]
    by (auto simp: GetTimeStatusStaticFunctionWorks_def test_ok_def static_getTimeStatus_def get_instance_def deref_def
        bindM_run getM_run whenM_run ret_run)
qed

lemma publish_all_test:
  fixes s :: "'w mgr_scheme"
  assumes "sane_clock env"
  shows "PublishStatusCoversAll env s"
proof -
  have "\<exists>h. seqM (map (\<lambda>(event, message). publishStatus env event message) ps) t = (Inr (), t\<lparr>w_hist := h\<rparr>) \<and>
      publishes (t\<lparr>w_hist := h\<rparr>) = publishes t + length ps"
    if "m_publish t = m_publish (mgr_fixture s)" for ps and t :: "'w mgr_scheme"
    using that
  proof (induction ps arbitrary: t)
    case Nil
    show ?case by (intro exI [of _ "w_hist t"]) (simp add: ret_run)
  next
    case (Cons p ps)
    obtain ev message where p: "p = (ev, message)" by (cases p)
    from publish_counted [OF assms, of t "''MockPublisherForTest''" ev message] Cons.prems obtain h where
      h: "publishStatus env ev message t = (Inr (), t\<lparr>w_hist := h\<rparr>)" "publishes (t\<lparr>w_hist := h\<rparr>) = Suc (publishes t)" by auto
    from Cons.IH [of "t\<lparr>w_hist := h\<rparr>"] Cons.prems h show ?case by (auto simp: p bindM_run)
  qed
  from this [of "mgr_fixture s" "[(ePUBLISH_NTP_FAIL, ''Poor''), (ePUBLISH_NTP_SUCCESS, ''Good''), (ePUBLISH_SECURE_TIME_SUCCESS, ''Secure''),
        (ePUBLISH_DTT_SUCCESS, ''Good''), (ePUBLISH_TIME_INITIAL, ''Poor''), (ePUBLISH_DEEP_SLEEP_ON, ''Unknown'')]"]
  show ?thesis unfolding PublishStatusCoversAll_def test_ok_def by fastforce
qed

section \<open>Properties\<close>

text \<open>
  The model passes the repository's unit tests of the manager. With a sane clock
  and threads that can be created, for every world, the handlers leave the manager in the states the
  tests expect and publish, the power handler answers one, queries return, publishing works for
  every event, every event is taken in every state, and none of the tests ends in a fault.
\<close>

theorem manager_tests_pass:
  fixes s :: "'w mgr_scheme"
  assumes "sane_clock env" "\<And>h name. ret_code env h (Thread_create name) = 0"
  shows "SingletonReturnsSamePointer s \<and> DestructorCovers env s \<and> NtpFailedPublishesStatus env s \<and>
    GetTimeStatusPopulatesFields env msg s \<and> RunDetachesThreadsWhenNotForever env s \<and> RunStateMachineUnknownEvent env s \<and> NtpFailed_test env s \<and>
    NtpAquiredPublishesStatusAndUpdatesState env s \<and> DttAcquiredPublishesStatusAndUpdatesState env s \<and>
    SecureTimeAcquiredUpdatesState env s \<and> UpdateSecureTimePublishesStatusAndUpdatesState env s \<and>
    SendMessageQueuesEvent s \<and> PowerHandlerHandlesSleepEvents env s \<and> DeepSleepOffPublishesStatus env s \<and>
    DeepSleepOffCoversPoorCase env s \<and> DeepSleepOnLogs s \<and> GetTimeStatus_AllQualities env msg s \<and>
    PublishStatusCoversAll env s \<and> RunStateMachine_AllStatesEvents env s \<and>
    GetTimeStatusStaticFunctionWorks env msg s \<and> RunStateMachine_HitsFunctionPointer env s"
proof -
  have unit: "SingletonReturnsSamePointer s" "SendMessageQueuesEvent s" "DeepSleepOnLogs s" "DestructorCovers env s"
    by (simp_all add: SingletonReturnsSamePointer_def SendMessageQueuesEvent_def DeepSleepOnLogs_def DestructorCovers_def
        test_ok_def get_instance_def sendMessage_def deepsleepon_def new_SysTimeMgr_def destroy_SysTimeMgr_def prog_simps)
  have detached: "RunDetachesThreadsWhenNotForever env s"
    using run_threads_run [OF assms(2), of False "mgr_fixture s"] by (auto simp: RunDetachesThreadsWhenNotForever_def test_ok_def)
  show ?thesis
    by (intro conjI unit detached handler_publishes [OF assms(1)] power_handler_tests [OF assms(1)] table_tests
        query_tests [OF assms(1)] publish_all_test [OF assms(1)])
qed

theorem manager_tests_pass_witness: "PublishStatusCoversAll example_env example_mgr"
proof -
  have "ret_code example_env h (Thread_create name) = 0" for h name
    using example_boot_ok by (simp add: boot_ok_def bus_works_def)
  from manager_tests_pass [OF example_env_sane(1) this, of example_mgr] show ?thesis by blast
qed

end
