(* ===== verification/Spec2Isabelle.thy ===== *)
theory Spec2Isabelle
  imports Daemon_Safe Locks Mgr_Clients Mgr_Config Test_Sources Test_Stores Test_Bus Test_Manager
begin

text \<open>
  A verification of the RDK system time manager (\<^verbatim>\<open>systimemgr\<close>), the daemon that keeps the clock of
  a device plausible from boot on, acquires better time from NTP, DTT and a secure source, records
  it for the next boot, and tells clients on the bus how good the time is.

  \<^bold>\<open>The program and its model.\<close> Every function of the sources is a program over a record of the
  state that may stop with a fault; the fault is a value, so every exception, null pointer and
  signed overflow is a branch of the model. All code the sources call but do not contain (kernel,
  C library clocks, IARM, chronyctl, Thunder, the power controller, telemetry) is an external call:
  the environment gives its results as a function of the history of all calls before, and a theorem
  assumes of it what its hypotheses say (\<open>sane_clock\<close>, \<open>sane_rpc\<close>, \<open>files_work\<close>, \<open>touch_works\<close>,
  \<open>bus_works\<close>) and nothing else. Build options are fields of the environment.

  \<^item> \<open>SysTime_Prelude\<close>: programs, total-correctness triples (\<open>safe\<close>), frame conditions (\<open>keeps\<close>),
    transition systems (\<open>reach\<close>, \<open>run\<close>) and the locales \<open>invariant_system\<close>, \<open>simulation\<close>, \<open>fifo\<close>.
  \<^item> \<open>Cxx_Map\<close>, \<open>Cxx_Text\<close>: \<^verbatim>\<open>std::map\<close> (locale \<open>ordered_map\<close>), string, number and calendar functions.
  \<^item> \<open>World\<close>: the environment, the file system, the messages of \<^verbatim>\<open>interface/itimermsg.h\<close>.
  \<^item> \<open>Time_Src\<close>: the five classes of \<^verbatim>\<open>interface/itimesrc.h\<close> (NTP, STT, regular, DRM, DTT).
  \<^item> \<open>Time_Sync\<close>: the three classes of \<^verbatim>\<open>interface/itimesync.h\<close> (default, test and TEE store), with
    the locale \<open>itimesync\<close> for what the manager relies on.
  \<^item> \<open>Pub_Sub\<close>: publishers, subscribers and \<^verbatim>\<open>pubsubfactory.cpp\<close>; subscribers live in an explicit store
    because the static instance aliases them. \<open>Factory\<close>: \<^verbatim>\<open>timerfactory.cpp\<close>.
  \<^item> \<open>Network_Status\<close>: \<^verbatim>\<open>networkstatussrc.cpp\<close>, its callback, processing loop, subscription loop and
    destructor, as steps around the mutex and the one condition variable on which both loops sleep.
  \<^item> \<open>Power_Controller\<close>: the callback and the threads of \<^verbatim>\<open>ipowercontrollersubscriber.cpp\<close>, with the
    locale \<open>power_client\<close> for what they rely on in the registered function.
  \<^item> \<open>Sys_Time_Mgr\<close>: the manager (\<^verbatim>\<open>systimemgr.cpp\<close>, \<^verbatim>\<open>systimemgr.h\<close>): state, table of handlers,
    initialisation, publishing, queries, power handling.
  \<^item> \<open>Ntp_Monitor\<close>, \<open>Path_Monitor\<close>, \<open>Mgr_Main\<close>: the threads of the manager, \<^verbatim>\<open>SysTimeMgr::run\<close> and
    \<^verbatim>\<open>main.cpp\<close>.
  \<^item> \<open>Daemon\<close>: all threads and callbacks as one transition system, and the joins of the main thread;
    \<open>Daemon_Sync\<close>: the way of a report from the kernel to the clients, with the locale \<open>mgr_frame\<close> for
    what the threads leave alone; \<open>Daemon_Safe\<close>: the steps that end in a fault.
  \<^item> \<open>Locks\<close>: the functions as sequences of operations on mutexes and shared data, with the locale
    \<open>lock_discipline\<close> for what follows from an order of the mutexes and a guard or an owner of the data.
  \<^item> \<open>Test_Sources\<close>, \<open>Test_Stores\<close>, \<open>Test_Bus\<close>, \<open>Test_Manager\<close>: the unit tests under
    \<^verbatim>\<open>systimerfactory/unittest\<close> and \<^verbatim>\<open>test\<close> as statements about the model. The mocks of a test are its
    environment; what a test expects of a mock is read off the history of calls.

  \<^bold>\<open>What is shown.\<close>
  \<^item> The manager refines an abstract state machine on state, quality and source of time
    (\<open>Mgr_Correct\<close>, \<open>Mgr_Boot\<close>), event by event, and so does the composition of all threads under
    every interleaving (\<open>Daemon\<close>): messages are handled once and in order, no wake-up of the
    processing thread is lost, secure time is reached once both sources have reported, and every
    message is handled once the processing thread has made enough passes (\<open>Daemon_Safe\<close>). As long as
    inotify delivers one event for each read, the messages are exactly the reports of the timer and of
    the files, and a synchronised clock is announced from the kernel's report to the clients
    (\<open>Daemon_Sync\<close>).
  \<^item> The start succeeds, and a thousand million steps after it no thread or callback faults, in an
    environment that behaves as documented (\<open>Mgr_Total\<close>, \<open>Mgr_Boot\<close>, \<open>Daemon_Safe\<close>); the start connects the power
    callbacks to the manager and starts the threads (\<open>Mgr_Main\<close>); the configuration file is read as
    it is written (\<open>Mgr_Config\<close>).
  \<^item> What clients see: exactly the messages of the table are broadcast, queries are answered with the
    time of day and the status, and a timer event makes one decision. At the start the clock is never
    set back; when the last store has no time it is not set and the clients are not told
    (\<open>Mgr_Clients\<close>).
  \<^item> Stores recover over a restart and count monotonically; the build time is read correctly; the
    test store is a register; the TEE store gets the first four bytes of a time (\<open>Time_Sync\<close>).
  \<^item> Sources always answer, touch only their own file, and report secure time only if it is genuine
    (\<open>Time_Src\<close>).
  \<^item> A new connection is edge-triggered, and its notification reaches the event thread, provided that
    Thunder calls back only while the client exists; the shutdown wakes both threads; the clock is
    stepped exactly when chrony's answers ask for it; the subscription loop ends (\<open>Network_Status\<close>).
  \<^item> The two power back ends agree (\<open>Pub_Sub\<close>); power changes are handled in order (\<open>Daemon\<close>); the
    connection loop ends (\<open>Power_Controller\<close>).
  \<^item> The synchronisation monitor ends and leaves its marks (\<open>Ntp_Monitor\<close>); the path monitor sends
    the events of existing files and of every event read alone (\<open>Path_Monitor\<close>).
  \<^item> The mutexes do not deadlock, and the data they guard, and the flag that one thread owns, is not
    raced for (\<open>Locks\<close>).
  \<^item> Where the code falls short, a theorem says how: a lost wake-up and a shutdown that never joins
    (\<open>Power_Controller\<close>), data races on the queue of power events and on the client of the network
    manager (\<open>Locks\<close>), dropped and stale file
    events (\<open>Path_Monitor\<close>), a synchronisation missed before the watch (\<open>Daemon_Sync\<close>), uncaught
    exceptions and null pointers (\<open>Time_Src\<close>, \<open>Time_Sync\<close>, \<open>Mgr_Main\<close>), inverted results (\<open>Pub_Sub\<close>), a
    clock stepped without a source after a deep sleep (\<open>Mgr_Boot\<close>).
  \<^item> The model passes the unit tests that are modelled; one of them passes for another reason than
    its name says (\<open>Test_Stores\<close>).

  \<^bold>\<open>Bounds and fuel.\<close> Loops that poll until the outside answers (\<open>subscribeToInternetEvent\<close>,
  \<open>sysTimeMgrPwrConnectHandlingThreadFunc\<close>, \<open>runNTPSyncMonitor\<close>) take fuel, one unit for each
  iteration, and return \<open>None\<close> when it is used up; each has a theorem that \<open>k + 1\<close> units are enough
  when the outside answers from its k-th call on. Times are below \<open>2 ^ 33\<close> seconds (the year 2242),
  before the nanosecond count of \<^verbatim>\<open>std::chrono\<close> leaves 64 bits; the bound of a thousand million
  steps keeps the counter of the default store, which may grow by 600 with each, below the range of
  \<^verbatim>\<open>localtime\<close>. The order of the bytes in memory is a field of the environment; \<open>sane_clock\<close> includes that
  it is little-endian.

  \<^bold>\<open>Granularity.\<close> A step of \<open>Daemon\<close> is a critical section of the mutex it needs, an operation on a
  condition variable, or one iteration of a polling loop. The external calls of one step are made
  without interruption; the shell commands \<^verbatim>\<open>deepsleepoff\<close> runs after it has released the mutex belong
  to the step of the power change. That critical sections may be taken as single steps rests on the
  absence of races, shown in \<open>Locks\<close> for all shared data but the queue of power events, whose test is
  a step of its own, and the client of the network manager, whose creation, use by the subscription
  thread and release by the destructor are steps of their own. Memory is sequentially consistent.

  \<^bold>\<open>Not modelled.\<close> Logging; the destructors of the manager's plug-ins; partial writes; the text
  \<^verbatim>\<open>strftime\<close> produces (a parameter). Of the unit tests: those that look at the access time of a file; those that replace a source or a store of the
  manager by a mock class of their own, whose classes are not ones of the daemon; those that start
  threads and leave them running, which assert nothing; those that pass a power state outside the
  enumeration; the one whose mock throws \<^verbatim>\<open>runtime_error\<close>; those that call only a mock; and the tests of
  \<^verbatim>\<open>test/rdkdefaulttimesyncTest.cpp\<close> that call functions the class does not have. The mock headers and
  the drivers that run the tests are no part of the daemon.
\<close>

end
